(* ===== verification/Prelude.thy ===== *)
theory Prelude
  imports "HOL-Library.Word" "HOL-Library.Multiset" "HOL-Library.Signed_Division"
    "HOL-Library.Sublist"
begin

text \<open>
  What every component of the model shares: Go's machine integers, the result of a call that can
  return, fail or panic, the functions of Go's \<open>strings\<close> and \<open>strconv\<close> packages that the
  program calls, and the generic list lemmas that the component proofs use.

  A Go \<open>string\<close> or \<open>[]byte\<close> is a list of bytes, a \<open>char list\<close> in HOL. An \<open>int64\<close> is a
  64 bit word read by \<open>sint\<close>, a \<open>uint64\<close> is a 64 bit word read by \<open>unat\<close>; both wrap. A point in
  time is its number of nanoseconds.
\<close>

named_theorems go_simps \<open>equations that compute the functions of the Go standard library\<close>
named_theorems inv_intros \<open>preservation of the invariants of the model\<close>

section \<open>Machine integers\<close>

type_synonym i64 = "64 word"
type_synonym u64 = "64 word"
type_synonym time = int
type_synonym bytes = string

abbreviation max_i64 :: i64 where
  "max_i64 \<equiv> 9223372036854775807"

definition go_div :: "i64 \<Rightarrow> i64 \<Rightarrow> i64" where
  "go_div a b = word_of_int (sint a sdiv sint b)"

text \<open>The value of an \<open>int\<close> of 64 bits after an operation whose exact result is \<open>n\<close>.\<close>

definition wrap_int :: "int \<Rightarrow> int" where
  "wrap_int n = sint (word_of_int n :: 64 word)"

text \<open>\<open>time.Duration.Microseconds()\<close> of the difference of two instants: truncated, as an \<open>int64\<close>.\<close>

definition micros :: "int \<Rightarrow> i64" where
  "micros ns = word_of_int (ns sdiv 1000)"

lemma sint_max_i64 [simp]: "sint max_i64 = 9223372036854775807"
  by simp

lemma sint_le_max_i64 [simp]: "sint (x :: i64) \<le> 9223372036854775807"
  using sint_lt [of x] by simp

lemma sint_ge_min_i64 [simp]: "- 9223372036854775808 \<le> sint (x :: i64)"
  using sint_ge [of x] by simp

lemma sint_word_of_int_i64:
  "- (2 ^ 63) \<le> n \<Longrightarrow> n < 2 ^ 63 \<Longrightarrow> sint (word_of_int n :: i64) = n"
  by (simp add: signed_of_int signed_take_bit_int_eq_self)

lemma i64_eqI: "sint a = sint b \<Longrightarrow> a = (b :: i64)"
  by (rule signed_word_eqI)

lemma sum_list_map_nonneg: "\<forall>v \<in> set vs. 0 \<le> f v \<Longrightarrow> 0 \<le> (\<Sum>v\<leftarrow>vs. f v :: int)"
  by (induction vs) auto

lemma wrap_int_id [simp]: "- (2 ^ 63) \<le> n \<Longrightarrow> n < 2 ^ 63 \<Longrightarrow> wrap_int n = n"
  unfolding wrap_int_def by (rule sint_word_of_int_i64)

lemma wrap_int_add_left: "wrap_int (wrap_int a + b) = wrap_int (a + b)"
  by (simp add: wrap_int_def)

section \<open>Results of calls\<close>

text \<open>
  A Go call returns a value, returns an error value, or panics. The error carries its text.
\<close>

datatype 'a outcome = Return 'a | Error string | Panic string

fun bind_outcome :: "'a outcome \<Rightarrow> ('a \<Rightarrow> 'b outcome) \<Rightarrow> 'b outcome" where
  "bind_outcome (Return x) f = f x"
| "bind_outcome (Error e) f = Error e"
| "bind_outcome (Panic e) f = Panic e"

lemma bind_outcome_Return [simp]:
  "bind_outcome m f = Return y \<longleftrightarrow> (\<exists>x. m = Return x \<and> f x = Return y)"
  by (cases m) auto

section \<open>Strings\<close>

text \<open>\<open>strings.HasPrefix\<close> and \<open>bytes.HasPrefix\<close>, \<open>strings.Contains\<close>, \<open>strings.TrimSuffix\<close>.\<close>

definition HasPrefix :: "string \<Rightarrow> string \<Rightarrow> bool" where
  "HasPrefix s p \<longleftrightarrow> take (length p) s = p"

fun Contains :: "string \<Rightarrow> string \<Rightarrow> bool" where
  "Contains [] sub = (sub = [])"
| "Contains (c # s) sub = (HasPrefix (c # s) sub \<or> Contains s sub)"

definition TrimSuffix :: "string \<Rightarrow> string \<Rightarrow> string" where
  "TrimSuffix s suf =
     (if length suf \<le> length s \<and> drop (length s - length suf) s = suf
      then take (length s - length suf) s else s)"

text \<open>\<open>strings.Split\<close> and \<open>bytes.Split\<close> by a separator of one byte, and its inverse.\<close>

fun Split :: "char \<Rightarrow> string \<Rightarrow> string list" where
  "Split c [] = [[]]"
| "Split c (x # xs) =
     (if x = c then [] # Split c xs
      else case Split c xs of [] \<Rightarrow> [[x]] | y # ys \<Rightarrow> (x # y) # ys)"

fun Join :: "char \<Rightarrow> string list \<Rightarrow> string" where
  "Join c [] = []"
| "Join c [s] = s"
| "Join c (s # t # ts) = s @ c # Join c (t # ts)"

lemma HasPrefix_iff: "HasPrefix s p \<longleftrightarrow> (\<exists>t. s = p @ t)"
  by (metis HasPrefix_def append_eq_conv_conj)

lemma HasPrefix_Nil [simp]: "HasPrefix s []"
  by (simp add: HasPrefix_def)

lemma HasPrefix_append [simp]: "HasPrefix (p @ s) p"
  by (simp add: HasPrefix_iff)

lemma HasPrefix_Cons [simp]: "HasPrefix (c # s) (d # p) \<longleftrightarrow> c = d \<and> HasPrefix s p"
  by (simp add: HasPrefix_def)

lemma HasPrefix_empty [simp]: "HasPrefix [] p \<longleftrightarrow> p = []"
  by (auto simp: HasPrefix_iff)

lemma Contains_iff: "Contains s sub \<longleftrightarrow> (\<exists>u v. s = u @ sub @ v)"
proof (induction s)
  case (Cons c s)
  then show ?case
    by (auto simp: HasPrefix_iff Cons_eq_append_conv)
qed simp

lemma Contains_Nil [simp]: "Contains s []"
  by (cases s) auto

lemma Contains_single [simp]: "Contains s [c] \<longleftrightarrow> c \<in> set s"
  by (auto simp: Contains_iff in_set_conv_decomp)

lemma TrimSuffix_append [simp]: "TrimSuffix (s @ suf) suf = s"
  by (simp add: TrimSuffix_def)

lemma Split_not_Nil [simp]: "Split c s \<noteq> []"
  by (cases s) (auto split: list.split)

lemma Split_no_sep: "c \<notin> set s \<Longrightarrow> Split c s = [s]"
  by (induction s) auto

lemma Split_append: "Split c (u @ c # t) = Split c u @ Split c t"
  by (induction u) (auto split: list.split)

lemma Split_append_sep: "c \<notin> set s \<Longrightarrow> Split c (s @ c # t) = s # Split c t"
  by (simp add: Split_append Split_no_sep)

lemma Split_parts: "p \<in> set (Split c s) \<Longrightarrow> c \<notin> set p"
  by (induction s arbitrary: p) (auto split: if_splits list.splits)

lemma Join_Split [simp]: "Join c (Split c s) = s"
proof (induction s)
  case (Cons x s)
  then show ?case
    by (cases "Split c s"; cases "tl (Split c s)") auto
qed simp

lemma Split_Join: "ss \<noteq> [] \<Longrightarrow> (\<And>s. s \<in> set ss \<Longrightarrow> c \<notin> set s) \<Longrightarrow> Split c (Join c ss) = ss"
  by (induction c ss rule: Join.induct) (auto simp: Split_no_sep Split_append_sep)

lemma hd_Split_no_sep [simp]: "c \<notin> set s \<Longrightarrow> hd (Split c s) = s"
  by (simp add: Split_no_sep)

lemma last_Split_no_sep: "c \<notin> set s \<Longrightarrow> last (Split c (u @ c # s)) = s"
  by (simp add: Split_append Split_no_sep)

text \<open>
  \<open>strings.Fields\<close>: the maximal runs of non-space bytes. \<open>unicode.IsSpace\<close> on the ASCII bytes
  is tab, line feed, vertical tab, form feed, carriage return and space.
\<close>

definition is_space :: "char \<Rightarrow> bool" where
  "is_space c \<longleftrightarrow> of_char c \<in> {9, 10, 11, 12, 13, 32 :: nat}"

lemma Fields_decreases:
  assumes "dropWhile P s \<noteq> []"
  shows "length (dropWhile (\<lambda>c. \<not> P c) (dropWhile P s)) < length s"
proof -
  obtain c t where ct: "dropWhile P s = c # t" using assms by (cases "dropWhile P s") auto
  then have "\<not> P c" by (metis hd_dropWhile list.distinct(1) list.sel(1))
  then have "length (dropWhile (\<lambda>c. \<not> P c) (dropWhile P s)) \<le> length t"
    by (simp add: ct length_dropWhile_le)
  also have "length t < length s"
    using length_dropWhile_le [of P s] by (simp add: ct)
  finally show ?thesis .
qed

function Fields :: "string \<Rightarrow> string list" where
  "Fields s =
     (let r = dropWhile is_space s
      in if r = [] then []
         else takeWhile (\<lambda>c. \<not> is_space c) r # Fields (dropWhile (\<lambda>c. \<not> is_space c) r))"
  by pat_completeness auto

termination
  by (relation "measure length") (auto intro!: Fields_decreases)

declare Fields.simps [simp del]

lemma Fields_Nil [simp]: "Fields [] = []"
  by (simp add: Fields.simps)

lemma Fields_word:
  assumes "w \<noteq> []" and "\<forall>c \<in> set w. \<not> is_space c" and "\<forall>c \<in> set sp. is_space c"
    and "t = [] \<or> is_space (hd t)"
  shows "Fields (sp @ w @ t) = w # Fields t"
proof -
  have 1: "dropWhile is_space (sp @ w @ t) = w @ t"
    using assms(1-3) by (cases w) (auto simp: dropWhile_append)
  have 2: "takeWhile (\<lambda>c. \<not> is_space c) (w @ t) = w" "dropWhile (\<lambda>c. \<not> is_space c) (w @ t) = t"
    using assms(2,4) by (cases t; auto simp: takeWhile_append dropWhile_append)+
  show ?thesis
    using assms(1) by (subst Fields.simps) (simp add: 1 2)
qed

section \<open>Decimal numerals\<close>

definition digit_char :: "nat \<Rightarrow> char" where
  "digit_char d = char_of (48 + d)"

definition char_digit :: "char \<Rightarrow> nat option" where
  "char_digit c = (let n = of_char c in if 48 \<le> n \<and> n \<le> (57 :: nat) then Some (n - 48) else None)"

fun nat_digits :: "nat \<Rightarrow> string" where
  "nat_digits n = (if n < 10 then [digit_char n] else nat_digits (n div 10) @ [digit_char (n mod 10)])"

declare nat_digits.simps [simp del]

text \<open>\<open>strconv.Itoa\<close>, \<open>strconv.FormatInt(_, 10)\<close> and \<open>strconv.FormatUint(_, 10)\<close>.\<close>

definition Itoa :: "int \<Rightarrow> string" where
  "Itoa n = (if n < 0 then CHR ''-'' # nat_digits (nat (- n)) else nat_digits (nat n))"

fun digits_val :: "nat \<Rightarrow> string \<Rightarrow> nat option" where
  "digits_val acc [] = Some acc"
| "digits_val acc (c # s) =
     (case char_digit c of None \<Rightarrow> None | Some d \<Rightarrow> digits_val (10 * acc + d) s)"

text \<open>\<open>strconv.Atoi\<close>: an optional sign, at least one digit, a value of the range of \<open>int\<close>.\<close>

definition Atoi :: "string \<Rightarrow> int option" where
  "Atoi s =
     (let neg = (s \<noteq> [] \<and> hd s = CHR ''-'');
          ds = (if s \<noteq> [] \<and> hd s \<in> {CHR ''-'', CHR ''+''} then tl s else s)
      in if ds = [] then None
         else case digits_val 0 ds of
                None \<Rightarrow> None
              | Some n \<Rightarrow>
                  (let v = (if neg then - int n else int n)
                   in if - (2 ^ 63) \<le> v \<and> v < 2 ^ 63 then Some v else None))"

lemma char_digit_digit_char [simp]: "d < 10 \<Longrightarrow> char_digit (digit_char d) = Some d"
  by (simp add: char_digit_def digit_char_def)

lemma digits_val_append:
  "digits_val acc (s @ t) = (case digits_val acc s of None \<Rightarrow> None | Some n \<Rightarrow> digits_val n t)"
  by (induction s arbitrary: acc) (auto split: option.split)

lemma nat_digits_not_Nil [simp]: "nat_digits n \<noteq> []"
  by (subst nat_digits.simps) simp

lemma digits_val_nat_digits [simp]: "digits_val 0 (nat_digits n) = Some n"
proof (induction n rule: nat_digits.induct)
  case (1 n)
  then show ?case
    by (subst nat_digits.simps) (auto simp: digits_val_append)
qed

definition is_digit :: "char \<Rightarrow> bool" where
  "is_digit c \<longleftrightarrow> char_digit c \<noteq> None"

lemma nat_digits_are_digits: "c \<in> set (nat_digits n) \<Longrightarrow> is_digit c"
proof (induction n rule: nat_digits.induct)
  case (1 n)
  then show ?case
    by (subst (asm) nat_digits.simps) (auto simp: is_digit_def split: if_splits)
qed

lemma not_is_digit [simp]: "\<not> is_digit (CHR ''-'')" "\<not> is_digit (CHR ''+'')" "\<not> is_digit (CHR ''.'')"
  "\<not> is_digit (CHR ''/'')" "\<not> is_digit (CHR '','')" "\<not> is_digit (CHR '':'')" "\<not> is_digit (CHR 0x0A)"
  by (simp_all add: is_digit_def char_digit_def)

lemma hd_nat_digits [simp]: "hd (nat_digits n) \<noteq> CHR ''-''" "hd (nat_digits n) \<noteq> CHR ''+''"
  using nat_digits_are_digits [of "hd (nat_digits n)" n] by (auto simp: hd_in_set)

lemma Atoi_Itoa: "- (2 ^ 63) \<le> n \<Longrightarrow> n < 2 ^ 63 \<Longrightarrow> Atoi (Itoa n) = Some n"
  by (simp add: Atoi_def Itoa_def)

end
