(* ===== verification/GoFloat.thy ===== *)
theory GoFloat
  imports Prelude "HOL-Library.Log_Nat" Complex_Main
begin

text \<open>
  Go's \<open>float64\<close>: IEEE 754 binary64 with rounding to nearest, ties to even. A finite value is the
  rational number it denotes (the sign of zero is not kept: no operation the program uses tells the
  two zeros apart). Every operation rounds its exact result with \<open>fl64\<close>, so the values are those
  the compiled program computes, not real arithmetic. The lemmas bound the error of one rounding
  (relative error at most \<open>2 ^ -53\<close>).
\<close>

section \<open>Powers of two and binary logarithm\<close>

definition pow2 :: "int \<Rightarrow> rat" where
  "pow2 k = (if 0 \<le> k then 2 ^ nat k else 1 / 2 ^ nat (- k))"

definition ilog2 :: "rat \<Rightarrow> int" where
  "ilog2 x =
     (let (p, q) = quotient_of x; k = bitlen p - bitlen q
      in if x < pow2 k then k - 1 else k)"

lemma pow2_powi: "pow2 k = 2 powi k"
  by (simp add: pow2_def power_int_def inverse_eq_divide power_one_over)

lemma pow2_pos [simp]: "0 < pow2 k"
  by (simp add: pow2_def)

lemma pow2_neq_0 [simp]: "pow2 k \<noteq> 0"
  by (rule less_imp_neq [symmetric]) (rule pow2_pos)

lemma pow2_add: "pow2 (a + b) = pow2 a * pow2 b"
  by (simp add: pow2_powi power_int_add)

lemma pow2_diff: "pow2 (a - b) = pow2 a / pow2 b"
  by (simp add: pow2_powi power_int_diff)

lemma pow2_of_nat: "pow2 (int n) = 2 ^ n"
  by (simp add: pow2_def)

lemma pow2_mono: "a \<le> b \<Longrightarrow> pow2 a \<le> pow2 b"
  by (simp add: pow2_powi power_int_increasing)

lemma pow2_less_iff: "pow2 a < pow2 b \<longleftrightarrow> a < b"
  by (metis linorder_not_less pow2_mono pow2_powi power_int_strict_increasing one_less_numeral_iff
      semiring_norm(76))

lemma bitlen_pow2_bounds:
  assumes "0 < (p :: int)"
  shows "pow2 (bitlen p - 1) \<le> of_int p" and "of_int p < pow2 (bitlen p)"
proof -
  have bl: "1 \<le> bitlen p" using assms by (simp add: bitlen_def floorlog_def)
  have b: "2 ^ nat (bitlen p - 1) \<le> p" "p < 2 ^ nat (bitlen p)"
    using bitlen_bounds [OF assms] by auto
  have "pow2 (bitlen p - 1) = of_int (2 ^ nat (bitlen p - 1))" "pow2 (bitlen p) = of_int (2 ^ nat (bitlen p))"
    using bl by (auto simp: pow2_def)
  then show "pow2 (bitlen p - 1) \<le> of_int p" "of_int p < pow2 (bitlen p)"
    using b by (simp_all only: of_int_le_iff of_int_less_iff)
qed

lemma ilog2_bounds:
  assumes "0 < x"
  shows "pow2 (ilog2 x) \<le> x" and "x < pow2 (ilog2 x + 1)"
proof -
  obtain p q where pq: "quotient_of x = (p, q)" by (cases "quotient_of x") auto
  have q: "0 < q" and x: "x = of_int p / of_int q"
    using quotient_of_denom_pos [OF pq] quotient_of_div [OF pq] by auto
  have p: "0 < p" using assms q by (simp add: x zero_less_divide_iff)
  let ?k = "bitlen p - bitlen q"
  note P = bitlen_pow2_bounds [OF p] and Q = bitlen_pow2_bounds [OF q]
  have "pow2 (?k - 1) = pow2 (bitlen p - 1) / pow2 (bitlen q)"
    by (simp add: pow2_diff [symmetric] algebra_simps)
  also have "\<dots> \<le> of_int p / of_int q"
    using P Q q p by (intro frac_le) auto
  finally have lo: "pow2 (?k - 1) \<le> x" by (simp add: x)
  have "of_int p / of_int q < pow2 (bitlen p) / pow2 (bitlen q - 1)"
    using P Q q p by (intro frac_less) auto
  also have "\<dots> = pow2 (?k + 1)"
    by (simp add: pow2_diff [symmetric] algebra_simps)
  finally have hi: "x < pow2 (?k + 1)" by (simp add: x)
  show "pow2 (ilog2 x) \<le> x" "x < pow2 (ilog2 x + 1)"
    using lo hi by (auto simp: ilog2_def pq Let_def)
qed

section \<open>Rounding\<close>

text \<open>Round half to even.\<close>

definition rne :: "rat \<Rightarrow> int" where
  "rne x =
     (let f = \<lfloor>x\<rfloor>; d = x - of_int f
      in if d < 1 / 2 then f else if 1 / 2 < d then f + 1 else if even f then f else f + 1)"

lemma rne_error: "\<bar>of_int (rne x) - x\<bar> \<le> 1 / 2"
proof -
  have "of_int \<lfloor>x\<rfloor> \<le> x" "x < of_int \<lfloor>x\<rfloor> + 1" by linarith+
  then show ?thesis by (auto simp: rne_def Let_def)
qed

lemma rne_of_int [simp]: "rne (of_int n) = n"
  by (simp add: rne_def)

lemma rne_nonneg: "0 \<le> x \<Longrightarrow> 0 \<le> rne x"
  by (auto simp: rne_def Let_def)

definition fl64_pos :: "rat \<Rightarrow> rat" where
  "fl64_pos x = (let e = max (ilog2 x - 52) (- 1074) in of_int (rne (x / pow2 e)) * pow2 e)"

definition fl64 :: "rat \<Rightarrow> rat" where
  "fl64 x = (if x = 0 then 0 else if 0 < x then fl64_pos x else - fl64_pos (- x))"

lemma fl64_0 [simp]: "fl64 0 = 0"
  by (simp add: fl64_def)

lemma fl64_nonneg: "0 \<le> x \<Longrightarrow> 0 \<le> fl64 x"
  by (auto simp: fl64_def fl64_pos_def Let_def intro!: mult_nonneg_nonneg rne_nonneg
      divide_nonneg_pos less_imp_le [OF pow2_pos])

lemma fl64_error:
  assumes "pow2 (- 1022) \<le> x"
  shows "\<bar>fl64 x - x\<bar> \<le> x * pow2 (- 53)"
proof -
  have pos: "0 < x" using assms pow2_pos [of "- 1022"] by linarith
  note b = ilog2_bounds [OF pos]
  have "pow2 (- 1022) < pow2 (ilog2 x + 1)" using assms b by linarith
  then have e: "max (ilog2 x - 52) (- 1074) = ilog2 x - 52" by (simp add: pow2_less_iff)
  let ?u = "pow2 (ilog2 x - 52)"
  have "\<bar>of_int (rne (x / ?u)) * ?u - x\<bar> = \<bar>of_int (rne (x / ?u)) - x / ?u\<bar> * ?u"
  proof -
    have "x = x / ?u * ?u" by simp
    then have "of_int (rne (x / ?u)) * ?u - x = (of_int (rne (x / ?u)) - x / ?u) * ?u"
      by (simp add: left_diff_distrib)
    then show ?thesis by (simp add: abs_mult abs_of_pos)
  qed
  also have "\<dots> \<le> 1 / 2 * ?u"
    by (intro mult_right_mono rne_error less_imp_le [OF pow2_pos])
  also have "\<dots> = pow2 (ilog2 x) * pow2 (- 53)"
    unfolding pow2_add [symmetric] by (simp add: pow2_diff) (simp add: pow2_def)
  also have "\<dots> \<le> x * pow2 (- 53)"
    using b(1) by (intro mult_right_mono less_imp_le [OF pow2_pos])
  finally show ?thesis using pos by (simp add: fl64_def fl64_pos_def e Let_def)
qed

lemma fl64_of_nat:
  assumes "n < 2 ^ 53"
  shows "fl64 (of_nat n) = of_nat n"
proof (cases "n = 0")
  case False
  let ?x = "of_nat n :: rat"
  have pos: "0 < ?x" using False by simp
  have "?x < of_nat (2 ^ 53)" using assms by (simp only: of_nat_less_iff)
  then have "?x < pow2 53" by (simp add: pow2_def)
  moreover have "pow2 (ilog2 ?x) \<le> ?x" "?x < pow2 (ilog2 ?x + 1)" using ilog2_bounds [OF pos] .
  moreover have "pow2 0 \<le> ?x" using False by (simp add: pow2_def)
  ultimately have "pow2 (ilog2 ?x) < pow2 53" "pow2 0 < pow2 (ilog2 ?x + 1)" by linarith+
  then have il: "0 \<le> ilog2 ?x" "ilog2 ?x \<le> 52" by (simp_all add: pow2_less_iff)
  define m where "m = nat (52 - ilog2 ?x)"
  have u: "pow2 (ilog2 ?x - 52) = 1 / 2 ^ m" using il by (auto simp: pow2_def m_def)
  have "?x / pow2 (ilog2 ?x - 52) = of_int (int n * 2 ^ m)" by (simp add: u)
  then have "rne (?x / pow2 (ilog2 ?x - 52)) = int n * 2 ^ m" by (simp only: rne_of_int)
  then show ?thesis using pos il by (simp add: fl64_def fl64_pos_def Let_def u max_def)
qed simp

section \<open>Values and operations\<close>

datatype float64 = Fin rat | PosInf | NegInf | NaN

definition round64 :: "rat \<Rightarrow> float64" where
  "round64 x =
     (let r = fl64 x
      in if 0 < r \<and> 1024 \<le> ilog2 r then PosInf
         else if r < 0 \<and> 1024 \<le> ilog2 (- r) then NegInf else Fin r)"

definition float_of_int :: "int \<Rightarrow> float64" where
  "float_of_int n = round64 (of_int n)"

text \<open>
  Division as IEEE 754 has it, for the finite operands the program divides: by zero it gives an
  infinity or NaN, it does not panic.
\<close>

fun fdiv :: "float64 \<Rightarrow> float64 \<Rightarrow> float64" where
  "fdiv (Fin a) (Fin b) =
     (if b \<noteq> 0 then round64 (a / b) else if a = 0 then NaN else if 0 < a then PosInf else NegInf)"
| "fdiv _ _ = NaN"

fun fmul :: "float64 \<Rightarrow> float64 \<Rightarrow> float64" where
  "fmul (Fin a) (Fin b) = round64 (a * b)"
| "fmul _ _ = NaN"

fun fadd :: "float64 \<Rightarrow> float64 \<Rightarrow> float64" where
  "fadd (Fin a) (Fin b) = round64 (a + b)"
| "fadd _ _ = NaN"

fun fless :: "float64 \<Rightarrow> float64 \<Rightarrow> bool" where
  "fless (Fin a) (Fin b) = (a < b)"
| "fless _ _ = False"

text \<open>\<open>math.Ceil\<close>, \<open>math.Floor\<close>: the integral values are representable, no rounding.\<close>

fun fceil :: "float64 \<Rightarrow> float64" where
  "fceil (Fin x) = Fin (of_int \<lceil>x\<rceil>)"
| "fceil f = f"

fun ffloor :: "float64 \<Rightarrow> float64" where
  "ffloor (Fin x) = Fin (of_int \<lfloor>x\<rfloor>)"
| "ffloor f = f"

text \<open>
  Conversions to integers truncate towards zero. Out of range the Go specification leaves the value
  to the implementation: \<open>impl\<close> is the value it gives.
\<close>

definition trunc_rat :: "rat \<Rightarrow> int" where
  "trunc_rat x = (if 0 \<le> x then \<lfloor>x\<rfloor> else \<lceil>x\<rceil>)"

fun int_of_float :: "int \<Rightarrow> float64 \<Rightarrow> int" where
  "int_of_float impl (Fin x) =
     (let n = trunc_rat x in if - (2 ^ 63) \<le> n \<and> n < 2 ^ 63 then n else impl)"
| "int_of_float impl _ = impl"

fun u64_of_float :: "u64 \<Rightarrow> float64 \<Rightarrow> u64" where
  "u64_of_float impl (Fin x) =
     (let n = trunc_rat x in if 0 \<le> n \<and> n < 2 ^ 64 then word_of_int n else impl)"
| "u64_of_float impl _ = impl"

text \<open>\<open>time.Duration.Seconds()\<close>: whole seconds plus the rest divided by 1e9.\<close>

definition Seconds :: "int \<Rightarrow> float64" where
  "Seconds ns =
     fadd (float_of_int (ns sdiv 1000000000))
       (fdiv (float_of_int (ns smod 1000000000)) (float_of_int 1000000000))"

text \<open>The verb \<open>%.2f\<close> of \<open>fmt\<close>: the exact value, rounded half to even at the second decimal.\<close>

definition two_digits :: "nat \<Rightarrow> string" where
  "two_digits n = [digit_char (n div 10), digit_char (n mod 10)]"

fun fmt_2f :: "float64 \<Rightarrow> string" where
  "fmt_2f (Fin x) =
     (let h = nat (rne (\<bar>x\<bar> * 100))
      in (if x < 0 then ''-'' else []) @ nat_digits (h div 100) @ ''.'' @ two_digits (h mod 100))"
| "fmt_2f PosInf = ''+Inf''"
| "fmt_2f NegInf = ''-Inf''"
| "fmt_2f NaN = ''NaN''"

text \<open>No overflow: a non-negative result below \<open>2 ^ 1024\<close> is a finite value.\<close>

lemma round64_finite:
  assumes "0 \<le> fl64 x" and "fl64 x < pow2 66"
  shows "round64 x = Fin (fl64 x)"
proof (cases "0 < fl64 x")
  case True
  have "pow2 (ilog2 (fl64 x)) < pow2 66" using ilog2_bounds [OF True] assms by linarith
  then have "ilog2 (fl64 x) < 66" by (simp add: pow2_less_iff)
  then show ?thesis using assms by (simp add: round64_def)
qed (use assms in \<open>simp add: round64_def\<close>)

lemma round64_nat:
  assumes "n < 2 ^ 53"
  shows "round64 (of_nat n) = Fin (of_nat n)"
proof -
  have "(of_nat n :: rat) < of_nat (2 ^ 53)" using assms by (simp only: of_nat_less_iff)
  also have "\<dots> < pow2 66" by (simp add: pow2_def)
  finally show ?thesis
    using round64_finite [of "of_nat n"] by (simp add: fl64_of_nat [OF assms])
qed

lemma float_of_int_nat: "n < 2 ^ 53 \<Longrightarrow> float_of_int (int n) = Fin (of_nat n)"
  using round64_nat [of n] by (simp add: float_of_int_def)

lemma round64_error:
  assumes "pow2 (- 1022) \<le> x" and "x \<le> pow2 64"
  obtains y where "round64 x = Fin y" and "\<bar>y - x\<bar> \<le> x * pow2 (- 53)"
proof -
  have pos: "0 < x" using assms(1) pow2_pos [of "- 1022"] by linarith
  have err: "\<bar>fl64 x - x\<bar> \<le> x * pow2 (- 53)" using fl64_error [OF assms(1)] .
  have "x * pow2 (- 53) \<le> x * (1 / 2)"
    using pos by (intro mult_left_mono) (simp_all add: pow2_def)
  then have "fl64 x \<le> 2 * x" "fl64 x < 2 * x" using err pos by linarith+
  moreover have "2 * x \<le> pow2 66" using assms(2) pos by (simp add: pow2_def)
  ultimately have "fl64 x < pow2 66" by linarith
  moreover have "0 \<le> fl64 x" using pos by (intro fl64_nonneg) simp
  ultimately show ?thesis using err that round64_finite by blast
qed

section \<open>Durations\<close>

lemma sdiv_smod_nonneg:
  assumes "0 \<le> (ns :: int)"
  shows "ns sdiv 1000000000 = ns div 1000000000" "ns smod 1000000000 = ns mod 1000000000"
  using assms by (auto simp: signed_divide_int_def signed_modulo_int_def sgn_if minus_div_mult_eq_mod)

text \<open>The float that \<open>Seconds\<close> gives is exact on whole seconds and within two roundings otherwise.\<close>

lemma Seconds_value:
  assumes "0 \<le> ns" and "ns < 2 ^ 63"
  defines "x \<equiv> of_int ns / 1000000000 :: rat"
  obtains z where "Seconds ns = Fin z" and "\<bar>z - x\<bar> \<le> (2 * x + 2) * pow2 (- 53)"
    and "ns mod 1000000000 = 0 \<Longrightarrow> z = x"
proof -
  let ?s = "ns div 1000000000" and ?f = "ns mod 1000000000"
  let ?u = "pow2 (- 53)"
  have u: "?u = 1 / 9007199254740992" by (simp add: pow2_def)
  have s: "0 \<le> ?s" "?s < 2 ^ 34" and f: "0 \<le> ?f" "?f < 1000000000" using assms(1,2) by auto
  have ns: "ns = ?s * 1000000000 + ?f" by simp
  have x: "x = of_int ?s + of_int ?f / 1000000000"
    unfolding x_def by (subst ns) (simp only: of_int_add of_int_mult, simp add: add_divide_distrib)
  have fi: "float_of_int n = Fin (of_int n)" if "0 \<le> n" "n < 2 ^ 53" for n
  proof -
    have "nat n < 2 ^ 53" using that by (simp add: nat_less_iff)
    from float_of_int_nat [OF this] show ?thesis using that by simp
  qed
  have fs: "float_of_int ?s = Fin (of_int ?s)" "float_of_int ?f = Fin (of_int ?f)"
    "float_of_int 1000000000 = Fin 1000000000"
    using s f by (auto intro!: fi) (use fi [of 1000000000] in simp)
  have S: "Seconds ns = fadd (Fin (of_int ?s)) (round64 (of_int ?f / 1000000000))"
    by (simp add: Seconds_def sdiv_smod_nonneg [OF assms(1)] fs)
  show ?thesis
  proof (cases "?f = 0")
    case True
    have "round64 0 = Fin 0" by (simp add: round64_def)
    moreover have "round64 (of_int ?s) = Fin (of_int ?s)" using fs(1) by (simp only: float_of_int_def)
    ultimately have "Seconds ns = Fin x" using True by (simp add: S x)
    moreover have "0 \<le> x" using assms(1) by (simp add: x_def)
    ultimately show ?thesis by (intro that [of x]) (auto simp: u)
  next
    case False
    let ?q = "of_int ?f / 1000000000 :: rat"
    have f1: "1 \<le> ?f" using False f by linarith
    then have "(1 :: rat) \<le> of_int ?f" by (simp only: of_int_1_le_iff)
    then have q1: "1 / 1000000000 \<le> ?q" by (simp add: divide_right_mono)
    have "(of_int ?f :: rat) \<le> of_int 1000000000" using f by (simp only: of_int_le_iff)
    then have q2: "?q \<le> 1" by simp
    have p: "pow2 (- 1022) \<le> 1 / 2000000000" by (simp add: pow2_def)
    have p64: "pow2 64 = 18446744073709551616" by (simp add: pow2_def)
    obtain y where y: "round64 ?q = Fin y" "\<bar>y - ?q\<bar> \<le> ?q * ?u"
      using round64_error [of ?q] p q1 q2 by (auto simp: p64)
    have yq: "\<bar>y - ?q\<bar> \<le> ?u" using y(2) q2 by (simp add: u)
    have y1: "1 / 2000000000 \<le> y" and y2: "y \<le> 2" using yq q1 q2 unfolding u by linarith+
    have "(of_int ?s :: rat) \<le> of_int (2 ^ 34)" "(0 :: rat) \<le> of_int ?s"
      using s by (simp_all only: of_int_le_iff of_int_0_le_iff)
    then have sq: "(of_int ?s :: rat) \<le> 17179869184" "(0 :: rat) \<le> of_int ?s" by simp_all
    obtain z where z: "round64 (of_int ?s + y) = Fin z" "\<bar>z - (of_int ?s + y)\<bar> \<le> (of_int ?s + y) * ?u"
      using round64_error [of "of_int ?s + y"] p y1 y2 sq by (auto simp: p64)
    have "\<bar>z - x\<bar> \<le> \<bar>z - (of_int ?s + y)\<bar> + \<bar>y - ?q\<bar>" unfolding x by linarith
    also have "\<dots> \<le> (of_int ?s + y) * ?u + ?u" using z(2) yq by linarith
    also have "\<dots> \<le> (2 * x + 2) * ?u"
      using yq sq q1 q2 unfolding x u by (simp only: algebra_simps)
    finally show ?thesis using z(1) y(1) False by (intro that [of z]) (simp_all add: S)
  qed
qed

lemma above_aux:
  "D + 1 / 1000000000 \<le> x \<Longrightarrow> \<bar>z - x\<bar> \<le> 2 * x / 9007199254740992 + 2 / 9007199254740992 \<Longrightarrow> D \<le> 1000000
   \<Longrightarrow> D < (z :: rat)"
  by linarith

lemma below_aux:
  "x \<le> D - 1 / 1000000000 \<Longrightarrow> \<bar>z - x\<bar> \<le> 2 * x / 9007199254740992 + 2 / 9007199254740992 \<Longrightarrow> D \<le> 1000000
   \<Longrightarrow> z \<le> (D :: rat)"
  by linarith

text \<open>
  A duration of whole seconds, at most a million of them, is compared with an elapsed time exactly:
  the roundings never decide.
\<close>

lemma Seconds_exceeds:
  assumes "0 \<le> ns" and "ns < 2 ^ 63" and "0 \<le> d" and "d \<le> 1000000"
  shows "fless (float_of_int d) (Seconds ns) \<longleftrightarrow> d * 1000000000 < ns"
proof -
  let ?x = "of_int ns / 1000000000 :: rat"
  obtain z where z: "Seconds ns = Fin z" "\<bar>z - ?x\<bar> \<le> (2 * ?x + 2) * pow2 (- 53)"
    "ns mod 1000000000 = 0 \<Longrightarrow> z = ?x"
    using Seconds_value [OF assms(1,2)] by blast
  have u: "pow2 (- 53) = 1 / 9007199254740992" by (simp add: pow2_def)
  have "nat d < 2 ^ 53" using assms(4) by (simp add: nat_less_iff)
  from float_of_int_nat [OF this] have fd: "float_of_int d = Fin (of_int d)" using assms(3) by simp
  have dr: "(of_int d :: rat) \<le> 1000000" using assms(4) by (simp only: of_int_le_numeral_iff)
  have zz: "\<bar>z - ?x\<bar> \<le> 2 * ?x / 9007199254740992 + 2 / 9007199254740992"
    using z(2) by (simp only: u distrib_right times_divide_eq_right mult_1_right add_divide_distrib)
  have "of_int d < z \<longleftrightarrow> d * 1000000000 < ns"
  proof (cases "ns mod 1000000000 = 0")
    case True
    have "of_int d < ?x \<longleftrightarrow> of_int (d * 1000000000) < (of_int ns :: rat)" by (simp add: field_simps)
    then show ?thesis using z(3) True by (simp only: of_int_less_iff)
  next
    case False
    then have ne: "ns \<noteq> d * 1000000000" by auto
    show ?thesis
    proof (cases "d * 1000000000 < ns")
      case True
      then have "d * 1000000000 + 1 \<le> ns" by linarith
      then have "of_int (d * 1000000000 + 1) \<le> (of_int ns :: rat)" by (simp only: of_int_le_iff)
      then have "of_int d + 1 / 1000000000 \<le> ?x" by simp
      then have "of_int d < z" by (rule above_aux [OF _ zz dr])
      then show ?thesis using True by simp
    next
      case False
      then have "ns \<le> d * 1000000000 - 1" using ne by linarith
      then have "(of_int ns :: rat) \<le> of_int (d * 1000000000 - 1)" by (simp only: of_int_le_iff)
      then have "?x \<le> of_int d - 1 / 1000000000" by simp
      then have "z \<le> of_int d" by (rule below_aux [OF _ zz dr])
      then show ?thesis using False by simp
    qed
  qed
  then show ?thesis by (simp add: z(1) fd)
qed

end
