(* ===== verification/SharedTypes.thy ===== *)
theory SharedTypes
  imports GoFloat
begin

text \<open>
  The data of \<open>shared/shared.go\<close>: the messages of the websocket protocol, data points, errors and
  the configuration of a test. Field names carry the prefix of their struct. Go's \<open>int\<close> fields that
  hold configuration values, counts and percentages are \<open>int\<close>; the timings are \<open>int64\<close> and the
  byte and request counters \<open>uint64\<close>, kept at their width. A signal or test type that arrives on
  the wire can be any integer, which the last constructor of each enumeration stands for.
\<close>

section \<open>Enumerations\<close>

datatype SignalType =
    Err | RunTest | ListenTest | ListTests | GetTest | DeleteTests
  | Ping | Pong | Exit | StopAllTests | Stats | Done | OtherSignal int

datatype TestType = Unknown | RequestTest | StreamTest | OtherTest int

fun signal_num :: "SignalType \<Rightarrow> int" where
  "signal_num Err = 0"
| "signal_num RunTest = 1"
| "signal_num ListenTest = 2"
| "signal_num ListTests = 3"
| "signal_num GetTest = 4"
| "signal_num DeleteTests = 5"
| "signal_num Ping = 6"
| "signal_num Pong = 7"
| "signal_num Exit = 8"
| "signal_num StopAllTests = 9"
| "signal_num Stats = 10"
| "signal_num Done = 11"
| "signal_num (OtherSignal n) = n"

definition signal_of_num :: "int \<Rightarrow> SignalType" where
  "signal_of_num n =
     (if n = 0 then Err else if n = 1 then RunTest else if n = 2 then ListenTest
      else if n = 3 then ListTests else if n = 4 then GetTest else if n = 5 then DeleteTests
      else if n = 6 then Ping else if n = 7 then Pong else if n = 8 then Exit
      else if n = 9 then StopAllTests else if n = 10 then Stats else if n = 11 then Done
      else OtherSignal n)"

lemma signal_num_signal_of_num [simp]: "signal_num (signal_of_num n) = n"
  by (simp add: signal_of_num_def)

fun test_num :: "TestType \<Rightarrow> int" where
  "test_num Unknown = 0"
| "test_num RequestTest = 1"
| "test_num StreamTest = 2"
| "test_num (OtherTest n) = n"

definition test_of_num :: "int \<Rightarrow> TestType" where
  "test_of_num n =
     (if n = 0 then Unknown else if n = 1 then RequestTest else if n = 2 then StreamTest
      else OtherTest n)"

lemma test_num_test_of_num [simp]: "test_num (test_of_num n) = n"
  by (simp add: test_of_num_def)

text \<open>\<open>SignalCode\<close>: the code also assigns the HTTP status 200 to it, so it is kept an integer.\<close>

type_synonym SignalCode = int

definition OK :: SignalCode where "OK = 0"
definition Fail :: SignalCode where "Fail = 1"
definition Retry :: SignalCode where "Retry = 2"

datatype FilePrefix = DataPoint | ErrorPoint

fun prefix_num :: "FilePrefix \<Rightarrow> int" where
  "prefix_num DataPoint = 0"
| "prefix_num ErrorPoint = 1"

text \<open>\<open>func (f FilePrefix) String() []byte\<close>\<close>

definition FilePrefix_String :: "FilePrefix \<Rightarrow> bytes" where
  "FilePrefix_String f = Itoa (prefix_num f)"

lemma FilePrefix_String_simps [simp]:
  "FilePrefix_String DataPoint = ''0''" "FilePrefix_String ErrorPoint = ''1''"
  by code_simp+

section \<open>Structs\<close>

definition zero_time :: time where
  "zero_time = - 62135596800000000000"

record TError =
  te_Error :: string
  te_Created :: time

record DP =
  dp_Type :: TestType
  dp_TestID :: string
  dp_Created :: time
  dp_Local :: string
  dp_Remote :: string
  dp_RMSH :: i64
  dp_RMSL :: i64
  dp_TTFBH :: i64
  dp_TTFBL :: i64
  dp_TX :: u64
  dp_TXTotal :: u64
  dp_TXCount :: u64
  dp_ErrCount :: int
  dp_DroppedPackets :: int
  dp_MemoryUsedPercent :: int
  dp_CPUUsedPercent :: int
  dp_Received :: time

record DataReponseToClient =
  dr_DPS :: "DP list"
  dr_Errors :: "TError list"

record TestInfo =
  ti_ID :: string
  ti_Time :: time

record TestOutput =
  to_ErrCount :: int
  to_TXC :: u64
  to_TXL :: u64
  to_TXH :: u64
  to_TXT :: u64
  to_RMSL :: i64
  to_RMSH :: i64
  to_TTFBL :: i64
  to_TTFBH :: i64
  to_DP :: int
  to_ML :: int
  to_MH :: int
  to_CL :: int
  to_CH :: int

record Config =
  c_Debug :: bool
  c_Port :: string
  c_Concurrency :: int
  c_PayloadSize :: int
  c_BufferSize :: int
  c_Duration :: int
  c_RequestDelay :: int
  c_Hosts :: "string list"
  c_RestartOnError :: bool
  c_DialTimeout :: int
  c_TestID :: string
  c_Save :: bool
  c_Insecure :: bool
  c_TestType :: TestType
  c_File :: string
  c_ResolveHosts :: string
  c_PrintStats :: bool
  c_PrintAll :: bool
  c_PrintErrors :: bool
  c_Sort :: string
  c_Micro :: bool
  c_HostFilter :: string

record WebsocketSignal =
  ws_SType :: SignalType
  ws_Code :: SignalCode
  ws_Error :: string
  ws_Data :: bytes
  ws_Config :: Config
  ws_DataPoint :: "DataReponseToClient option"
  ws_TestList :: "TestInfo list"

text \<open>The zero values that \<open>new(...)\<close> returns.\<close>

definition zero_config :: Config where
  "zero_config =
     \<lparr>c_Debug = False, c_Port = [], c_Concurrency = 0, c_PayloadSize = 0, c_BufferSize = 0,
      c_Duration = 0, c_RequestDelay = 0, c_Hosts = [], c_RestartOnError = False,
      c_DialTimeout = 0, c_TestID = [], c_Save = False, c_Insecure = False,
      c_TestType = Unknown, c_File = [], c_ResolveHosts = [], c_PrintStats = False,
      c_PrintAll = False, c_PrintErrors = False, c_Sort = [], c_Micro = False,
      c_HostFilter = []\<rparr>"

definition zero_signal :: WebsocketSignal where
  "zero_signal =
     \<lparr>ws_SType = Err, ws_Code = 0, ws_Error = [], ws_Data = [], ws_Config = zero_config,
      ws_DataPoint = None, ws_TestList = []\<rparr>"

definition zero_dp :: DP where
  "zero_dp =
     \<lparr>dp_Type = Unknown, dp_TestID = [], dp_Created = zero_time, dp_Local = [], dp_Remote = [],
      dp_RMSH = 0, dp_RMSL = 0, dp_TTFBH = 0, dp_TTFBL = 0, dp_TX = 0, dp_TXTotal = 0,
      dp_TXCount = 0, dp_ErrCount = 0, dp_DroppedPackets = 0, dp_MemoryUsedPercent = 0,
      dp_CPUUsedPercent = 0, dp_Received = zero_time\<rparr>"

definition zero_output :: TestOutput where
  "zero_output =
     \<lparr>to_ErrCount = 0, to_TXC = 0, to_TXL = 0, to_TXH = 0, to_TXT = 0, to_RMSL = 0, to_RMSH = 0,
      to_TTFBL = 0, to_TTFBH = 0, to_DP = 0, to_ML = 0, to_MH = 0, to_CL = 0, to_CH = 0\<rparr>"

end
