(* ===== verification/FileStore.thy ===== *)
theory FileStore
  imports SharedTypes "HOL-Library.List_Lexorder" "HOL-Library.Char_ord"
begin

text \<open>
  The part of Go's \<open>os\<close>, \<open>path/filepath\<close> and \<open>bufio\<close> packages that the server and the client use
  on files. A path is its list of components from the root. Names refer to inodes, as on Linux: an
  open file keeps its inode when its name is removed, and creating a name that exists truncates the
  inode it has. Storage paths are absolute, symbolic links are not modelled.
\<close>

section \<open>Paths\<close>

type_synonym path = "string list"

definition clean_step :: "string \<Rightarrow> path \<Rightarrow> path" where
  "clean_step c acc =
     (if c = [] \<or> c = ''.'' then acc else if c = ''..'' then butlast acc else acc @ [c])"

definition Clean :: "string \<Rightarrow> path" where
  "Clean p = fold clean_step (Split (CHR ''/'') p) []"

text \<open>\<open>filepath.Join(dir, name)\<close>, cleaned.\<close>

definition JoinPath :: "string \<Rightarrow> string \<Rightarrow> path" where
  "JoinPath dir name = Clean (dir @ ''/'' @ name)"

definition path_string :: "path \<Rightarrow> string" where
  "path_string p = concat (map (\<lambda>c. ''/'' @ c) p)"

text \<open>The kernel's walk: every component but the last must be a directory.\<close>

fun walk :: "path list \<Rightarrow> path \<Rightarrow> string list \<Rightarrow> path option" where
  "walk ds cur [] = Some cur"
| "walk ds cur (c # cs) =
     (if c = [] \<or> c = ''.'' then walk ds cur cs
      else if c = ''..'' then walk ds (butlast cur) cs
      else if cs = [] then Some (cur @ [c])
      else if cur @ [c] \<in> set ds then walk ds (cur @ [c]) cs
      else None)"

section \<open>Files\<close>

datatype handle = Open nat | Closed

record fsys =
  fs_dirs :: "path list"
  fs_names :: "(path \<times> nat) list"
  fs_data :: "nat \<Rightarrow> bytes"
  fs_mtime :: "nat \<Rightarrow> time"
  fs_next :: nat

definition paths :: "fsys \<Rightarrow> path list" where
  "paths fs = map fst (fs_names fs)"

definition content :: "fsys \<Rightarrow> path \<Rightarrow> bytes option" where
  "content fs p = map_option (fs_data fs) (map_of (fs_names fs) p)"

definition MkdirAll :: "string \<Rightarrow> fsys \<Rightarrow> fsys \<times> string option" where
  "MkdirAll p fs =
     (let q = Clean p; pre = prefixes q in
      if \<exists>d \<in> set pre. d \<in> set (paths fs) then (fs, Some ''mkdir: not a directory'')
      else (fs\<lparr>fs_dirs := fs_dirs fs @ filter (\<lambda>d. d \<notin> set (fs_dirs fs)) pre\<rparr>, None))"

definition Create :: "time \<Rightarrow> string \<Rightarrow> fsys \<Rightarrow> fsys \<times> (string + handle)" where
  "Create now p fs =
     (case walk (fs_dirs fs) [] (Split (CHR ''/'') p) of
        None \<Rightarrow> (fs, Inl ''open: no such file or directory'')
      | Some q \<Rightarrow>
          if q \<in> set (fs_dirs fs) then (fs, Inl ''open: is a directory'')
          else case map_of (fs_names fs) q of
                 Some i \<Rightarrow>
                   (fs\<lparr>fs_data := (fs_data fs)(i := []), fs_mtime := (fs_mtime fs)(i := now)\<rparr>,
                    Inr (Open i))
               | None \<Rightarrow>
                   (let i = fs_next fs in
                    (fs\<lparr>fs_names := fs_names fs @ [(q, i)], fs_data := (fs_data fs)(i := []),
                        fs_mtime := (fs_mtime fs)(i := now), fs_next := Suc i\<rparr>,
                     Inr (Open i))))"

text \<open>\<open>File.Write\<close>: on a nil or closed file it only returns an error.\<close>

fun Write :: "time \<Rightarrow> handle option \<Rightarrow> bytes \<Rightarrow> fsys \<Rightarrow> fsys" where
  "Write now (Some (Open i)) b fs =
     fs\<lparr>fs_data := (fs_data fs)(i := fs_data fs i @ b), fs_mtime := (fs_mtime fs)(i := now)\<rparr>"
| "Write now _ b fs = fs"

definition Remove :: "path \<Rightarrow> fsys \<Rightarrow> fsys" where
  "Remove p fs = fs\<lparr>fs_names := filter (\<lambda>e. fst e \<noteq> p) (fs_names fs)\<rparr>"

definition RemoveAll :: "path \<Rightarrow> fsys \<Rightarrow> fsys" where
  "RemoveAll p fs =
     fs\<lparr>fs_names := filter (\<lambda>e. take (length p) (fst e) \<noteq> p) (fs_names fs),
        fs_dirs := filter (\<lambda>d. take (length p) d \<noteq> p) (fs_dirs fs)\<rparr>"

text \<open>
  The store's invariant: names are unique, refer to distinct allocated inodes, and no component of a
  path holds a separator.
\<close>

definition fs_ok :: "fsys \<Rightarrow> bool" where
  "fs_ok fs \<longleftrightarrow> distinct (paths fs) \<and> (\<forall>(p, i) \<in> set (fs_names fs). i < fs_next fs)
     \<and> distinct (map snd (fs_names fs)) \<and> (\<forall>p \<in> set (paths fs). \<forall>c \<in> set p. CHR ''/'' \<notin> set c)"

section \<open>Patterns\<close>

text \<open>
  The syntax of \<open>filepath.Match\<close>: a star, a question mark, a character class and an escape. \<open>None\<close>
  is \<open>ErrBadPattern\<close>.
\<close>

datatype pat = PLit char | PAny | PStar | PSet bool "(char \<times> char) list"

fun get_esc :: "string \<Rightarrow> (char \<times> string) option" where
  "get_esc [] = None"
| "get_esc (c # s) =
     (if c = CHR ''-'' \<or> c = CHR '']'' then None
      else if c = CHR 0x5C then (case s of [] \<Rightarrow> None | [d] \<Rightarrow> None | d # t \<Rightarrow> Some (d, t))
      else if s = [] then None else Some (c, s))"

lemma get_esc_length: "get_esc s = Some (c, t) \<Longrightarrow> length t < length s"
  by (induction s rule: get_esc.induct) (auto split: if_splits list.splits)

function parse_class :: "string \<Rightarrow> (char \<times> char) list \<Rightarrow> ((char \<times> char) list \<times> string) option" where
  "parse_class s rs =
     (if s \<noteq> [] \<and> hd s = CHR '']'' \<and> rs \<noteq> [] then Some (rs, tl s)
      else case get_esc s of
             None \<Rightarrow> None
           | Some (lo, t) \<Rightarrow>
               if hd t = CHR ''-''
               then (case get_esc (tl t) of
                       None \<Rightarrow> None
                     | Some (hi, u) \<Rightarrow> parse_class u (rs @ [(lo, hi)]))
               else parse_class t (rs @ [(lo, lo)]))"
  by pat_completeness auto
termination
  by (relation "measure (\<lambda>(s, rs). length s)") (auto dest!: get_esc_length)

declare parse_class.simps [simp del]

lemma parse_class_length: "parse_class s rs = Some (r, t) \<Longrightarrow> length t < length s"
proof (induction s rs rule: parse_class.induct)
  case (1 s rs)
  show ?case
    using 1 by (subst (asm) parse_class.simps)
      (auto dest!: get_esc_length split: if_splits option.splits, fastforce+)
qed

function parse_pat :: "string \<Rightarrow> pat list option" where
  "parse_pat [] = Some []"
| "parse_pat (c # s) =
     (if c = CHR ''*'' then map_option ((#) PStar) (parse_pat s)
      else if c = CHR ''?'' then map_option ((#) PAny) (parse_pat s)
      else if c = CHR 0x5C
      then (case s of [] \<Rightarrow> None | d # t \<Rightarrow> map_option ((#) (PLit d)) (parse_pat t))
      else if c = CHR ''[''
      then (let neg = (s \<noteq> [] \<and> hd s = CHR ''^'')
            in case parse_class (if neg then tl s else s) [] of
                 None \<Rightarrow> None
               | Some (rs, t) \<Rightarrow> map_option ((#) (PSet neg rs)) (parse_pat t))
      else map_option ((#) (PLit c)) (parse_pat s))"
  by pat_completeness auto
termination
  by (relation "measure length")
    (auto dest!: parse_class_length split: if_splits simp: less_Suc_eq_le)

fun pmatch :: "pat list \<Rightarrow> string \<Rightarrow> bool" where
  "pmatch [] s = (s = [])"
| "pmatch (PStar # ps) s = (pmatch ps s \<or> (case s of [] \<Rightarrow> False | _ # t \<Rightarrow> pmatch (PStar # ps) t))"
| "pmatch (p # ps) [] = False"
| "pmatch (PLit c # ps) (d # s) = (c = d \<and> pmatch ps s)"
| "pmatch (PAny # ps) (d # s) = pmatch ps s"
| "pmatch (PSet neg rs # ps) (d # s) =
     ((\<exists>(lo, hi) \<in> set rs. lo \<le> d \<and> d \<le> hi) \<noteq> neg \<and> pmatch ps s)"

definition match_component :: "string \<Rightarrow> string \<Rightarrow> bool" where
  "match_component p s = (case parse_pat p of None \<Rightarrow> False | Some ps \<Rightarrow> pmatch ps s)"

text \<open>
  \<open>filepath.Glob\<close> of a cleaned pattern: the names of the store that match component by component, in
  lexical order. \<open>None\<close> is \<open>ErrBadPattern\<close>.
\<close>

definition Glob :: "path \<Rightarrow> fsys \<Rightarrow> path list option" where
  "Glob pattern fs =
     (if list_ex (\<lambda>p. parse_pat p = None) pattern then None
      else Some (sort (filter (\<lambda>q. list_all2 match_component pattern q) (paths fs))))"

section \<open>Lines\<close>

text \<open>
  \<open>bufio.Scanner\<close> with its default split function and buffer: lines without the line feed and one
  carriage return before it; a line of 65536 bytes or more ends the scan with \<open>ErrTooLong\<close>.
\<close>

definition dropCR :: "bytes \<Rightarrow> bytes" where
  "dropCR l = (if l \<noteq> [] \<and> last l = CHR 0x0D then butlast l else l)"

definition max_token :: nat where
  "max_token = 65536"

definition scan_lines :: "bytes \<Rightarrow> bytes list \<times> bool" where
  "scan_lines d =
     (let ls = Split (CHR 0x0A) d;
          ls' = (if last ls = [] then butlast ls else ls)
      in (map dropCR (takeWhile (\<lambda>l. length l < max_token) ls'),
          list_ex (\<lambda>l. max_token \<le> length l) ls'))"

section \<open>Plain names\<close>

text \<open>
  A component that is not a reference to a directory, and a text without the characters that
  patterns interpret.
\<close>

definition good_comp :: "string \<Rightarrow> bool" where
  "good_comp c \<longleftrightarrow> c \<noteq> [] \<and> c \<noteq> ''.'' \<and> c \<noteq> ''..'' \<and> CHR ''/'' \<notin> set c"

definition no_meta :: "string \<Rightarrow> bool" where
  "no_meta c \<longleftrightarrow> (\<forall>x \<in> set c. x \<noteq> CHR ''*'' \<and> x \<noteq> CHR ''?'' \<and> x \<noteq> CHR 0x5C \<and> x \<noteq> CHR ''['')"

text \<open>The base directory as \<open>RunServer\<close> leaves it: absolute, with a final separator.\<close>

definition good_base :: "string \<Rightarrow> path \<Rightarrow> bool" where
  "good_base base b \<longleftrightarrow> base = path_string b @ ''/'' \<and> (\<forall>c \<in> set b. good_comp c \<and> no_meta c)"

definition dirs_ready :: "path \<Rightarrow> fsys \<Rightarrow> bool" where
  "dirs_ready b fs \<longleftrightarrow> set (prefixes b) \<subseteq> set (fs_dirs fs)"

lemma no_meta_append [simp]: "no_meta (u @ v) \<longleftrightarrow> no_meta u \<and> no_meta v"
  by (auto simp: no_meta_def)

lemma parse_pat_plain:
  "no_meta u \<Longrightarrow> parse_pat (u @ v) = map_option ((@) (map PLit u)) (parse_pat v)"
proof (induction u)
  case Nil
  show ?case by (cases "parse_pat v") auto
next
  case (Cons c u)
  have "parse_pat (u @ v) = map_option ((@) (map PLit u)) (parse_pat v)"
    using Cons by (simp add: no_meta_def)
  then show ?case
    using Cons.prems by (cases "parse_pat v") (simp_all add: no_meta_def)
qed

lemma parse_pat_no_meta [simp]: "no_meta u \<Longrightarrow> parse_pat u = Some (map PLit u)"
  using parse_pat_plain [of u "[]"] by simp

lemma pmatch_plain: "pmatch (map PLit u @ ps) s \<longleftrightarrow> (\<exists>t. s = u @ t \<and> pmatch ps t)"
proof (induction u arbitrary: s)
  case (Cons c u)
  then show ?case by (cases s) auto
qed simp

lemma pmatch_literal [simp]: "pmatch (map PLit u) s \<longleftrightarrow> s = u"
  using pmatch_plain [of u "[]" s] by simp

lemma pmatch_star [simp]: "pmatch [PStar] s"
  by (induction s) auto

declare pmatch.simps(2) [simp del]

lemma pmatch_star_suffix: "pmatch (PStar # map PLit u) s \<longleftrightarrow> (\<exists>t. s = t @ u)"
proof (induction s)
  case (Cons c s)
  have "pmatch (PStar # map PLit u) (c # s) \<longleftrightarrow> c # s = u \<or> (\<exists>t. s = t @ u)"
    using Cons by (simp add: pmatch.simps(2))
  also have "\<dots> \<longleftrightarrow> (\<exists>t. c # s = t @ u)" by (auto simp: Cons_eq_append_conv)
  finally show ?case .
qed (auto simp: pmatch.simps(2))

lemma match_component_plain [simp]: "no_meta c \<Longrightarrow> match_component c s \<longleftrightarrow> s = c"
  by (simp add: match_component_def)

text \<open>The three shapes of pattern that the server uses.\<close>

lemma match_prefix_star:
  assumes "no_meta u"
  shows "parse_pat (u @ ''*'') = Some (map PLit u @ [PStar])"
    and "match_component (u @ ''*'') s \<longleftrightarrow> (\<exists>t. s = u @ t)"
  using assms by (simp_all add: match_component_def parse_pat_plain pmatch_plain)

lemma match_star_suffix:
  assumes "no_meta u"
  shows "parse_pat (''*'' @ u) = Some (PStar # map PLit u)"
    and "match_component (''*'' @ u) s \<longleftrightarrow> (\<exists>t. s = t @ u)"
  using assms by (simp_all add: match_component_def pmatch_star_suffix)

lemma list_all2_snoc_plain:
  assumes "\<forall>c \<in> set b. no_meta c"
  shows "list_all2 match_component (b @ [p]) q \<longleftrightarrow> (\<exists>n. q = b @ [n] \<and> match_component p n)"
proof -
  have "list_all2 match_component b c \<longleftrightarrow> c = b" for c
    using assms by (induction b arbitrary: c) (auto simp: list_all2_Cons1)
  then show ?thesis by (auto simp: list_all2_append1 list_all2_Cons1)
qed

lemma Glob_base:
  assumes "\<forall>c \<in> set b. no_meta c" and "parse_pat p = Some ps"
  shows "Glob (b @ [p]) fs = Some (sort (filter (\<lambda>q. \<exists>n. q = b @ [n] \<and> match_component p n) (paths fs)))"
proof -
  have "\<not> list_ex (\<lambda>p. parse_pat p = None) (b @ [p])"
    using assms by (auto simp: list_ex_iff)
  then show ?thesis
    using assms(1) by (simp add: Glob_def list_all2_snoc_plain)
qed

section \<open>Cleaning and walking below the base directory\<close>

lemma Split_path_string:
  assumes "\<forall>c \<in> set b. CHR ''/'' \<notin> set c"
  shows "Split (CHR ''/'') (path_string b @ CHR ''/'' # t) = [] # b @ Split (CHR ''/'') t"
  using assms
proof (induction b)
  case (Cons c b)
  obtain r where r: "path_string b @ CHR ''/'' # t = CHR ''/'' # r"
    by (cases b) (auto simp: path_string_def)
  have "Split (CHR ''/'') (c @ CHR ''/'' # r) = c # Split (CHR ''/'') r"
    using Cons.prems by (intro Split_append_sep) auto
  moreover have "[] # Split (CHR ''/'') r = [] # b @ Split (CHR ''/'') t"
    using Cons by (simp add: r)
  moreover have "path_string (c # b) @ CHR ''/'' # t = CHR ''/'' # c @ CHR ''/'' # r"
    using r by (simp add: path_string_def)
  ultimately show ?case by simp
qed (simp add: path_string_def)

lemma fold_clean_step: "\<forall>c \<in> set b. good_comp c \<Longrightarrow> fold clean_step b acc = acc @ b"
  by (induction b arbitrary: acc) (auto simp: clean_step_def good_comp_def)

lemma JoinPath_base:
  assumes "good_base base b" and "good_comp n"
  shows "JoinPath base n = b @ [n]"
proof -
  have "Split (CHR ''/'') (base @ ''/'' @ n) = [] # b @ [[], n]"
    using assms Split_path_string [of b "CHR ''/'' # n"]
    by (auto simp: good_base_def good_comp_def Split_no_sep)
  then show ?thesis
    using assms by (simp add: JoinPath_def Clean_def good_base_def fold_clean_step)
      (simp add: clean_step_def good_comp_def)
qed

lemma Clean_base:
  assumes "good_base base b"
  shows "Clean base = b"
proof -
  have "Split (CHR ''/'') base = [] # b @ [[]]"
    using assms Split_path_string [of b "[]"] by (auto simp: good_base_def good_comp_def)
  then show ?thesis
    using assms by (simp add: Clean_def good_base_def fold_clean_step) (simp add: clean_step_def)
qed

lemma walk_down:
  assumes "\<forall>c \<in> set b. good_comp c" and "good_comp n"
    and "\<forall>d \<in> set (prefixes b). cur @ d \<in> set ds"
  shows "walk ds cur (b @ [n]) = Some (cur @ b @ [n])"
  using assms
proof (induction b arbitrary: cur)
  case (Cons c b)
  have "cur @ [c] \<in> set ds" using Cons.prems(3) by auto
  moreover have "walk ds (cur @ [c]) (b @ [n]) = Some ((cur @ [c]) @ b @ [n])"
    using Cons.prems by (intro Cons.IH) auto
  ultimately show ?case using Cons.prems by (simp add: good_comp_def)
qed (simp add: good_comp_def)

lemma walk_base:
  assumes "good_base base b" and "good_comp n" and "dirs_ready b fs"
  shows "walk (fs_dirs fs) [] (Split (CHR ''/'') (base @ n)) = Some (b @ [n])"
proof -
  have "Split (CHR ''/'') (base @ n) = [] # b @ [n]"
    using assms Split_path_string [of b n] by (auto simp: good_base_def good_comp_def Split_no_sep)
  then show ?thesis
    using walk_down [of b n "[]" "fs_dirs fs"] assms
    by (auto simp: good_base_def dirs_ready_def)
qed

section \<open>Lines written are the lines scanned\<close>

definition plain_line :: "bytes \<Rightarrow> bool" where
  "plain_line l \<longleftrightarrow> CHR 0x0A \<notin> set l \<and> (l = [] \<or> last l \<noteq> CHR 0x0D) \<and> length l < max_token"

definition join_lines :: "bytes list \<Rightarrow> bytes" where
  "join_lines ls = concat (map (\<lambda>l. l @ [CHR 0x0A]) ls)"

lemma join_lines_simps [simp]:
  "join_lines [] = []"
  "join_lines (l # ls) = l @ CHR 0x0A # join_lines ls"
  "join_lines (ls @ ms) = join_lines ls @ join_lines ms"
  by (simp_all add: join_lines_def)

lemma Split_join_lines:
  "\<forall>l \<in> set ls. CHR 0x0A \<notin> set l \<Longrightarrow> Split (CHR 0x0A) (join_lines ls) = ls @ [[]]"
  by (induction ls) (auto simp: Split_append_sep)

lemma dropCR_plain [simp]: "plain_line l \<Longrightarrow> dropCR l = l"
  by (auto simp: dropCR_def plain_line_def)

lemma scan_lines_join:
  assumes "\<forall>l \<in> set ls. plain_line l"
  shows "scan_lines (join_lines ls) = (ls, False)"
proof -
  have "Split (CHR 0x0A) (join_lines ls) = ls @ [[]]"
    using assms by (intro Split_join_lines) (auto simp: plain_line_def)
  moreover have tw: "takeWhile (\<lambda>l. length l < max_token) ls = ls"
    using assms by (auto simp: takeWhile_eq_all_conv plain_line_def)
  moreover have "\<not> list_ex (\<lambda>l. max_token \<le> length l) ls"
    using assms by (auto simp: list_ex_iff plain_line_def not_le)
  moreover have "map dropCR ls = ls" using assms by (simp add: map_idI)
  ultimately show ?thesis
    by (simp add: scan_lines_def tw del: takeWhile_eq_all_conv)
qed

section \<open>The store\<close>

lemma paths_Remove: "set (paths (Remove p fs)) = set (paths fs) - {p}"
  by (auto simp: paths_def Remove_def)

lemma content_Remove: "content (Remove p fs) q = (if q = p then None else content fs q)"
proof -
  have "map_of (filter (\<lambda>e. fst e \<noteq> p) xs) q = (if q = p then None else map_of xs q)"
    for xs :: "(path \<times> nat) list"
    by (induction xs) auto
  then show ?thesis by (simp add: content_def Remove_def)
qed

lemma content_RemoveAll:
  "content (RemoveAll p fs) q = (if take (length p) q = p then None else content fs q)"
proof -
  have "map_of (filter (\<lambda>e. take (length p) (fst e) \<noteq> p) xs) q =
      (if take (length p) q = p then None else map_of xs q)" for xs :: "(path \<times> nat) list"
    by (induction xs) auto
  then show ?thesis by (simp add: content_def RemoveAll_def)
qed

lemma in_paths_iff: "p \<in> set (paths fs) \<longleftrightarrow> content fs p \<noteq> None"
  by (simp add: content_def paths_def map_of_eq_None_iff)

lemma fs_ok_Remove [inv_intros]: "fs_ok fs \<Longrightarrow> fs_ok (Remove p fs)"
  by (auto simp: fs_ok_def Remove_def paths_def distinct_map_filter)

lemma fs_ok_RemoveAll [inv_intros]: "fs_ok fs \<Longrightarrow> fs_ok (RemoveAll p fs)"
  by (auto simp: fs_ok_def RemoveAll_def paths_def distinct_map_filter)

lemma fs_ok_MkdirAll [inv_intros]: "fs_ok fs \<Longrightarrow> fs_ok (fst (MkdirAll p fs))"
  by (auto simp: fs_ok_def MkdirAll_def paths_def Let_def)

lemma fs_ok_Write [inv_intros]: "fs_ok fs \<Longrightarrow> fs_ok (Write now h b fs)"
  by (induction now h b fs rule: Write.induct) (auto simp: fs_ok_def paths_def)

lemma walk_components:
  "walk ds cur cs = Some q \<Longrightarrow> c \<in> set q \<Longrightarrow> c \<in> set cur \<union> set cs"
  by (induction ds cur cs rule: walk.induct) (auto split: if_splits dest: in_set_butlastD)

lemma fs_ok_Create [inv_intros]:
  assumes "fs_ok fs"
  shows "fs_ok (fst (Create now p fs))"
proof (cases "walk (fs_dirs fs) [] (Split (CHR ''/'') p)")
  case (Some q)
  then have "\<forall>c \<in> set q. CHR ''/'' \<notin> set c" by (auto dest!: walk_components Split_parts)
  then show ?thesis using assms Some
    by (auto simp: fs_ok_def Create_def paths_def Let_def map_of_eq_None_iff less_Suc_eq
        split: option.split)
qed (use assms in \<open>simp add: Create_def\<close>)

lemma content_Write_Open:
  assumes "fs_ok fs" and "map_of (fs_names fs) p = Some i"
  shows "content (Write now (Some (Open i)) b fs) q =
    (if q = p then Some (fs_data fs i @ b) else content fs q)"
proof -
  have inj: "inj_on snd (set (fs_names fs))"
    using assms(1) by (simp add: fs_ok_def distinct_map)
  have "map_of (fs_names fs) q = Some i \<Longrightarrow> q = p"
    using inj_onD [OF inj, of "(q, i)" "(p, i)"] assms(2) by (auto dest: map_of_SomeD)
  then show ?thesis
    using assms(2) by (cases "map_of (fs_names fs) q") (auto simp: content_def)
qed

text \<open>Creating a fresh name in the base directory.\<close>

lemma Create_fresh:
  assumes "fs_ok fs" and "walk (fs_dirs fs) [] (Split (CHR ''/'') p) = Some q"
    and "q \<notin> set (fs_dirs fs)" and "q \<notin> set (paths fs)"
  obtains fs' where "Create now p fs = (fs', Inr (Open (fs_next fs)))" and "fs_ok fs'"
    and "map_of (fs_names fs') q = Some (fs_next fs)" and "fs_data fs' (fs_next fs) = []"
    and "fs_mtime fs' (fs_next fs) = now"
    and "fs_dirs fs' = fs_dirs fs" and "\<And>r. r \<noteq> q \<Longrightarrow> content fs' r = content fs r"
    and "set (paths fs') = insert q (set (paths fs))"
proof -
  let ?i = "fs_next fs"
  define fs' where "fs' = fs\<lparr>fs_names := fs_names fs @ [(q, ?i)], fs_data := (fs_data fs)(?i := []),
    fs_mtime := (fs_mtime fs)(?i := now), fs_next := Suc ?i\<rparr>"
  have new: "map_of (fs_names fs) q = None"
    using assms(4) by (simp add: paths_def map_of_eq_None_iff)
  have eq: "Create now p fs = (fs', Inr (Open ?i))"
    by (simp add: Create_def assms(2,3) new fs'_def Let_def)
  have "fs_ok fs'" using fs_ok_Create [OF assms(1), of now p] by (simp add: eq)
  moreover have "content fs' r = content fs r" if "r \<noteq> q" for r
  proof -
    have "(r, ?i) \<notin> set (fs_names fs)" using assms(1) by (auto simp: fs_ok_def)
    then have "map_of (fs_names fs) r \<noteq> Some ?i" by (auto dest: map_of_SomeD)
    then show ?thesis using that
      by (cases "map_of (fs_names fs) r") (auto simp: content_def fs'_def map_add_def)
  qed
  ultimately show ?thesis
    using new by (intro that [OF eq]) (auto simp: fs'_def map_add_def paths_def)
qed

text \<open>Creating a file, whether or not its name exists: it is empty, and no other file changes.\<close>

lemma Create_empty:
  assumes "fs_ok fs" and "walk (fs_dirs fs) [] (Split (CHR ''/'') p) = Some q" and "q \<notin> set (fs_dirs fs)"
  obtains fs' i where "Create now p fs = (fs', Inr (Open i))" and "fs_ok fs'"
    and "map_of (fs_names fs') q = Some i" and "fs_data fs' i = []"
    and "\<And>r. r \<noteq> q \<Longrightarrow> content fs' r = content fs r"
proof (cases "map_of (fs_names fs) q")
  case None
  then have "q \<notin> set (paths fs)" by (simp add: paths_def map_of_eq_None_iff)
  from Create_fresh [OF assms this, of now] that show ?thesis by metis
next
  case (Some i)
  define fs' where "fs' = fs\<lparr>fs_data := (fs_data fs)(i := []), fs_mtime := (fs_mtime fs)(i := now)\<rparr>"
  have eq: "Create now p fs = (fs', Inr (Open i))" by (simp add: Create_def assms(2,3) Some fs'_def)
  moreover have "fs_ok fs'" using fs_ok_Create [OF assms(1), of now p] by (simp add: eq)
  moreover have "content fs' r = content fs r" if "r \<noteq> q" for r
  proof -
    have "inj_on snd (set (fs_names fs))" using assms(1) by (simp add: fs_ok_def distinct_map)
    then have "map_of (fs_names fs) r \<noteq> Some i"
      using that Some by (auto dest!: map_of_SomeD dest: inj_onD [of _ _ "(r, i)" "(q, i)"])
    then show ?thesis by (cases "map_of (fs_names fs) r") (auto simp: content_def fs'_def)
  qed
  ultimately show ?thesis using Some by (intro that [of fs' i]) (simp_all add: fs'_def)
qed

section \<open>Writing lines\<close>

definition write_lines :: "time \<Rightarrow> handle option \<Rightarrow> bytes list \<Rightarrow> fsys \<Rightarrow> fsys" where
  "write_lines now h ls fs = fold (\<lambda>l fs. Write now h (l @ [CHR 0x0A]) fs) ls fs"

lemma Write_append: "Write now h b (Write now h a fs) = Write now h (a @ b) fs"
  by (cases "(now, h, b, fs)" rule: Write.cases) auto

lemma fs_names_Write [simp]: "fs_names (Write now h b fs) = fs_names fs"
  by (cases "(now, h, b, fs)" rule: Write.cases) auto

lemma fs_dirs_Write [simp]: "fs_dirs (Write now h b fs) = fs_dirs fs"
  by (cases "(now, h, b, fs)" rule: Write.cases) auto

lemma write_lines_spec:
  assumes "fs_ok fs" and "map_of (fs_names fs) p = Some i"
  shows "fs_ok (write_lines now (Some (Open i)) ls fs)
    \<and> fs_names (write_lines now (Some (Open i)) ls fs) = fs_names fs
    \<and> content (write_lines now (Some (Open i)) ls fs) q =
      (if q = p then Some (fs_data fs i @ join_lines ls) else content fs q)"
  using assms
proof (induction ls arbitrary: fs)
  case Nil
  then show ?case by (simp add: write_lines_def content_def)
next
  case (Cons l ls)
  let ?fs = "Write now (Some (Open i)) (l @ [CHR 0x0A]) fs"
  have ok: "fs_ok ?fs" and nm: "map_of (fs_names ?fs) p = Some i"
    using fs_ok_Write [OF Cons.prems(1)] Cons.prems(2) by (simp_all del: Write.simps)
  have w: "write_lines now (Some (Open i)) (l # ls) fs = write_lines now (Some (Open i)) ls ?fs"
    by (simp add: write_lines_def)
  show ?case
    unfolding w using Cons.IH [OF ok nm] content_Write_Open [OF Cons.prems]
    by auto
qed

end
