(* ===== verification/SharedHosts.thy ===== *)
theory SharedHosts
  imports SharedTypes
begin

text \<open>
  \<open>ParseHosts\<close> of \<open>shared/shared.go\<close>: the list of hosts that a command works on. Outside the
  repository, and arguments here: \<open>read\<close> is \<open>os.ReadFile\<close>, \<open>has_ell\<close> and \<open>find_ell\<close> are
  \<open>HasEllipses\<close> and \<open>FindEllipsesPatterns\<close> of \<open>github.com/minio/pkg/v3/ellipses\<close>, \<open>is_ip\<close> says
  that \<open>net.ParseIP\<close> accepts a string and \<open>lookup\<close> is \<open>net.LookupIP\<close>, the resolver's answer as
  printed addresses.
\<close>

record Pattern =
  pt_Prefix :: string
  pt_Suffix :: string
  pt_Seq :: "string list"

type_synonym ArgPattern = "Pattern list"

section \<open>Hosts in a file\<close>

definition err_format :: string where
  "err_format = ''When using a file for hosts, please use the format( file:path ) example( file:~/hosts.txt )''"

definition hosts_of_bytes :: "string \<Rightarrow> bytes \<Rightarrow> string list outcome" where
  "hosts_of_bytes path hb0 =
     (let hb = filter (\<lambda>c. c \<noteq> CHR 0x0D) hb0;
          splitLines = (if Contains hb '','' then Split (CHR '','') hb
                        else if Contains hb [CHR 0x0A] then Split (CHR 0x0A) hb
                        else [])
      in if length splitLines < 1
         then Error (''Hosts within the file ( '' @ path @ '' ) should be per line or comma seperated'')
         else Return (filter (\<lambda>v. length v \<noteq> 0) splitLines))"

section \<open>Hosts on the command line\<close>

fun scan_hosts ::
  "(string \<Rightarrow> bool) \<Rightarrow> (string \<Rightarrow> string + ArgPattern) \<Rightarrow> string list \<Rightarrow>
   string list \<Rightarrow> ArgPattern list \<Rightarrow> (string list \<times> ArgPattern list) outcome" where
  "scan_hosts has_ell find_ell [] lst hostList = Return (lst, hostList)"
| "scan_hosts has_ell find_ell (v # vs) lst hostList =
     (if \<not> has_ell v then scan_hosts has_ell find_ell vs (lst @ [v]) hostList
      else case find_ell v of
             Inl e \<Rightarrow> Error e
           | Inr x \<Rightarrow> scan_hosts has_ell find_ell vs lst (hostList @ [x]))"

definition expand_patterns :: "ArgPattern list \<Rightarrow> string list" where
  "expand_patterns hostList =
     concat (map (\<lambda>host. concat (map (\<lambda>p. map (\<lambda>sq. pt_Prefix p @ sq) (pt_Seq p)) host)) hostList)"

section \<open>Resolving names\<close>

fun resolve_hosts ::
  "(string \<Rightarrow> bool) \<Rightarrow> (string \<Rightarrow> string + string list) \<Rightarrow> string \<Rightarrow> string list \<Rightarrow>
   string list outcome" where
  "resolve_hosts is_ip lookup dns [] = Return []"
| "resolve_hosts is_ip lookup dns (host # hs) =
     (if \<not> is_ip host \<and> dns \<noteq> []
      then case lookup host of
             Inl e \<Rightarrow> Error e
           | Inr [] \<Rightarrow> Error (''Could not look up '' @ host @ '', err: did not find any IPs on record'')
           | Inr (ip # _) \<Rightarrow> bind_outcome (resolve_hosts is_ip lookup dns hs) (\<lambda>r. Return (ip # r))
      else bind_outcome (resolve_hosts is_ip lookup dns hs) (\<lambda>r. Return (host # r)))"

section \<open>ParseHosts\<close>

definition ParseHosts ::
  "(string \<Rightarrow> bytes option) \<Rightarrow> (string \<Rightarrow> bool) \<Rightarrow> (string \<Rightarrow> string + ArgPattern) \<Rightarrow>
   (string \<Rightarrow> bool) \<Rightarrow> (string \<Rightarrow> string + string list) \<Rightarrow> string \<Rightarrow> string \<Rightarrow> string list outcome" where
  "ParseHosts read has_ell find_ell is_ip lookup hosts dnsServer =
     (let lst =
        (if Contains hosts ''file:'' then
           let fs = Split (CHR '':'') hosts
           in if length fs < 2 then Error err_format
              else case read (fs ! 1) of
                     None \<Rightarrow> Error (''Could not open file:'' @ fs ! 1)
                   | Some hb \<Rightarrow> hosts_of_bytes (fs ! 1) hb
         else
           bind_outcome (scan_hosts has_ell find_ell (Split (CHR '','') hosts) [] [])
             (\<lambda>(l, hostList). Return (l @ expand_patterns hostList)))
      in bind_outcome lst (resolve_hosts is_ip lookup dnsServer))"

text \<open>\<open>net.JoinHostPort\<close>\<close>

definition JoinHostPort :: "string \<Rightarrow> string \<Rightarrow> string" where
  "JoinHostPort host port =
     (if CHR '':'' \<in> set host then ''['' @ host @ '']:'' @ port else host @ '':'' @ port)"

section \<open>Network interfaces\<close>

text \<open>
  \<open>GetInterfaceAddresses\<close>: \<open>interfaces\<close> is the answer of \<open>net.Interfaces\<close>, with the texts of the addresses
  of each interface or the error of asking for them. What follows a slash is the length of the network.
\<close>

fun interface_addresses :: "(string + string list) list \<Rightarrow> string list \<Rightarrow> string + string list" where
  "interface_addresses [] lst = Inr lst"
| "interface_addresses (intf # intfs) lst =
     (case intf of
        Inl er \<Rightarrow> Inl er
      | Inr addrs \<Rightarrow> interface_addresses intfs (lst @ map (\<lambda>addr. Split (CHR ''/'') addr ! 0) addrs))"

definition GetInterfaceAddresses :: "string + (string + string list) list \<Rightarrow> string + string list" where
  "GetInterfaceAddresses interfaces =
     (case interfaces of Inl er \<Rightarrow> Inl er | Inr intfs \<Rightarrow> interface_addresses intfs [])"

section \<open>Lemmas\<close>

lemma resolve_hosts_no_dns [simp]: "resolve_hosts is_ip lookup [] hs = Return hs"
  by (induction hs) auto

lemma scan_hosts_plain:
  "\<forall>v \<in> set vs. \<not> has_ell v \<Longrightarrow> scan_hosts has_ell find_ell vs lst hl = Return (lst @ vs, hl)"
  by (induction vs arbitrary: lst) auto

lemma scan_hosts_split:
  assumes "\<forall>v \<in> set vs. has_ell v \<longrightarrow> find_ell v = Inr (pats v)"
  shows "scan_hosts has_ell find_ell vs lst hl =
    Return (lst @ filter (\<lambda>v. \<not> has_ell v) vs, hl @ map pats (filter has_ell vs))"
  using assms by (induction vs arbitrary: lst hl) auto

lemma resolve_hosts_length:
  "resolve_hosts is_ip lookup dns hs = Return rs \<Longrightarrow> length rs = length hs"
  by (induction hs arbitrary: rs) (auto split: if_splits sum.splits list.splits)

text \<open>The address that a host is reached at: itself, or the first address of a name that is looked up.\<close>

definition resolved ::
  "(string \<Rightarrow> bool) \<Rightarrow> (string \<Rightarrow> string + string list) \<Rightarrow> string \<Rightarrow> string \<Rightarrow> string" where
  "resolved is_ip lookup dns h =
     (if \<not> is_ip h \<and> dns \<noteq> []
      then case lookup h of Inr (ip # _) \<Rightarrow> ip | _ \<Rightarrow> h else h)"

definition resolvable ::
  "(string \<Rightarrow> bool) \<Rightarrow> (string \<Rightarrow> string + string list) \<Rightarrow> string \<Rightarrow> string \<Rightarrow> bool" where
  "resolvable is_ip lookup dns h \<longleftrightarrow>
     is_ip h \<or> dns = [] \<or> (case lookup h of Inr (ip # _) \<Rightarrow> True | _ \<Rightarrow> False)"

lemma resolve_hosts_resolved:
  "\<forall>h \<in> set hs. resolvable is_ip lookup dns h \<Longrightarrow>
   resolve_hosts is_ip lookup dns hs = Return (map (resolved is_ip lookup dns) hs)"
  by (induction hs) (auto simp: resolvable_def resolved_def split: sum.splits list.splits)

lemma Split_lines:
  assumes "\<forall>h \<in> set hs. c \<notin> set h"
  shows "Split c (concat (map (\<lambda>h. h @ [c]) hs)) = hs @ [[]]"
  using assms by (induction hs) (auto simp: Split_append_sep)


text \<open>
  A file with one host per line, with Unix or DOS line ends, gives back exactly these hosts.
\<close>

theorem ParseHosts_lines_of_file:
  assumes "read path = Some (concat (map (\<lambda>h. h @ eol) hs))" and "eol \<in> {[CHR 0x0A], [CHR 0x0D, CHR 0x0A]}"
    and "CHR '':'' \<notin> set path" and "hs \<noteq> []"
    and "\<forall>h \<in> set hs. h \<noteq> [] \<and> CHR '','' \<notin> set h \<and> CHR 0x0A \<notin> set h \<and> CHR 0x0D \<notin> set h"
  shows "ParseHosts read has_ell find_ell is_ip lookup (''file:'' @ path) [] = Return hs"
proof -
  let ?hb = "concat (map (\<lambda>h. h @ eol) hs)" and ?lb = "concat (map (\<lambda>h. h @ [CHR 0x0A]) hs)"
  have "filter (\<lambda>c. c \<noteq> CHR 0x0D) (h @ eol) = h @ [CHR 0x0A]" if "h \<in> set hs" for h
    using assms(2,5) that by (auto simp: filter_id_conv intro!: filter_True)
  then have f: "filter (\<lambda>c. c \<noteq> CHR 0x0D) ?hb = ?lb"
    by (induction hs) auto
  have "\<not> Contains ?lb '',''" "Contains ?lb [CHR 0x0A]"
    using assms(4,5) by (auto simp: Contains_single neq_Nil_conv)
  moreover have "Split (CHR 0x0A) ?lb = hs @ [[]]" using assms(5) by (intro Split_lines) auto
  moreover have "filter (\<lambda>v. v \<noteq> []) hs = hs" using assms(5) by (simp add: filter_id_conv)
  ultimately have h: "hosts_of_bytes path ?hb = Return hs"
    by (simp add: hosts_of_bytes_def Let_def f)
  have "Split (CHR '':'') (''file:'' @ path) = [''file'', path]"
    using Split_append_sep [of "CHR '':''" "''file''" path] assms(3) by (simp add: Split_no_sep)
  moreover have "Contains (''file:'' @ path) ''file:''" by (auto simp: Contains_iff)
  ultimately show ?thesis using assms(1) h by (simp add: ParseHosts_def Let_def)
qed

text \<open>
  A file that holds a single host without a line end is refused, although its one line is one host.
\<close>

lemma ParseHosts_refuses_single_line:
  assumes "read path = Some h" and "CHR '':'' \<notin> set path"
    and "CHR '','' \<notin> set h" and "CHR 0x0A \<notin> set h"
  shows "ParseHosts read has_ell find_ell is_ip lookup (''file:'' @ path) dns =
    Error (''Hosts within the file ( '' @ path @ '' ) should be per line or comma seperated'')"
proof -
  let ?h = "filter (\<lambda>c. c \<noteq> CHR 0x0D) h"
  have "\<not> Contains ?h '',''" "\<not> Contains ?h [CHR 0x0A]" using assms(3,4) by auto
  then have "hosts_of_bytes path h =
      Error (''Hosts within the file ( '' @ path @ '' ) should be per line or comma seperated'')"
    by (simp add: hosts_of_bytes_def)
  moreover have "Split (CHR '':'') (''file:'' @ path) = [''file'', path]"
    using Split_append_sep [of "CHR '':''" "''file''" path] assms(2) by (simp add: Split_no_sep)
  moreover have "Contains (''file:'' @ path) ''file:''" by (auto simp: Contains_iff)
  ultimately show ?thesis using assms(1) by (simp add: ParseHosts_def Let_def)
qed

text \<open>
  The addresses of all interfaces in order, without the lengths of their networks; one interface that
  cannot be asked loses them all.
\<close>

lemma interface_addresses_all:
  "interface_addresses (map (\<lambda>ips. Inr (map (\<lambda>(ip, len). ip @ ''/'' @ len) ips)) nets) lst =
     Inr (lst @ map fst (concat nets))"
  if "\<forall>ips \<in> set nets. \<forall>(ip, len) \<in> set ips. CHR ''/'' \<notin> set ip"
  using that
proof (induction nets arbitrary: lst)
  case (Cons ips nets)
  have "map (\<lambda>addr. Split (CHR ''/'') addr ! 0) (map (\<lambda>(ip, len). ip @ ''/'' @ len) ips) = map fst ips"
    using Cons.prems by (auto simp: Split_append_sep)
  then show ?case using Cons by (simp only: list.map interface_addresses.simps sum.case) simp
qed simp

lemma interface_addresses_error:
  "Inl er \<in> set intfs \<Longrightarrow> \<exists>er'. Inl er' \<in> set intfs \<and> interface_addresses intfs lst = Inl er'"
  by (induction intfs arbitrary: lst) (fastforce split: sum.splits)+

section \<open>Witnesses\<close>

text \<open>A resolver and a file for the examples.\<close>

definition demo_is_ip :: "string \<Rightarrow> bool" where
  "demo_is_ip h \<longleftrightarrow> (\<forall>c \<in> set h. is_digit c \<or> c = CHR ''.'')"

definition demo_lookup :: "string \<Rightarrow> string + string list" where
  "demo_lookup h = (if h = ''minio'' then Inr [''10.0.0.9'', ''10.0.0.8''] else Inl ''no such host'')"

definition demo_ell :: "string \<Rightarrow> bool" where
  "demo_ell v \<longleftrightarrow> Contains v ''...''"

definition demo_pats :: "string \<Rightarrow> ArgPattern" where
  "demo_pats v = [\<lparr>pt_Prefix = ''10.0.0.'', pt_Suffix = [], pt_Seq = [''1'', ''2'']\<rparr>]"


theorem ParseHosts_lines_of_file_witness:
  "ParseHosts (\<lambda>p. if p = ''h.txt'' then Some (''a'' @ [CHR 0x0D, CHR 0x0A] @ ''b'' @ [CHR 0x0D, CHR 0x0A]) else None)
     demo_ell (\<lambda>v. Inl []) demo_is_ip demo_lookup (''file:'' @ ''h.txt'') [] = Return [''a'', ''b'']"
  by (rule ParseHosts_lines_of_file [where eol = "[CHR 0x0D, CHR 0x0A]"]) simp_all

end
