(* ===== verification/ServerStats.thy ===== *)
theory ServerStats
  imports SharedTypes
begin

text \<open>
  The host statistics of \<open>server/server.go\<close>: the count of dropped packets read from
  \<open>/proc/net/dev\<close>, and the globals that \<open>getServerStats\<close> refreshes. The operating system's answers
  (the file, the memory and CPU percentages of gopsutil) are arguments.
\<close>

section \<open>GetDroppedPackets\<close>

fun sum_dropped :: "string list \<Rightarrow> int \<Rightarrow> int outcome" where
  "sum_dropped [] tot = Return tot"
| "sum_dropped (line # ls) tot =
     (let fields = Fields line in
      if length fields < 5 then sum_dropped ls tot
      else case Atoi (fields ! 4) of
             None \<Rightarrow> Error (''strconv.Atoi: parsing '' @ fields ! 4)
           | Some dropped \<Rightarrow> sum_dropped ls (wrap_int (tot + dropped)))"

text \<open>\<open>lines[2:]\<close> panics on a text of fewer than two lines.\<close>

definition GetDroppedPackets :: "bool \<Rightarrow> bytes option \<Rightarrow> int outcome" where
  "GetDroppedPackets linux dat =
     (if \<not> linux then Return 0
      else case dat of
             None \<Rightarrow> Error ''open /proc/net/dev''
           | Some d \<Rightarrow>
               let lines = Split (CHR 0x0A) d
               in if length lines < 2 then Panic ''slice bounds out of range''
                  else sum_dropped (drop 2 lines) 0)"

section \<open>getServerStats\<close>

record host_stats =
  memPercent :: "float64 option"
  droppedPackets :: int
  cpuPercent :: float64

text \<open>
  One run of \<open>getServerStats\<close>. \<open>mem\<close> is the answer of \<open>mem.VirtualMemory\<close>: on an error the
  pointer it returns is nil. A panic in \<open>GetDroppedPackets\<close> is recovered by the deferred function:
  the assignments before it stay, the CPU is not read.
\<close>

definition getServerStats ::
  "bool \<Rightarrow> float64 option \<Rightarrow> bytes option \<Rightarrow> float64 list \<Rightarrow> host_stats \<Rightarrow> host_stats" where
  "getServerStats linux mem netdev percent g =
     (let g1 = g\<lparr>memPercent := mem\<rparr>
      in case GetDroppedPackets linux netdev of
           Panic _ \<Rightarrow> g1
         | Error _ \<Rightarrow>
             (let g2 = g1\<lparr>droppedPackets := 0\<rparr>
              in if length percent > 0 then g2\<lparr>cpuPercent := percent ! 0\<rparr> else g2)
         | Return n \<Rightarrow>
             (let g2 = g1\<lparr>droppedPackets := n\<rparr>
              in if length percent > 0 then g2\<lparr>cpuPercent := percent ! 0\<rparr> else g2))"

section \<open>Lemmas\<close>

lemma sum_dropped_wrap:
  assumes "\<forall>l \<in> set ls. 5 \<le> length (Fields l) \<longrightarrow> Atoi (Fields l ! 4) = Some (d l)"
  shows "sum_dropped ls (wrap_int t) =
    Return (wrap_int (t + (\<Sum>l \<leftarrow> filter (\<lambda>l. 5 \<le> length (Fields l)) ls. d l)))"
  using assms
proof (induction ls arbitrary: t)
  case (Cons l ls)
  then show ?case by (auto simp: Let_def wrap_int_add_left add.assoc)
qed simp

text \<open>Words separated by blanks are the fields of a line.\<close>

fun join_words :: "string list \<Rightarrow> string" where
  "join_words [] = []"
| "join_words (w # ws) = '' '' @ w @ join_words ws"

definition plain_word :: "string \<Rightarrow> bool" where
  "plain_word w \<longleftrightarrow> w \<noteq> [] \<and> (\<forall>c \<in> set w. \<not> is_space c)"

lemma is_space_blank [simp]: "is_space (CHR '' '')"
  by (simp add: is_space_def)

lemma join_words_start: "join_words ws = [] \<or> is_space (hd (join_words ws))"
  by (cases ws) auto

lemma Fields_join_words: "\<forall>w \<in> set ws. plain_word w \<Longrightarrow> Fields (join_words ws) = ws"
proof (induction ws)
  case (Cons w ws)
  have "Fields ('' '' @ w @ join_words ws) = w # Fields (join_words ws)"
    using Cons.prems join_words_start by (intro Fields_word) (auto simp: plain_word_def)
  then show ?case using Cons by simp
qed simp

lemma newline_not_in_join_words:
  "\<forall>w \<in> set ws. plain_word w \<Longrightarrow> CHR 0x0A \<notin> set (join_words ws)"
  by (induction ws) (auto simp: plain_word_def is_space_def)

lemma plain_word_Itoa [simp]: "plain_word (Itoa n)"
proof -
  have "is_digit c \<Longrightarrow> \<not> is_space c" for c
    by (auto simp: is_digit_def char_digit_def is_space_def Let_def split: if_splits)
  then show ?thesis
    by (auto simp: plain_word_def Itoa_def is_space_def dest: nat_digits_are_digits)
qed

section \<open>The count of dropped packets\<close>

text \<open>
  On a table of two header lines and one line per interface, whose fifth field is its number of
  dropped packets, \<open>GetDroppedPackets\<close> returns the sum over the interfaces, wrapped to 64 bits.
\<close>

theorem GetDroppedPackets_sums:
  assumes "\<forall>r \<in> set rows. length (fst r) = 4 \<and> (\<forall>w \<in> set (fst r @ snd r). plain_word w)"
    and "\<forall>r \<in> set rows. snd r \<noteq> [] \<and> hd (snd r) = Itoa (d r) \<and> - (2 ^ 63) \<le> d r \<and> d r < 2 ^ 63"
    and "CHR 0x0A \<notin> set h1" and "CHR 0x0A \<notin> set h2"
  shows "GetDroppedPackets True
      (Some (Join (CHR 0x0A) ([h1, h2] @ map (\<lambda>r. join_words (fst r @ snd r)) rows @ [[]]))) =
    Return (wrap_int (\<Sum>r\<leftarrow>rows. d r))"
proof -
  let ?line = "\<lambda>r. join_words (fst r @ snd r)"
  have F: "Fields (?line r) = fst r @ snd r" if "r \<in> set rows" for r
    using assms(1) that by (intro Fields_join_words) auto
  have five: "5 \<le> length (Fields (?line r))" "Atoi (Fields (?line r) ! 4) = Some (d r)" if "r \<in> set rows" for r
    using F [OF that] assms that Atoi_Itoa by (cases "snd r"; fastforce simp: nth_append)+
  have S: "sum_dropped (map ?line rows) (wrap_int t) = Return (wrap_int (t + (\<Sum>r\<leftarrow>rows. d r)))" for t
    using five
  proof (induction rows arbitrary: t)
    case (Cons r rows)
    show ?case
      using Cons.IH [OF Cons.prems, of "t + d r"] Cons.prems [of r]
      by (simp add: Let_def wrap_int_add_left add.assoc)
  qed simp
  have E: "sum_dropped (ls @ [[]]) t = sum_dropped ls t" for ls t
    by (induction ls arbitrary: t) (auto simp: Let_def split: option.split)
  have NL: "CHR 0x0A \<notin> set (?line r)" if "r \<in> set rows" for r
    using assms(1) that by (intro newline_not_in_join_words) auto
  have "Split (CHR 0x0A) (Join (CHR 0x0A) ([h1, h2] @ map ?line rows @ [[]])) = [h1, h2] @ map ?line rows @ [[]]"
    using NL assms(3,4) by (intro Split_Join) auto
  then have "GetDroppedPackets True
      (Some (Join (CHR 0x0A) ([h1, h2] @ map ?line rows @ [[]]))) = sum_dropped (map ?line rows @ [[]]) 0"
    by (simp only: GetDroppedPackets_def) (simp add: Let_def)
  also have "\<dots> = Return (wrap_int (\<Sum>r\<leftarrow>rows. d r))" using S [of 0] by (simp add: E)
  finally show ?thesis .
qed

theorem GetDroppedPackets_sums_witness:
  "GetDroppedPackets True
     (Some (Join (CHR 0x0A) ([''Inter'', ''face''] @ map (\<lambda>r. join_words (fst r @ snd r))
       [([''lo:'', ''10'', ''1'', ''0''], [''3'', ''0'']), ([''eth0:'', ''20'', ''2'', ''0''], [''4'', ''0''])] @ [[]]))) =
    Return 7"
proof -
  let ?rows = "[([''lo:'', ''10'', ''1'', ''0''], [''3'', ''0'']), ([''eth0:'', ''20'', ''2'', ''0''], [''4'', ''0''])]"
  let ?d = "\<lambda>r :: string list \<times> string list. if hd (fst r) = ''lo:'' then 3 else 4 :: int"
  have i: "Itoa 3 = ''3''" "Itoa 4 = ''4''" by code_simp+
  have "\<forall>r \<in> set ?rows. length (fst r) = 4 \<and> (\<forall>w \<in> set (fst r @ snd r). plain_word w)"
    by code_simp
  moreover have "\<forall>r \<in> set ?rows. snd r \<noteq> [] \<and> hd (snd r) = Itoa (?d r)
      \<and> - (2 ^ 63) \<le> ?d r \<and> ?d r < 2 ^ 63"
    by (simp add: i)
  ultimately show ?thesis
    using GetDroppedPackets_sums [of ?rows ?d "''Inter''" "''face''"] by simp
qed

end
