(* ===== verification/ServerTypes.thy ===== *)
theory ServerTypes
  imports FileStore SharedHosts ServerStats
begin

text \<open>
  The state of \<open>server/server.go\<close>: tests, performance readers and the websocket connections, and
  the functions that send one signal. A connection is a number; \<open>nt_dead\<close> lists the connections on
  which a write fails, \<open>nt_out\<close> the signals written so far, \<open>nt_closed\<close> the connections that the
  server closed. A handler's writes are atomic.
\<close>

section \<open>Connections\<close>

record net =
  nt_out :: "(nat \<times> WebsocketSignal) list"
  nt_dead :: "nat list"
  nt_closed :: "nat list"

definition WriteJSON :: "nat \<Rightarrow> WebsocketSignal \<Rightarrow> net \<Rightarrow> net \<times> bool" where
  "WriteJSON con msg n =
     (if con \<in> set (nt_dead n) \<or> con \<in> set (nt_closed n) then (n, False)
      else (n\<lparr>nt_out := nt_out n @ [(con, msg)]\<rparr>, True))"

definition CloseCon :: "nat \<Rightarrow> net \<Rightarrow> net" where
  "CloseCon con n = n\<lparr>nt_closed := con # nt_closed n\<rparr>"

definition live :: "net \<Rightarrow> nat \<Rightarrow> bool" where
  "live n con \<longleftrightarrow> con \<notin> set (nt_dead n) \<and> con \<notin> set (nt_closed n)"

text \<open>The signals written to one connection.\<close>

definition sent_to :: "nat \<Rightarrow> net \<Rightarrow> WebsocketSignal list" where
  "sent_to con n = map snd (filter (\<lambda>e. fst e = con) (nt_out n))"

definition replyToPing :: "nat \<Rightarrow> net \<Rightarrow> net" where
  "replyToPing con n = fst (WriteJSON con (zero_signal\<lparr>ws_SType := Pong\<rparr>) n)"

definition SendError :: "nat \<Rightarrow> string \<Rightarrow> net \<Rightarrow> net \<times> bool" where
  "SendError con e n = WriteJSON con (zero_signal\<lparr>ws_SType := Err, ws_Error := e\<rparr>) n"

definition SendPing :: "nat \<Rightarrow> net \<Rightarrow> net \<times> bool" where
  "SendPing con n = WriteJSON con (zero_signal\<lparr>ws_SType := Ping, ws_Code := OK\<rparr>) n"

definition SendOK :: "nat \<Rightarrow> SignalType \<Rightarrow> net \<Rightarrow> net \<times> bool" where
  "SendOK con t n = WriteJSON con (zero_signal\<lparr>ws_SType := t, ws_Code := OK\<rparr>) n"

definition SendDone :: "nat \<Rightarrow> net \<Rightarrow> net \<times> bool" where
  "SendDone con n = WriteJSON con (zero_signal\<lparr>ws_SType := Done, ws_Code := OK\<rparr>) n"

section \<open>Readers and tests\<close>

record netPerfReader =
  r_hasStats :: bool
  r_buf :: bytes
  r_addr :: string
  r_ip :: string
  r_TXCount :: u64
  r_TX :: u64
  r_concurrency :: "int list"
  r_TTFBH :: i64
  r_TTFBL :: i64
  r_RMSH :: i64
  r_RMSL :: i64
  r_lastDataPointTime :: time

record test =
  t_ID :: string
  t_Config :: Config
  t_Started :: time
  t_cause :: "string option"
  t_Readers :: "netPerfReader list"
  t_errors :: "TError list"
  t_errMap :: "string set"
  t_DPS :: "DP list"
  t_DataFile :: "handle option"
  t_DataFileIndex :: int
  t_cons :: "(string \<times> nat) list"

text \<open>
  The context of a test: \<open>t_cause\<close> is the cause of its cancellation, \<open>None\<close> while it runs. Only the
  first call of the cancel function takes effect.
\<close>

definition cancel_test :: "string \<Rightarrow> test \<Rightarrow> test" where
  "cancel_test cause t = (case t_cause t of None \<Rightarrow> t\<lparr>t_cause := Some cause\<rparr> | Some _ \<Rightarrow> t)"

definition cancelled :: "test \<Rightarrow> bool" where
  "cancelled t \<longleftrightarrow> t_cause t \<noteq> None"

text \<open>\<open>(t *test) AddError\<close>: at most one error per identifier until the next flush.\<close>

definition AddError :: "time \<Rightarrow> string option \<Rightarrow> string \<Rightarrow> test \<Rightarrow> test" where
  "AddError now err ident t =
     (case err of
        None \<Rightarrow> t
      | Some e \<Rightarrow>
          if ident \<in> t_errMap t then t
          else t\<lparr>t_errors := t_errors t @ [\<lparr>te_Error = e, te_Created = now\<rparr>],
                 t_errMap := insert ident (t_errMap t)\<rparr>)"

section \<open>Lemmas\<close>

lemma WriteJSON_live [simp]:
  "live n con \<Longrightarrow> WriteJSON con msg n = (n\<lparr>nt_out := nt_out n @ [(con, msg)]\<rparr>, True)"
  by (simp add: WriteJSON_def live_def)

lemma WriteJSON_not_live [simp]: "\<not> live n con \<Longrightarrow> WriteJSON con msg n = (n, False)"
  by (auto simp: WriteJSON_def live_def)

lemma live_out [simp]: "live (n\<lparr>nt_out := x\<rparr>) con = live n con"
  by (simp add: live_def)

lemma nt_frame_WriteJSON [simp]:
  "nt_dead (fst (WriteJSON con msg n)) = nt_dead n"
  "nt_closed (fst (WriteJSON con msg n)) = nt_closed n"
  by (simp_all add: WriteJSON_def)

lemma live_WriteJSON [simp]: "live (fst (WriteJSON con msg n)) c = live n c"
  by (simp add: live_def)

lemma sent_to_WriteJSON:
  "sent_to c (fst (WriteJSON con msg n)) = sent_to c n @ (if c = con \<and> live n con then [msg] else [])"
  by (cases "live n con") (auto simp: sent_to_def)

lemma cancelled_cancel_test [simp]: "cancelled (cancel_test cause t)"
  by (simp add: cancelled_def cancel_test_def split: option.split)

text \<open>
  The invariant of a test's error list between two flushes: every identifier contributed one error.
\<close>

definition errs_ok :: "test \<Rightarrow> bool" where
  "errs_ok t \<longleftrightarrow> finite (t_errMap t) \<and> card (t_errMap t) = length (t_errors t)"

lemma errs_ok_AddError [inv_intros]: "errs_ok t \<Longrightarrow> errs_ok (AddError now err ident t)"
  by (simp add: errs_ok_def AddError_def split: option.split)

end
