(* ===== verification/ServerFiles.thy ===== *)
theory ServerFiles
  imports ServerTypes
begin

text \<open>
  \<open>server/file.go\<close>: the result files of the tests. \<open>base\<close> is the global \<open>basePath\<close>; the operating
  system's refusal to remove a path is the argument \<open>rm_err\<close>.
\<close>

section \<open>Creating and resetting\<close>

definition newTestFile :: "string \<Rightarrow> time \<Rightarrow> test \<Rightarrow> fsys \<Rightarrow> test \<times> fsys \<times> string option" where
  "newTestFile base now t fs =
     (let t1 = (if t_DataFile t \<noteq> None then t\<lparr>t_DataFile := Some Closed\<rparr> else t)
      in case MkdirAll base fs of
           (fs1, Some e) \<Rightarrow> (t1, fs1, Some e)
         | (fs1, None) \<Rightarrow>
             (let t2 = t1\<lparr>t_DataFileIndex := t_DataFileIndex t1 + 1\<rparr>
              in case Create now (base @ t_ID t2 @ ''.'' @ Itoa (t_DataFileIndex t2)) fs1 of
                   (fs2, Inl e) \<Rightarrow> (t2\<lparr>t_DataFile := None\<rparr>, fs2, Some e)
                 | (fs2, Inr h) \<Rightarrow> (t2\<lparr>t_DataFile := Some h\<rparr>, fs2, None)))"

text \<open>The loop of \<open>resetTestFiles\<close>: it stops at the first file that cannot be removed.\<close>

fun remove_until_error :: "(path \<Rightarrow> string option) \<Rightarrow> path list \<Rightarrow> fsys \<Rightarrow> fsys \<times> string option" where
  "remove_until_error rm_err [] fs = (fs, None)"
| "remove_until_error rm_err (p # ps) fs =
     (case rm_err p of
        Some e \<Rightarrow> (fs, Some e)
      | None \<Rightarrow> remove_until_error rm_err ps (Remove p fs))"

definition resetTestFiles ::
  "(path \<Rightarrow> string option) \<Rightarrow> string \<Rightarrow> string \<Rightarrow> fsys \<Rightarrow> fsys \<times> string option" where
  "resetTestFiles rm_err base tid fs =
     (case Glob (JoinPath base (tid @ ''*'')) fs of
        None \<Rightarrow> (fs, Some ''syntax error in pattern'')
      | Some files \<Rightarrow> remove_until_error rm_err files fs)"

section \<open>Listing\<close>

definition test_info :: "fsys \<Rightarrow> path \<Rightarrow> TestInfo" where
  "test_info fs p =
     (let trimPath = TrimSuffix (path_string p) ''.1'';
          finalPath = Split (CHR ''/'') trimPath
      in \<lparr>ti_ID = last finalPath,
          ti_Time = (case map_of (fs_names fs) p of Some i \<Rightarrow> fs_mtime fs i | None \<Rightarrow> zero_time)\<rparr>)"

definition listTestsFromDisk :: "string \<Rightarrow> fsys \<Rightarrow> TestInfo list outcome" where
  "listTestsFromDisk base fs =
     (case Glob (JoinPath base ''*.1'') fs of
        None \<Rightarrow> Error ''syntax error in pattern''
      | Some files \<Rightarrow> Return (map (test_info fs) files))"

section \<open>Deleting\<close>

fun remove_reporting ::
  "(path \<Rightarrow> string option) \<Rightarrow> nat \<Rightarrow> path list \<Rightarrow> fsys \<Rightarrow> net \<Rightarrow> fsys \<times> net" where
  "remove_reporting rm_err con [] fs n = (fs, n)"
| "remove_reporting rm_err con (p # ps) fs n =
     (case rm_err p of
        Some e \<Rightarrow> remove_reporting rm_err con ps fs (fst (SendError con e n))
      | None \<Rightarrow> remove_reporting rm_err con ps (Remove p fs) n)"

definition deleteTestsFromDisk ::
  "(path \<Rightarrow> string option) \<Rightarrow> string \<Rightarrow> nat \<Rightarrow> WebsocketSignal \<Rightarrow> fsys \<Rightarrow> net \<Rightarrow> fsys \<times> net" where
  "deleteTestsFromDisk rm_err base con sig fs n =
     (let tid = c_TestID (ws_Config sig);
          (fs1, n1) =
            (if tid = [] then
               (case rm_err (Clean base) of
                  Some e \<Rightarrow> (fs, fst (SendError con e n))
                | None \<Rightarrow> (RemoveAll (Clean base) fs, n))
             else (fs, n));
          (fs2, n2) =
            (case Glob (JoinPath base (tid @ ''.*'')) fs1 of
               None \<Rightarrow> (fs1, fst (SendError con ''syntax error in pattern'' n1))
             | Some files \<Rightarrow> remove_reporting rm_err con files fs1 n1)
      in (fs2, fst (SendDone con n2)))"

section \<open>Streaming\<close>

definition data_signal :: "bytes \<Rightarrow> WebsocketSignal" where
  "data_signal l = zero_signal\<lparr>ws_Data := l, ws_SType := GetTest, ws_Code := 200\<rparr>"

text \<open>One file: every line is a signal; the first failed write ends the call.\<close>

fun stream_lines :: "nat \<Rightarrow> bytes list \<Rightarrow> net \<Rightarrow> net \<times> string option" where
  "stream_lines con [] n = (n, None)"
| "stream_lines con (l # ls) n =
     (case WriteJSON con (data_signal l) n of
        (n1, False) \<Rightarrow> (n1, Some ''websocket: write failed'')
      | (n1, True) \<Rightarrow> stream_lines con ls n1)"

fun stream_files :: "nat \<Rightarrow> fsys \<Rightarrow> path list \<Rightarrow> net \<Rightarrow> net \<times> string option" where
  "stream_files con fs [] n = (n, None)"
| "stream_files con fs (p # ps) n =
     (case content fs p of
        None \<Rightarrow> (n, Some ''open: no such file or directory'')
      | Some d \<Rightarrow>
          (let (lines, tooLong) = scan_lines d
           in case stream_lines con lines n of
                (n1, Some e) \<Rightarrow> (n1, Some e)
              | (n1, None) \<Rightarrow>
                  if tooLong then (n1, Some ''bufio.Scanner: token too long'')
                  else stream_files con fs ps n1))"

definition streamTestFilesToWebsocket ::
  "string \<Rightarrow> nat \<Rightarrow> string \<Rightarrow> fsys \<Rightarrow> net \<Rightarrow> net \<times> string option" where
  "streamTestFilesToWebsocket base con tid fs n =
     (case Glob (JoinPath base (tid @ ''.*'')) fs of
        None \<Rightarrow> (n, Some ''syntax error in pattern'')
      | Some files \<Rightarrow> stream_files con fs files n)"

section \<open>The handlers that use them\<close>

text \<open>\<open>listAllTests\<close> answers with the signal it received, filled in.\<close>

definition listAllTests :: "string \<Rightarrow> nat \<Rightarrow> WebsocketSignal \<Rightarrow> fsys \<Rightarrow> net \<Rightarrow> net" where
  "listAllTests base con sig fs n =
     (let n1 =
        (case listTestsFromDisk base fs of
           Return l \<Rightarrow>
             fst (WriteJSON con (sig\<lparr>ws_TestList := l, ws_Code := 200, ws_SType := ListTests\<rparr>) n)
         | Error e \<Rightarrow> fst (SendError con e n)
         | Panic e \<Rightarrow> n)
      in fst (SendDone con n1))"

definition getTestOnServer :: "string \<Rightarrow> nat \<Rightarrow> WebsocketSignal \<Rightarrow> fsys \<Rightarrow> net \<Rightarrow> net" where
  "getTestOnServer base con sig fs n =
     (let (n1, err) = streamTestFilesToWebsocket base con (c_TestID (ws_Config sig)) fs n;
          n2 = (case err of Some e \<Rightarrow> fst (SendError con e n1) | None \<Rightarrow> n1)
      in fst (SendDone con n2))"

section \<open>File names\<close>

definition plain_id :: "string \<Rightarrow> bool" where
  "plain_id tid \<longleftrightarrow> no_meta tid \<and> CHR ''/'' \<notin> set tid"

definition file_name :: "string \<Rightarrow> int \<Rightarrow> string" where
  "file_name tid k = tid @ ''.'' @ Itoa k"

lemma Itoa_chars: "c \<in> set (Itoa k) \<Longrightarrow> is_digit c \<or> c = CHR ''-''"
  by (auto simp: Itoa_def dest: nat_digits_are_digits split: if_splits)

lemma Itoa_not_Nil [simp]: "Itoa k \<noteq> []"
  by (simp add: Itoa_def)

lemma not_in_Itoa [simp]: "CHR ''/'' \<notin> set (Itoa k)" "CHR ''.'' \<notin> set (Itoa k)"
  by (auto dest: Itoa_chars)

lemma good_comp_file_name: "CHR ''/'' \<notin> set tid \<Longrightarrow> good_comp (file_name tid k)"
proof -
  assume slash: "CHR ''/'' \<notin> set tid"
  have "last (Itoa k) \<noteq> CHR ''.''" by (metis last_in_set Itoa_not_Nil not_in_Itoa(2))
  then have "last (file_name tid k) \<noteq> CHR ''.''" by (simp add: file_name_def)
  then have "file_name tid k \<noteq> ''.''" "file_name tid k \<noteq> ''..''" by auto
  then show ?thesis using slash by (simp add: good_comp_def file_name_def)
qed

lemma good_comp_patterns:
  assumes "CHR ''/'' \<notin> set tid"
  shows "good_comp (tid @ ''*'')" and "good_comp (tid @ ''.*'')" and "good_comp ''*.1''"
proof -
  have "tid @ ''*'' \<noteq> s \<and> tid @ ''.*'' \<noteq> s" if "s \<noteq> [] \<longrightarrow> last s \<noteq> CHR ''*''" "s = [] \<or> s \<noteq> []" for s
    using that by auto
  from this [of "[]"] this [of "''.''"] this [of "''..''"]
  show "good_comp (tid @ ''*'')" "good_comp (tid @ ''.*'')" "good_comp ''*.1''"
    using assms by (auto simp: good_comp_def)
qed

section \<open>The server's directory\<close>

text \<open>
  The state of the store that \<open>RunServer\<close> leaves: the base directory exists and holds files only.
\<close>

definition store_ready :: "string \<Rightarrow> path \<Rightarrow> fsys \<Rightarrow> bool" where
  "store_ready base b fs \<longleftrightarrow> good_base base b \<and> fs_ok fs \<and> dirs_ready b fs
     \<and> (\<forall>d \<in> set (prefixes b). d \<notin> set (paths fs)) \<and> (\<forall>d \<in> set (fs_dirs fs). length d \<le> length b)"

lemma store_readyD:
  assumes "store_ready base b fs"
  shows "good_base base b" "fs_ok fs" "dirs_ready b fs" "\<forall>c \<in> set b. no_meta c"
  using assms by (auto simp: store_ready_def good_base_def)

lemma MkdirAll_ready [simp]: "store_ready base b fs \<Longrightarrow> MkdirAll base fs = (fs, None)"
proof -
  assume r: "store_ready base b fs"
  then have "Clean base = b" using Clean_base by (auto simp: store_ready_def)
  moreover have "filter (\<lambda>d. d \<notin> set (fs_dirs fs)) (prefixes b) = []"
    using r by (auto simp: store_ready_def dirs_ready_def filter_empty_conv)
  moreover have "\<not> (\<exists>d \<in> set (prefixes b). d \<in> set (paths fs))"
    using r by (auto simp: store_ready_def)
  ultimately show ?thesis by (simp add: MkdirAll_def Let_def del: set_prefixes_eq)
qed

lemma Glob_files:
  assumes "store_ready base b fs" and "plain_id tid"
  shows "Glob (JoinPath base (tid @ ''.*'')) fs =
      Some (sort (filter (\<lambda>q. \<exists>n. q = b @ [tid @ ''.'' @ n]) (paths fs)))"
    and "Glob (JoinPath base (tid @ ''*'')) fs =
      Some (sort (filter (\<lambda>q. \<exists>n. q = b @ [tid @ n]) (paths fs)))"
proof -
  note R = store_readyD [OF assms(1)]
  have slash: "CHR ''/'' \<notin> set tid" and nm: "no_meta tid" "no_meta (tid @ ''.'')"
    using assms(2) by (auto simp: plain_id_def no_meta_def)
  have "JoinPath base (tid @ ''.*'') = b @ [(tid @ ''.'') @ ''*'']"
    using JoinPath_base [OF R(1) good_comp_patterns(2) [OF slash]] by simp
  then show "Glob (JoinPath base (tid @ ''.*'')) fs =
      Some (sort (filter (\<lambda>q. \<exists>n. q = b @ [tid @ ''.'' @ n]) (paths fs)))"
    using Glob_base [OF R(4) match_prefix_star(1) [OF nm(2)], of fs] match_prefix_star(2) [OF nm(2)]
    by (simp del: append_assoc) (simp, metis)
  have "JoinPath base (tid @ ''*'') = b @ [tid @ ''*'']"
    using JoinPath_base [OF R(1) good_comp_patterns(1) [OF slash]] .
  then show "Glob (JoinPath base (tid @ ''*'')) fs =
      Some (sort (filter (\<lambda>q. \<exists>n. q = b @ [tid @ n]) (paths fs)))"
    using Glob_base [OF R(4) match_prefix_star(1) [OF nm(1)], of fs] match_prefix_star(2) [OF nm(1)]
    by simp metis
qed

section \<open>Effects of the operations\<close>

lemma remove_until_error_all:
  assumes "\<forall>p \<in> set ps. rm_err p = None"
  shows "snd (remove_until_error rm_err ps fs) = None"
    and "content (fst (remove_until_error rm_err ps fs)) q = (if q \<in> set ps then None else content fs q)"
  using assms by (induction ps arbitrary: fs) (auto simp: content_Remove)

lemma remove_reporting_all:
  assumes "\<forall>p \<in> set ps. rm_err p = None"
  shows "snd (remove_reporting rm_err con ps fs n) = n"
    and "content (fst (remove_reporting rm_err con ps fs n)) q =
      (if q \<in> set ps then None else content fs q)"
  using assms by (induction ps arbitrary: fs) (auto simp: content_Remove)

lemma fs_ok_remove_until_error [inv_intros]:
  "fs_ok fs \<Longrightarrow> fs_ok (fst (remove_until_error rm_err ps fs))"
  by (induction ps arbitrary: fs) (auto intro: inv_intros split: option.split)

lemma fs_ok_remove_reporting [inv_intros]:
  "fs_ok fs \<Longrightarrow> fs_ok (fst (remove_reporting rm_err con ps fs n))"
  by (induction ps arbitrary: fs n) (auto intro: inv_intros split: option.split)

lemma newTestFile_ready:
  assumes "store_ready base b fs" and "CHR ''/'' \<notin> set (t_ID t)"
    and q: "q = b @ [file_name (t_ID t) (t_DataFileIndex t + 1)]" and "q \<notin> set (paths fs)"
  obtains t' fs' where "newTestFile base now t fs = (t', fs', None)"
    and "t' = t\<lparr>t_DataFileIndex := t_DataFileIndex t + 1, t_DataFile := Some (Open (fs_next fs))\<rparr>"
    and "fs_ok fs'" and "map_of (fs_names fs') q = Some (fs_next fs)"
    and "fs_data fs' (fs_next fs) = []" and "fs_mtime fs' (fs_next fs) = now"
    and "fs_dirs fs' = fs_dirs fs"
    and "\<And>r. r \<noteq> q \<Longrightarrow> content fs' r = content fs r"
    and "set (paths fs') = insert q (set (paths fs))"
proof -
  note R = store_readyD [OF assms(1)]
  let ?p = "base @ file_name (t_ID t) (t_DataFileIndex t + 1)"
  have w: "walk (fs_dirs fs) [] (Split (CHR ''/'') ?p) = Some q"
    unfolding q by (rule walk_base [OF R(1) good_comp_file_name [OF assms(2)] R(3)])
  have "length q = Suc (length b)" by (simp add: q)
  then have "q \<notin> set (fs_dirs fs)" using assms(1) by (auto simp: store_ready_def)
  from Create_fresh [OF R(2) w this assms(4), of now]
  obtain fs' where fs': "Create now ?p fs = (fs', Inr (Open (fs_next fs)))" "fs_ok fs'"
    "map_of (fs_names fs') q = Some (fs_next fs)" "fs_data fs' (fs_next fs) = []"
    "fs_mtime fs' (fs_next fs) = now" "fs_dirs fs' = fs_dirs fs"
    "\<And>r. r \<noteq> q \<Longrightarrow> content fs' r = content fs r" "set (paths fs') = insert q (set (paths fs))"
    by blast
  show ?thesis
    by (rule that [of "t\<lparr>t_DataFileIndex := t_DataFileIndex t + 1,
          t_DataFile := Some (Open (fs_next fs))\<rparr>" fs'])
      (use fs' assms(1) in \<open>auto simp: newTestFile_def file_name_def\<close>)
qed

lemma store_ready_frame:
  assumes "store_ready base b fs" and "fs_ok fs'" and "fs_dirs fs' = fs_dirs fs"
    and "set (paths fs') \<subseteq> set (paths fs) \<union> {b @ [n] | n. True}"
  shows "store_ready base b fs'"
  using assms unfolding store_ready_def dirs_ready_def by (fastforce simp: prefix_def)

lemma stream_lines_live:
  "live n con \<Longrightarrow> stream_lines con ls n = (n\<lparr>nt_out := nt_out n @ map (\<lambda>l. (con, data_signal l)) ls\<rparr>, None)"
  by (induction ls arbitrary: n) auto

text \<open>A file whose content is lines that the scanner returns as they were written.\<close>

definition file_of_lines :: "fsys \<Rightarrow> path \<Rightarrow> bool" where
  "file_of_lines fs p \<longleftrightarrow>
     (\<exists>ls. content fs p = Some (join_lines ls) \<and> (\<forall>l \<in> set ls. plain_line l))"

lemma file_of_linesI:
  "content fs p = Some (join_lines ls) \<Longrightarrow> \<forall>l \<in> set ls. plain_line l \<Longrightarrow> file_of_lines fs p"
  by (auto simp: file_of_lines_def)

lemma stream_files_live:
  assumes "live n con" and "\<forall>p \<in> set ps. file_of_lines fs p"
  shows "stream_files con fs ps n =
    (n\<lparr>nt_out := nt_out n @ map (\<lambda>l. (con, data_signal l))
        (concat (map (\<lambda>p. fst (scan_lines (the (content fs p)))) ps))\<rparr>, None)"
  using assms
proof (induction ps arbitrary: n)
  case (Cons p ps)
  then obtain ls where "content fs p = Some (join_lines ls)" "\<forall>l \<in> set ls. plain_line l"
    by (auto simp: file_of_lines_def)
  then show ?case using Cons by (simp add: scan_lines_join stream_lines_live)
qed simp

lemma sent_to_cons: "filter (\<lambda>e. fst e = con) (map (\<lambda>l. (con, f l)) ls) = map (\<lambda>l. (con, f l)) ls"
  by (induction ls) auto

lemma getTestOnServer_live:
  assumes "store_ready base b fs" and "plain_id (c_TestID (ws_Config sig))" and "live n con"
  defines "ps \<equiv> sort (filter (\<lambda>q. \<exists>k. q = b @ [c_TestID (ws_Config sig) @ ''.'' @ k]) (paths fs))"
  assumes "\<forall>p \<in> set ps. file_of_lines fs p"
  shows "getTestOnServer base con sig fs n =
    n\<lparr>nt_out := nt_out n @ map (\<lambda>l. (con, data_signal l)) (concat (map (\<lambda>p. fst (scan_lines (the (content fs p)))) ps))
        @ [(con, zero_signal\<lparr>ws_SType := Done, ws_Code := OK\<rparr>)]\<rparr>"
proof -
  have "streamTestFilesToWebsocket base con (c_TestID (ws_Config sig)) fs n =
      (n\<lparr>nt_out := nt_out n @ map (\<lambda>l. (con, data_signal l))
        (concat (map (\<lambda>p. fst (scan_lines (the (content fs p)))) ps))\<rparr>, None)"
    using stream_files_live [OF assms(3,5)]
    by (simp add: streamTestFilesToWebsocket_def Glob_files(1) [OF assms(1,2)] ps_def)
  then show ?thesis using assms(3) by (simp add: getTestOnServer_def SendDone_def)
qed

section \<open>Properties\<close>

text \<open>
  Starting a saved test removes the files of every test whose identifier starts with the new
  one, not only its own: after \<open>resetTestFiles\<close> for \<open>tid\<close> the base directory holds exactly the
  files whose name does not have the prefix \<open>tid\<close>, and every other file keeps its content.
\<close>

theorem resetTestFiles_removes_prefix:
  assumes "store_ready base b fs" and "plain_id tid" and "\<forall>p. rm_err p = None"
  shows "snd (resetTestFiles rm_err base tid fs) = None
    \<and> content (fst (resetTestFiles rm_err base tid fs)) q =
      (if \<exists>n. q = b @ [tid @ n] then None else content fs q)"
proof -
  let ?ps = "sort (filter (\<lambda>q. \<exists>n. q = b @ [tid @ n]) (paths fs))"
  have eq: "resetTestFiles rm_err base tid fs = remove_until_error rm_err ?ps fs"
    by (simp add: resetTestFiles_def Glob_files(2) [OF assms(1,2)])
  have "q \<notin> set (paths fs) \<Longrightarrow> content fs q = None" by (simp add: in_paths_iff)
  then show ?thesis
    using assms(3) by (auto simp: eq remove_until_error_all)
qed

text \<open>
  Deleting one test by its identifier removes exactly the files \<open>tid.*\<close> of the base directory,
  leaves the content of every other file as it was, and answers the client with one \<open>Done\<close> signal.
\<close>

theorem deleteTestsFromDisk_one:
  assumes "store_ready base b fs" and "plain_id (c_TestID (ws_Config sig))"
    and "c_TestID (ws_Config sig) \<noteq> []" and "\<forall>p. rm_err p = None" and "live n con"
  shows "content (fst (deleteTestsFromDisk rm_err base con sig fs n)) q =
      (if \<exists>k. q = b @ [c_TestID (ws_Config sig) @ ''.'' @ k] then None else content fs q)
    \<and> nt_out (snd (deleteTestsFromDisk rm_err base con sig fs n)) =
      nt_out n @ [(con, zero_signal\<lparr>ws_SType := Done, ws_Code := OK\<rparr>)]"
proof -
  let ?tid = "c_TestID (ws_Config sig)"
  let ?ps = "sort (filter (\<lambda>q. \<exists>k. q = b @ [?tid @ ''.'' @ k]) (paths fs))"
  have eq: "deleteTestsFromDisk rm_err base con sig fs n =
      (fst (remove_reporting rm_err con ?ps fs n),
       fst (SendDone con (snd (remove_reporting rm_err con ?ps fs n))))"
    using assms(3) by (simp add: deleteTestsFromDisk_def Glob_files(1) [OF assms(1,2)]
        split_beta Let_def)
  have "q \<notin> set (paths fs) \<Longrightarrow> content fs q = None" by (simp add: in_paths_iff)
  then show ?thesis
    using assms(4,5) by (auto simp: eq remove_reporting_all SendDone_def)
qed

lemma Glob_list:
  assumes "store_ready base b fs"
  shows "Glob (JoinPath base ''*.1'') fs =
    Some (sort (filter (\<lambda>q. \<exists>tid. q = b @ [tid @ ''.1'']) (paths fs)))"
proof -
  note R = store_readyD [OF assms]
  have nm: "no_meta ''.1''" by (simp add: no_meta_def)
  have "JoinPath base ''*.1'' = b @ [''*'' @ ''.1'']"
    using JoinPath_base [OF R(1), of "''*.1''"] good_comp_patterns(3) [of "[]"] by simp
  then show ?thesis
    using Glob_base [OF R(4) match_star_suffix(1) [OF nm], of fs] match_star_suffix(2) [OF nm]
    by (simp del: append_assoc) metis
qed

lemma test_info_ID:
  assumes "CHR ''/'' \<notin> set tid"
  shows "ti_ID (test_info fs (b @ [tid @ ''.1''])) = tid"
proof -
  have "path_string (b @ [tid @ ''.1'']) = (path_string b @ CHR ''/'' # tid) @ ''.1''"
    by (simp add: path_string_def)
  then have "TrimSuffix (path_string (b @ [tid @ ''.1''])) ''.1'' = path_string b @ CHR ''/'' # tid"
    by (simp only: TrimSuffix_append)
  then show ?thesis using assms by (simp add: test_info_def last_Split_no_sep)
qed

lemma listTestsFromDisk_IDs:
  assumes "store_ready base b fs"
  obtains l where "listTestsFromDisk base fs = Return l"
    and "set (map ti_ID l) = {tid. b @ [tid @ ''.1''] \<in> set (paths fs)}"
proof -
  let ?ps = "filter (\<lambda>q. \<exists>tid. q = b @ [tid @ ''.1'']) (paths fs)"
  have slash: "CHR ''/'' \<notin> set tid" if "b @ [tid @ ''.1''] \<in> set (paths fs)" for tid
    using store_readyD(2) [OF assms] that by (fastforce simp: fs_ok_def)
  have "set (map ti_ID (map (test_info fs) (sort ?ps))) = ti_ID ` test_info fs ` set ?ps"
    by (simp add: image_image)
  also have "\<dots> = {tid. b @ [tid @ ''.1''] \<in> set (paths fs)}"
    using slash test_info_ID [of _ fs b] by (auto simp: image_iff) force
  finally show ?thesis
    using that [of "map (test_info fs) (sort ?ps)"]
    by (simp add: listTestsFromDisk_def Glob_list [OF assms])
qed

text \<open>
  The list of tests is exactly the set of identifiers whose first result file exists; creating
  the first file of a new test adds its identifier and nothing else.
\<close>

theorem newTestFile_listed:
  assumes "store_ready base b fs" and "CHR ''/'' \<notin> set (t_ID t)" and "t_DataFileIndex t = 0"
    and "b @ [t_ID t @ ''.1''] \<notin> set (paths fs)"
  shows "\<exists>t' fs' l l'. newTestFile base now t fs = (t', fs', None)
    \<and> listTestsFromDisk base fs = Return l \<and> listTestsFromDisk base fs' = Return l'
    \<and> set (map ti_ID l') = insert (t_ID t) (set (map ti_ID l))"
proof -
  let ?q = "b @ [t_ID t @ ''.1'']"
  have "Itoa 1 = ''1''" by code_simp
  then have q: "?q = b @ [file_name (t_ID t) (t_DataFileIndex t + 1)]"
    using assms(3) by (simp add: file_name_def)
  obtain t' fs' where new: "newTestFile base now t fs = (t', fs', None)" "fs_ok fs'"
    "fs_dirs fs' = fs_dirs fs" "set (paths fs') = insert ?q (set (paths fs))"
    using newTestFile_ready [OF assms(1,2) q assms(4)] by metis
  have "store_ready base b fs'"
    by (rule store_ready_frame [OF assms(1) new(2,3)]) (auto simp: new(4))
  then obtain l' where l': "listTestsFromDisk base fs' = Return l'"
    "set (map ti_ID l') = {tid. b @ [tid @ ''.1''] \<in> set (paths fs')}"
    by (rule listTestsFromDisk_IDs)
  obtain l where l: "listTestsFromDisk base fs = Return l"
    "set (map ti_ID l) = {tid. b @ [tid @ ''.1''] \<in> set (paths fs)}"
    by (rule listTestsFromDisk_IDs [OF assms(1)])
  have "set (map ti_ID l') = insert (t_ID t) (set (map ti_ID l))"
    unfolding l'(2) l(2) new(4) by auto
  then show ?thesis using new(1) l(1) l'(1) by blast
qed

text \<open>
  Downloading a test sends every line of its files, in file name order and line order, each in
  one signal, then one \<open>Done\<close>; nothing is dropped, repeated or reordered.
\<close>

theorem getTestOnServer_streams:
  assumes "store_ready base b fs" and "plain_id (c_TestID (ws_Config sig))" and "live n con"
    and "\<forall>p \<in> set (paths fs). file_of_lines fs p"
  shows "sent_to con (getTestOnServer base con sig fs n) =
    sent_to con n
    @ map data_signal
        (concat (map (\<lambda>p. fst (scan_lines (the (content fs p))))
          (sort (filter (\<lambda>q. \<exists>k. q = b @ [c_TestID (ws_Config sig) @ ''.'' @ k]) (paths fs)))))
    @ [zero_signal\<lparr>ws_SType := Done, ws_Code := OK\<rparr>]"
  using getTestOnServer_live [OF assms(1-3)] assms(4) by (simp add: sent_to_def sent_to_cons comp_def)

text \<open>
  An identifier that is not a valid pattern (for example one with an unclosed bracket) can
  be used to create result files, but neither to download nor to delete them: both handlers report the
  pattern error and leave every file in place.
\<close>

theorem bad_pattern_unreachable:
  assumes "good_base base b" and "CHR ''/'' \<notin> set (c_TestID (ws_Config sig))"
    and "c_TestID (ws_Config sig) \<noteq> []" and "parse_pat (c_TestID (ws_Config sig) @ ''.*'') = None"
    and "live n con"
  shows "fst (deleteTestsFromDisk rm_err base con sig fs n) = fs
    \<and> sent_to con (snd (deleteTestsFromDisk rm_err base con sig fs n)) = sent_to con n
        @ [zero_signal\<lparr>ws_SType := Err, ws_Error := ''syntax error in pattern''\<rparr>,
           zero_signal\<lparr>ws_SType := Done, ws_Code := OK\<rparr>]
    \<and> sent_to con (getTestOnServer base con sig fs n) = sent_to con n
        @ [zero_signal\<lparr>ws_SType := Err, ws_Error := ''syntax error in pattern''\<rparr>,
           zero_signal\<lparr>ws_SType := Done, ws_Code := OK\<rparr>]"
proof -
  have "Glob (JoinPath base (c_TestID (ws_Config sig) @ ''.*'')) fs = None"
    using JoinPath_base [OF assms(1) good_comp_patterns(2) [OF assms(2)]] assms(4)
    by (simp add: Glob_def)
  then show ?thesis using assms(3,5)
    by (simp add: deleteTestsFromDisk_def getTestOnServer_def streamTestFilesToWebsocket_def
        SendError_def SendDone_def sent_to_def)
qed

section \<open>Witnesses\<close>

definition demo_fs :: fsys where
  "demo_fs =
     \<lparr>fs_dirs = [[], [''d'']],
      fs_names = [([''d'', ''lat.1''], 0), ([''d'', ''lat-2.1''], 1), ([''d'', ''bw.1''], 2)],
      fs_data = (\<lambda>i. if i = 0 then ''0{}'' @ [CHR 0x0A] @ ''1{}'' @ [CHR 0x0A] else []),
      fs_mtime = (\<lambda>i. int i), fs_next = 3\<rparr>"

definition demo_net :: net where
  "demo_net = \<lparr>nt_out = [], nt_dead = [], nt_closed = []\<rparr>"

definition demo_test :: "string \<Rightarrow> test" where
  "demo_test tid =
     \<lparr>t_ID = tid, t_Config = zero_config\<lparr>c_TestID := tid, c_Save := True\<rparr>, t_Started = 0,
      t_cause = None, t_Readers = [], t_errors = [], t_errMap = {}, t_DPS = [],
      t_DataFile = None, t_DataFileIndex = 0, t_cons = []\<rparr>"

definition id_signal :: "string \<Rightarrow> WebsocketSignal" where
  "id_signal tid = zero_signal\<lparr>ws_Config := zero_config\<lparr>c_TestID := tid\<rparr>\<rparr>"

lemma id_signal_TestID [simp]: "c_TestID (ws_Config (id_signal tid)) = tid"
  by (simp add: id_signal_def)

lemma demo_ready: "store_ready ''/d/'' [''d''] demo_fs"
  by code_simp

lemma demo_live: "live demo_net 0"
  by code_simp

lemma plain_id_demo: "plain_id ''lat''"
  by code_simp

theorem resetTestFiles_removes_prefix_witness:
  "content demo_fs [''d'', ''lat-2.1''] = Some []
    \<and> content (fst (resetTestFiles (\<lambda>_. None) ''/d/'' ''lat'' demo_fs)) [''d'', ''lat-2.1''] = None"
proof -
  have "\<exists>n. [''d'', ''lat-2.1''] = [''d''] @ [''lat'' @ n]" by simp
  then have "content (fst (resetTestFiles (\<lambda>_. None) ''/d/'' ''lat'' demo_fs)) [''d'', ''lat-2.1''] = None"
    using resetTestFiles_removes_prefix [OF demo_ready plain_id_demo, of "\<lambda>_. None" "[''d'', ''lat-2.1'']"]
    by simp
  moreover have "content demo_fs [''d'', ''lat-2.1''] = Some []" by code_simp
  ultimately show ?thesis by simp
qed

theorem deleteTestsFromDisk_one_witness:
  "content (fst (deleteTestsFromDisk (\<lambda>_. None) ''/d/'' 0 (id_signal ''lat'') demo_fs demo_net))
     [''d'', ''lat.1''] = None"
  using deleteTestsFromDisk_one [OF demo_ready, of "id_signal ''lat''" "\<lambda>_. None" demo_net 0 "[''d'', ''lat.1'']"]
  by (simp add: plain_id_demo demo_live)

theorem newTestFile_listed_witness:
  "\<exists>t' fs' l l'. newTestFile ''/d/'' 7 (demo_test ''new'') demo_fs = (t', fs', None)
    \<and> listTestsFromDisk ''/d/'' demo_fs = Return l \<and> listTestsFromDisk ''/d/'' fs' = Return l'
    \<and> set (map ti_ID l') = insert ''new'' (set (map ti_ID l))"
proof -
  have "CHR ''/'' \<notin> set (t_ID (demo_test ''new''))" "t_DataFileIndex (demo_test ''new'') = 0"
    "[''d''] @ [t_ID (demo_test ''new'') @ ''.1''] \<notin> set (paths demo_fs)" "t_ID (demo_test ''new'') = ''new''"
    by (simp_all add: demo_test_def paths_def demo_fs_def)
  then show ?thesis using newTestFile_listed [OF demo_ready, of "demo_test ''new''" 7] by simp
qed

lemma demo_lines: "\<forall>p \<in> set (paths demo_fs). file_of_lines demo_fs p"
proof -
  have "file_of_lines demo_fs [''d'', ''lat.1'']"
    by (rule file_of_linesI [where ls = "[''0{}'', ''1{}'']"])
      (simp_all add: content_def demo_fs_def plain_line_def max_token_def)
  moreover have "file_of_lines demo_fs [''d'', ''lat-2.1'']" "file_of_lines demo_fs [''d'', ''bw.1'']"
    by (rule file_of_linesI [where ls = "[]"]; simp add: content_def demo_fs_def)+
  moreover have "set (paths demo_fs) = {[''d'', ''lat.1''], [''d'', ''lat-2.1''], [''d'', ''bw.1'']}"
    by (simp add: paths_def demo_fs_def)
  ultimately show ?thesis by simp
qed

theorem getTestOnServer_streams_witness:
  "sent_to 0 (getTestOnServer ''/d/'' 0 (id_signal ''lat'') demo_fs demo_net) =
    map data_signal (concat (map (\<lambda>p. fst (scan_lines (the (content demo_fs p))))
      (sort (filter (\<lambda>q. \<exists>k. q = [''d''] @ [''lat'' @ ''.'' @ k]) (paths demo_fs)))))
    @ [zero_signal\<lparr>ws_SType := Done, ws_Code := OK\<rparr>]"
  using getTestOnServer_streams [OF demo_ready, of "id_signal ''lat''" demo_net 0] demo_lines
  by (simp add: plain_id_demo demo_live) (simp add: sent_to_def demo_net_def)

theorem bad_pattern_unreachable_witness:
  "fst (deleteTestsFromDisk (\<lambda>_. None) ''/d/'' 0 (id_signal ''a['') demo_fs demo_net) = demo_fs"
proof -
  have "parse_pat (''a['' @ ''.*'') = None" by code_simp
  then show ?thesis
    using bad_pattern_unreachable [OF store_readyD(1) [OF demo_ready], of "id_signal ''a[''" demo_net 0]
    by (simp add: demo_live)
qed

end
