(* ===== verification/ServerTest.thy ===== *)
theory ServerTest
  imports ServerFiles
begin

text \<open>
  The life of a test in \<open>server/server.go\<close>: its creation, the data points generated from its
  readers, and the flush that sends and saves them. \<open>json.Marshal\<close> is the argument record \<open>js\<close>; the
  value of a \<open>float64\<close> to integer conversion out of range, which Go leaves to the implementation,
  is part of the environment. A step reads the clock once.
\<close>

record json =
  js_dp :: "DP \<Rightarrow> string + bytes"
  js_err :: "TError \<Rightarrow> string + bytes"

record env =
  e_bindAddress :: string
  e_realIP :: string
  e_basePath :: string
  e_impl_u64 :: u64
  e_impl_int :: int

section \<open>Creating a test\<close>

text \<open>
  \<open>newPerformanceReaderForASingleHost\<close>: \<open>make\<close> panics on a negative payload size and on a negative
  concurrency. The HTTP client it also builds keeps no state that the program reads.
\<close>

definition newPerformanceReaderForASingleHost ::
  "time \<Rightarrow> Config \<Rightarrow> string \<Rightarrow> string \<Rightarrow> netPerfReader outcome" where
  "newPerformanceReaderForASingleHost now c host port =
     (if c_PayloadSize c < 0 then Panic ''makeslice: len out of range''
      else if c_Concurrency c < 0 then Panic ''makechan: size out of range''
      else Return
        \<lparr>r_hasStats = False, r_buf = replicate (nat (c_PayloadSize c)) (CHR 0x00),
         r_addr = JoinHostPort host port, r_ip = host, r_TXCount = 0, r_TX = 0,
         r_concurrency = map int [1 ..< Suc (nat (c_Concurrency c))],
         r_TTFBH = 0, r_TTFBL = max_i64, r_RMSH = 0, r_RMSL = max_i64,
         r_lastDataPointTime = now\<rparr>)"

definition skip_host :: "env \<Rightarrow> string \<Rightarrow> bool" where
  "skip_host e joinedHostPort \<longleftrightarrow>
     (e_realIP e \<noteq> [] \<and> Contains joinedHostPort (e_realIP e)) \<or> joinedHostPort = e_bindAddress e"

fun make_readers :: "env \<Rightarrow> time \<Rightarrow> Config \<Rightarrow> string list \<Rightarrow> netPerfReader list outcome" where
  "make_readers e now c [] = Return []"
| "make_readers e now c (h # hs) =
     (if skip_host e (JoinHostPort h (c_Port c)) then make_readers e now c hs
      else bind_outcome (newPerformanceReaderForASingleHost now c h (c_Port c))
             (\<lambda>r. bind_outcome (make_readers e now c hs) (\<lambda>rs. Return (r # rs))))"

definition empty_test :: "time \<Rightarrow> Config \<Rightarrow> test" where
  "empty_test now c =
     \<lparr>t_ID = c_TestID c, t_Config = c, t_Started = now, t_cause = None, t_Readers = [],
      t_errors = [], t_errMap = {}, t_DPS = [], t_DataFile = None, t_DataFileIndex = 0,
      t_cons = []\<rparr>"

definition err_no_readers :: string where
  "err_no_readers = ''No performance readers were created, please revise your config''"

text \<open>
  \<open>newTest\<close>, up to the append to the global list of tests, which its caller's model does. The files
  of the test are reset and created before the configuration is looked at.
\<close>

definition newTest ::
  "env \<Rightarrow> (path \<Rightarrow> string option) \<Rightarrow> time \<Rightarrow> Config \<Rightarrow> fsys \<Rightarrow> fsys \<times> test outcome" where
  "newTest e rm_err now c fs =
     (let t0 = empty_test now c;
          (t1, fs1) =
            (if c_Save c then
               (let (fsr, _) = resetTestFiles rm_err (e_basePath e) (t_ID t0) fs;
                    (tn, fsn, _) = newTestFile (e_basePath e) now t0 fsr
                in (tn, fsn))
             else (t0, fs))
      in (fs1,
          case make_readers e now c (c_Hosts c) of
            Panic p \<Rightarrow> Panic p
          | Error er \<Rightarrow> Error er
          | Return rs \<Rightarrow> if length rs = 0 then Error err_no_readers else Return (t1\<lparr>t_Readers := rs\<rparr>)))"

section \<open>Generating data points\<close>

text \<open>
  One reader that has statistics: its data point, and the reader with its byte counter swapped to
  zero and its extrema reset. The pointer \<open>currentMemoryStat\<close> is nil until the first successful read
  of the memory statistics; dereferencing it panics.
\<close>

definition reset_reader :: "time \<Rightarrow> netPerfReader \<Rightarrow> netPerfReader" where
  "reset_reader now r =
     r\<lparr>r_TX := 0, r_lastDataPointTime := now, r_hasStats := False,
       r_TTFBH := 0, r_TTFBL := max_i64, r_RMSH := 0, r_RMSL := max_i64\<rparr>"

definition data_point ::
  "env \<Rightarrow> host_stats \<Rightarrow> float64 \<Rightarrow> time \<Rightarrow> test \<Rightarrow> netPerfReader \<Rightarrow> DP" where
  "data_point e g used now t r =
     (let tx = r_TX r;
          totalSecs = Seconds (now - r_lastDataPointTime r);
          txtotal = fdiv (float_of_int (int (unat tx))) totalSecs
      in \<lparr>dp_Type = c_TestType (t_Config t), dp_TestID = t_ID t, dp_Created = now,
          dp_Local = (if e_realIP e \<noteq> [] then e_realIP e else e_bindAddress e),
          dp_Remote = r_addr r, dp_RMSH = r_RMSH r, dp_RMSL = r_RMSL r,
          dp_TTFBH = r_TTFBH r, dp_TTFBL = r_TTFBL r,
          dp_TX = u64_of_float (e_impl_u64 e) txtotal, dp_TXTotal = tx,
          dp_TXCount = r_TXCount r, dp_ErrCount = int (length (t_errors t)),
          dp_DroppedPackets = droppedPackets g,
          dp_MemoryUsedPercent = int_of_float (e_impl_int e) used,
          dp_CPUUsedPercent = int_of_float (e_impl_int e) (cpuPercent g),
          dp_Received = zero_time\<rparr>)"

definition reader_point ::
  "env \<Rightarrow> host_stats \<Rightarrow> time \<Rightarrow> test \<Rightarrow> netPerfReader \<Rightarrow> (netPerfReader \<times> DP) outcome" where
  "reader_point e g now t r =
     (case memPercent g of
        None \<Rightarrow> Panic ''nil pointer dereference''
      | Some used \<Rightarrow> Return (reset_reader now r, data_point e g used now t r))"

fun gen_readers ::
  "env \<Rightarrow> host_stats \<Rightarrow> time \<Rightarrow> test \<Rightarrow> netPerfReader list \<Rightarrow> (netPerfReader list \<times> DP list) outcome" where
  "gen_readers e g now t [] = Return ([], [])"
| "gen_readers e g now t (r # rs) =
     (if \<not> r_hasStats r
      then bind_outcome (gen_readers e g now t rs) (\<lambda>(rs', ds). Return (r # rs', ds))
      else bind_outcome (reader_point e g now t r)
             (\<lambda>(r', d). bind_outcome (gen_readers e g now t rs) (\<lambda>(rs', ds). Return (r' # rs', d # ds))))"

definition generateDataPoints :: "env \<Rightarrow> host_stats \<Rightarrow> time \<Rightarrow> test \<Rightarrow> test outcome" where
  "generateDataPoints e g now t =
     bind_outcome (gen_readers e g now t (t_Readers t))
       (\<lambda>(rs, ds). Return (t\<lparr>t_Readers := rs, t_DPS := t_DPS t @ ds\<rparr>))"

section \<open>Sending and saving\<close>

definition save_line :: "time \<Rightarrow> handle option \<Rightarrow> FilePrefix \<Rightarrow> bytes \<Rightarrow> fsys \<Rightarrow> fsys" where
  "save_line now h f b fs =
     Write now h [CHR 0x0A] (Write now h b (Write now h (FilePrefix_String f) fs))"

fun save_points :: "json \<Rightarrow> time \<Rightarrow> DP list \<Rightarrow> test \<Rightarrow> fsys \<Rightarrow> test \<times> fsys" where
  "save_points js now [] t fs = (t, fs)"
| "save_points js now (d # ds) t fs =
     (if c_Save (t_Config t) then
        (case js_dp js d of
           Inl er \<Rightarrow>
             (let t1 = AddError now (Some er) ''datapoint-marshaling'' t
              in save_points js now ds t1 (save_line now (t_DataFile t1) DataPoint [] fs))
         | Inr b \<Rightarrow> save_points js now ds t (save_line now (t_DataFile t) DataPoint b fs))
      else save_points js now ds t fs)"

fun save_errors :: "json \<Rightarrow> time \<Rightarrow> TError list \<Rightarrow> test \<Rightarrow> fsys \<Rightarrow> test \<times> fsys" where
  "save_errors js now [] t fs = (t, fs)"
| "save_errors js now (x # xs) t fs =
     (if c_Save (t_Config t) then
        (case js_err js x of
           Inl er \<Rightarrow>
             (let t1 = AddError now (Some er) ''error-marshaling'' t
              in save_errors js now xs t1 (save_line now (t_DataFile t1) ErrorPoint [] fs))
         | Inr b \<Rightarrow> save_errors js now xs t (save_line now (t_DataFile t) ErrorPoint b fs))
      else save_errors js now xs t fs)"

text \<open>A connection whose write fails is closed and forgotten.\<close>

fun send_cons :: "WebsocketSignal \<Rightarrow> (string \<times> nat) list \<Rightarrow> net \<Rightarrow> (string \<times> nat) list \<times> net" where
  "send_cons wss [] n = ([], n)"
| "send_cons wss ((uid, con) # cs) n =
     (case WriteJSON con wss n of
        (n1, True) \<Rightarrow> (let (cs', n2) = send_cons wss cs n1 in ((uid, con) # cs', n2))
      | (n1, False) \<Rightarrow> send_cons wss cs (CloseCon con n1))"

definition stats_signal :: "DP list \<Rightarrow> TError list \<Rightarrow> WebsocketSignal" where
  "stats_signal ds es =
     zero_signal\<lparr>ws_SType := Stats, ws_DataPoint := Some \<lparr>dr_DPS = ds, dr_Errors = es\<rparr>\<rparr>"

definition sendAndSaveData ::
  "env \<Rightarrow> json \<Rightarrow> time \<Rightarrow> test \<Rightarrow> fsys \<Rightarrow> net \<Rightarrow> test \<times> fsys \<times> net" where
  "sendAndSaveData e js now t fs n =
     (let (t0, fs0) =
        (if t_DataFile t = None \<and> c_Save (t_Config t)
         then (let (tn, fsn, _) = newTestFile (e_basePath e) now t fs in (tn, fsn)) else (t, fs));
          ds = t_DPS t0;
          (t1, fs1) = save_points js now ds t0 fs0;
          t2 = t1\<lparr>t_DPS := []\<rparr>;
          errorsClone = t_errors t2;
          t3 = t2\<lparr>t_errors := [], t_errMap := {}\<rparr>;
          (t4, fs2) = save_errors js now errorsClone t3 fs1;
          (cs, n1) = send_cons (stats_signal ds errorsClone) (t_cons t4) n
      in (t4\<lparr>t_cons := cs\<rparr>, fs2, n1))"

section \<open>Stopping and listening\<close>

definition stop_one :: "WebsocketSignal \<Rightarrow> test \<Rightarrow> test" where
  "stop_one s t =
     (if c_TestID (ws_Config s) \<noteq> [] \<and> c_TestID (ws_Config s) \<noteq> t_ID t then t
      else cancel_test ''Client called StopAllTests'' t)"

definition stopAllTests :: "nat \<Rightarrow> WebsocketSignal \<Rightarrow> test list \<Rightarrow> net \<Rightarrow> test list \<times> net" where
  "stopAllTests con s ts n = (map (stop_one s) ts, fst (SendDone con n))"

text \<open>An assignment to a key of the map of connections.\<close>

definition put_con :: "string \<Rightarrow> nat \<Rightarrow> (string \<times> nat) list \<Rightarrow> (string \<times> nat) list" where
  "put_con uid con cs = filter (\<lambda>e. fst e \<noteq> uid) cs @ [(uid, con)]"

definition listen_one :: "string \<Rightarrow> nat \<Rightarrow> WebsocketSignal \<Rightarrow> test \<Rightarrow> test" where
  "listen_one uid con s t =
     (if c_TestID (ws_Config s) \<noteq> [] \<and> t_ID t \<noteq> c_TestID (ws_Config s) then t
      else t\<lparr>t_cons := put_con uid con (t_cons t)\<rparr>)"

definition listenToLiveTests :: "string \<Rightarrow> nat \<Rightarrow> WebsocketSignal \<Rightarrow> test list \<Rightarrow> test list" where
  "listenToLiveTests uid con s ts = map (listen_one uid con s) ts"

text \<open>\<open>sendAllDataPoints\<close>, which no other function calls.\<close>

definition sendAllDataPoints :: "nat \<Rightarrow> test \<Rightarrow> net \<Rightarrow> net \<times> bool" where
  "sendAllDataPoints con t n = WriteJSON con (stats_signal (t_DPS t) (t_errors t)) n"

section \<open>Lemmas\<close>

text \<open>What the readers of a new test are.\<close>

definition fresh_reader :: "time \<Rightarrow> Config \<Rightarrow> string \<Rightarrow> netPerfReader" where
  "fresh_reader now c h =
     \<lparr>r_hasStats = False, r_buf = replicate (nat (c_PayloadSize c)) (CHR 0x00),
      r_addr = JoinHostPort h (c_Port c), r_ip = h, r_TXCount = 0, r_TX = 0,
      r_concurrency = map int [1 ..< Suc (nat (c_Concurrency c))],
      r_TTFBH = 0, r_TTFBL = max_i64, r_RMSH = 0, r_RMSL = max_i64, r_lastDataPointTime = now\<rparr>"

definition kept_hosts :: "env \<Rightarrow> Config \<Rightarrow> string list" where
  "kept_hosts e c = filter (\<lambda>h. \<not> skip_host e (JoinHostPort h (c_Port c))) (c_Hosts c)"

lemma make_readers_valid:
  assumes "0 \<le> c_PayloadSize c" and "0 \<le> c_Concurrency c"
  shows "make_readers e now c hs =
    Return (map (fresh_reader now c) (filter (\<lambda>h. \<not> skip_host e (JoinHostPort h (c_Port c))) hs))"
  using assms
  by (induction hs) (auto simp: newPerformanceReaderForASingleHost_def fresh_reader_def)

lemma newTest_result:
  assumes "0 \<le> c_PayloadSize c" and "0 \<le> c_Concurrency c"
  shows "snd (newTest e rm_err now c fs) =
    (if kept_hosts e c = [] then Error err_no_readers
     else Return ((if c_Save c
         then fst (newTestFile (e_basePath e) now (empty_test now c)
                (fst (resetTestFiles rm_err (e_basePath e) (c_TestID c) fs)))
         else empty_test now c)\<lparr>t_Readers := map (fresh_reader now c) (kept_hosts e c)\<rparr>))"
proof -
  have "t_ID (empty_test now c) = c_TestID c" by (simp add: empty_test_def)
  then show ?thesis
    by (simp add: newTest_def make_readers_valid [OF assms] kept_hosts_def split_beta Let_def)
qed

lemma newTest_files:
  "fst (newTest e rm_err now c fs) =
    (if c_Save c
     then fst (snd (newTestFile (e_basePath e) now (empty_test now c)
            (fst (resetTestFiles rm_err (e_basePath e) (c_TestID c) fs))))
     else fs)"
  by (simp add: newTest_def split_beta Let_def) (simp add: empty_test_def)

lemma gen_readers_total:
  assumes "memPercent g = Some used"
  shows "gen_readers e g now t rs =
    Return (map (\<lambda>r. if r_hasStats r then reset_reader now r else r) rs,
            map (data_point e g used now t) (filter r_hasStats rs))"
  using assms by (induction rs) (auto simp: reader_point_def)

lemma live_CloseCon [simp]: "\<not> live n con \<Longrightarrow> live (CloseCon con n) c = live n c"
  by (auto simp: live_def CloseCon_def)

lemma sent_to_CloseCon [simp]: "sent_to c (CloseCon con n) = sent_to c n"
  by (simp add: sent_to_def CloseCon_def)

lemma send_cons_spec:
  "fst (send_cons wss cs n) = filter (\<lambda>e. live n (snd e)) cs
   \<and> (\<forall>c. sent_to c (snd (send_cons wss cs n)) =
        sent_to c n @ (if live n c then replicate (length (filter (\<lambda>e. snd e = c) cs)) wss else []))"
proof (induction wss cs n rule: send_cons.induct)
  case (2 wss uid con cs n)
  show ?case
  proof (cases "live n con")
    case True
    then show ?thesis using 2(1)
      by (auto simp: split_beta sent_to_def)
  next
    case False
    then show ?thesis using 2(2) by auto
  qed
qed simp

text \<open>The flush appends one line per item to the file of the test.\<close>

lemma Write_line:
  "save_line now h f b fs = Write now h (FilePrefix_String f @ b @ [CHR 0x0A]) fs"
  by (cases "(now, h, b, fs)" rule: Write.cases) (auto simp: save_line_def)

lemma save_points_ok:
  assumes "c_Save (t_Config t)" and "\<forall>d \<in> set ds. js_dp js d = Inr (enc d)"
  shows "save_points js now ds t fs =
    (t, write_lines now (t_DataFile t) (map (\<lambda>d. FilePrefix_String DataPoint @ enc d) ds) fs)"
  using assms by (induction ds arbitrary: fs) (auto simp: Write_line write_lines_def)

lemma save_errors_ok:
  assumes "c_Save (t_Config t)" and "\<forall>x \<in> set xs. js_err js x = Inr (enc x)"
  shows "save_errors js now xs t fs =
    (t, write_lines now (t_DataFile t) (map (\<lambda>x. FilePrefix_String ErrorPoint @ enc x) xs) fs)"
  using assms by (induction xs arbitrary: fs) (auto simp: Write_line write_lines_def)

lemma save_points_off: "\<not> c_Save (t_Config t) \<Longrightarrow> save_points js now ds t fs = (t, fs)"
  by (induction ds arbitrary: fs) auto

lemma save_errors_off: "\<not> c_Save (t_Config t) \<Longrightarrow> save_errors js now xs t fs = (t, fs)"
  by (induction xs arbitrary: fs) auto

lemma resetTestFiles_ready:
  assumes "store_ready base b fs" and "plain_id tid" and "\<forall>p. rm_err p = None"
  defines "fs' \<equiv> fst (resetTestFiles rm_err base tid fs)"
  shows "store_ready base b fs'"
    and "content fs' r = (if \<exists>n. r = b @ [tid @ n] then None else content fs r)"
proof -
  have cont: "content fs' r = (if \<exists>n. r = b @ [tid @ n] then None else content fs r)" for r
    using assms(3) Glob_files(2) [OF assms(1,2)] in_paths_iff [of r fs]
    by (auto simp: fs'_def resetTestFiles_def remove_until_error_all)
  have ok: "fs_ok fs'" using store_readyD(2) [OF assms(1)]
    by (auto simp: fs'_def resetTestFiles_def intro: inv_intros split: option.split)
  have dirs: "fs_dirs (fst (remove_until_error rm_err ps f)) = fs_dirs f" for ps f
    by (induction ps arbitrary: f) (auto simp: Remove_def split: option.split)
  have "fs_dirs fs' = fs_dirs fs" by (simp add: fs'_def resetTestFiles_def dirs split: option.split)
  moreover have "set (paths fs') \<subseteq> set (paths fs)"
    using cont by (auto simp: in_paths_iff split: if_splits)
  ultimately show "store_ready base b fs'"
    using store_ready_frame [OF assms(1) ok] by blast
  show "content fs' r = (if \<exists>n. r = b @ [tid @ n] then None else content fs r)" by (rule cont)
qed

text \<open>The files that a saved test leaves: those of the same prefix are gone, its own first file is empty.\<close>

lemma newTest_saved:
  assumes "store_ready (e_basePath e) b fs" and "plain_id (c_TestID c)" and "\<forall>p. rm_err p = None" and "c_Save c"
  obtains fs' i where "fst (newTest e rm_err now c fs) = fs'" and "store_ready (e_basePath e) b fs'"
    and "map_of (fs_names fs') (b @ [c_TestID c @ ''.1'']) = Some i" and "fs_data fs' i = []"
    and "\<And>q. content fs' q = (if q = b @ [c_TestID c @ ''.1''] then Some []
       else if \<exists>n. q = b @ [c_TestID c @ n] then None else content fs q)"
    and "\<And>t. snd (newTest e rm_err now c fs) = Return t \<Longrightarrow>
       t_DataFile t = Some (Open i) \<and> t_Config t = c \<and> t_ID t = c_TestID c \<and> t_DPS t = [] \<and> t_errors t = []"
proof -
  let ?tid = "c_TestID c" and ?base = "e_basePath e"
  let ?fs = "fst (resetTestFiles rm_err ?base ?tid fs)"
  note ready = resetTestFiles_ready(1) [OF assms(1-3)] and cont = resetTestFiles_ready(2) [OF assms(1-3)]
  let ?t0 = "empty_test now c"
  have t0: "t_ID ?t0 = ?tid" "t_DataFileIndex ?t0 = 0" "t_Config ?t0 = c" "t_DPS ?t0 = []" "t_errors ?t0 = []"
    by (simp_all add: empty_test_def)
  have name: "b @ [?tid @ ''.1''] = b @ [file_name (t_ID ?t0) (t_DataFileIndex ?t0 + 1)]"
    using t0 by (simp add: file_name_def) code_simp
  have slash: "CHR ''/'' \<notin> set (t_ID ?t0)" using assms(2) by (simp add: plain_id_def t0)
  have fresh: "b @ [?tid @ ''.1''] \<notin> set (paths ?fs)" by (simp add: in_paths_iff cont)
  obtain t' fs' where new: "newTestFile ?base now ?t0 ?fs = (t', fs', None)"
    "t' = ?t0\<lparr>t_DataFileIndex := t_DataFileIndex ?t0 + 1, t_DataFile := Some (Open (fs_next ?fs))\<rparr>" "fs_ok fs'"
    "map_of (fs_names fs') (b @ [?tid @ ''.1'']) = Some (fs_next ?fs)" "fs_data fs' (fs_next ?fs) = []"
    "fs_dirs fs' = fs_dirs ?fs" "\<And>r. r \<noteq> b @ [?tid @ ''.1''] \<Longrightarrow> content fs' r = content ?fs r"
    "set (paths fs') = insert (b @ [?tid @ ''.1'']) (set (paths ?fs))"
    by (rule newTestFile_ready [OF ready slash name fresh, of now]) blast
  have nt: "newTest e rm_err now c fs = (fs', case make_readers e now c (c_Hosts c) of
      Panic p \<Rightarrow> Panic p | Error er \<Rightarrow> Error er
    | Return rs \<Rightarrow> if length rs = 0 then Error err_no_readers else Return (t'\<lparr>t_Readers := rs\<rparr>))"
    using assms(4) new(1) by (cases "make_readers e now c (c_Hosts c)") (simp_all add: newTest_def t0 split_beta Let_def)
  show ?thesis
  proof (rule that [of fs' "fs_next ?fs"])
    show "store_ready ?base b fs'"
      by (rule store_ready_frame [OF ready new(3,6)]) (use new(8) in auto)
    show "content fs' q = (if q = b @ [?tid @ ''.1''] then Some []
       else if \<exists>n. q = b @ [?tid @ n] then None else content fs q)" for q
      using new(4,5,7) cont [of q] by (auto simp: content_def)
    show "t_DataFile t = Some (Open (fs_next ?fs)) \<and> t_Config t = c \<and> t_ID t = ?tid \<and> t_DPS t = [] \<and> t_errors t = []"
      if "snd (newTest e rm_err now c fs) = Return t" for t
      using that by (auto simp: nt new(2) t0 split: outcome.splits if_splits)
  qed (simp_all add: nt new(4,5))
qed

text \<open>What a flush of a saved test does to its record, the files and the network.\<close>

lemma flush_saved:
  assumes "c_Save (t_Config t)" and "t_DataFile t = Some (Open i)"
    and "\<forall>d \<in> set (t_DPS t). js_dp js d = Inr (encd d)" and "\<forall>x \<in> set (t_errors t). js_err js x = Inr (ence x)"
  defines "wss \<equiv> stats_signal (t_DPS t) (t_errors t)"
  shows "sendAndSaveData e js now t fs n =
    (t\<lparr>t_DPS := [], t_errors := [], t_errMap := {}, t_cons := fst (send_cons wss (t_cons t) n)\<rparr>,
     write_lines now (Some (Open i)) (map (\<lambda>d. ''0'' @ encd d) (t_DPS t) @ map (\<lambda>x. ''1'' @ ence x) (t_errors t)) fs,
     snd (send_cons wss (t_cons t) n))"
proof -
  let ?fs1 = "write_lines now (Some (Open i)) (map (\<lambda>d. CHR ''0'' # encd d) (t_DPS t)) fs"
  have "save_points js now (t_DPS t) t fs = (t, ?fs1)"
    using save_points_ok [OF assms(1,3)] assms(2) by simp
  moreover have "save_errors js now (t_errors t) (t\<lparr>t_DPS := [], t_errors := [], t_errMap := {}\<rparr>) ?fs1 =
      (t\<lparr>t_DPS := [], t_errors := [], t_errMap := {}\<rparr>,
       write_lines now (Some (Open i)) (map (\<lambda>x. CHR ''1'' # ence x) (t_errors t)) ?fs1)"
    using save_errors_ok [of "t\<lparr>t_DPS := [], t_errors := [], t_errMap := {}\<rparr>"] assms(1,2,4) by simp
  ultimately show ?thesis
    using assms(2) by (simp add: sendAndSaveData_def Let_def split_beta wss_def write_lines_def)
qed

section \<open>Properties\<close>

text \<open>
  A configuration with non-negative sizes is never a panic: the test gets exactly one reader, in
  the order of the host list and with all its tokens, for every host whose address the server does not
  take for its own; without any such host the test is refused.
\<close>

theorem newTest_readers:
  assumes "0 \<le> c_PayloadSize c" and "0 \<le> c_Concurrency c"
  shows "case snd (newTest e rm_err now c fs) of
      Return t \<Rightarrow> t_ID t = c_TestID c \<and> t_cause t = None \<and> kept_hosts e c \<noteq> []
        \<and> t_Readers t = map (fresh_reader now c) (kept_hosts e c)
    | Error er \<Rightarrow> er = err_no_readers \<and> kept_hosts e c = []
    | Panic p \<Rightarrow> False"
proof -
  have "t_ID (fst (newTestFile b now t f)) = t_ID t" "t_cause (fst (newTestFile b now t f)) = t_cause t"
    for b t f
    by (auto simp: newTestFile_def Let_def split: prod.split option.split sum.split)
  then show ?thesis
    by (auto simp: newTest_result [OF assms] empty_test_def)
qed

text \<open>
  C4: One flush of a saved test. Every live listener gets one signal with all pending data points and
  errors, listeners whose connection is dead are dropped, the file grows by one line per data point and
  then one per error, every other file keeps its content, and nothing is pending afterwards: each data
  point and error is sent and saved exactly once.
\<close>

theorem sendAndSaveData_flushes:
  assumes "c_Save (t_Config t)" and "t_DataFile t = Some (Open i)"
    and "fs_ok fs" and "map_of (fs_names fs) p = Some i"
    and "\<forall>d \<in> set (t_DPS t). js_dp js d = Inr (encd d)" and "\<forall>x \<in> set (t_errors t). js_err js x = Inr (ence x)"
  defines "msg \<equiv> stats_signal (t_DPS t) (t_errors t)"
  shows "case sendAndSaveData e js now t fs n of (t', fs', n') \<Rightarrow>
      t' = t\<lparr>t_DPS := [], t_errors := [], t_errMap := {},
             t_cons := filter (\<lambda>uc. live n (snd uc)) (t_cons t)\<rparr>
      \<and> content fs' q = (if q = p then Some (fs_data fs i @ join_lines
            (map (\<lambda>d. ''0'' @ encd d) (t_DPS t) @ map (\<lambda>x. ''1'' @ ence x) (t_errors t)))
          else content fs q)
      \<and> sent_to con n' = sent_to con n @
          (if live n con then replicate (length (filter (\<lambda>uc. snd uc = con) (t_cons t))) msg else [])"
proof -
  let ?ls = "map (\<lambda>d. ''0'' @ encd d) (t_DPS t) @ map (\<lambda>x. ''1'' @ ence x) (t_errors t)"
  show ?thesis
    using write_lines_spec [OF assms(3,4), where now = now and ls = ?ls and q = q] send_cons_spec [of msg "t_cons t" n]
    by (simp add: flush_saved [OF assms(1,2,5,6)] msg_def)
qed

text \<open>
  A test that the server refuses because it has no host to reach has already destroyed the saved
  results of every test whose identifier starts with its own: those files are gone and an empty first
  file of the refused test is left behind.
\<close>

theorem refused_test_loses_files:
  assumes "store_ready (e_basePath e) b fs" and "plain_id (c_TestID c)" and "\<forall>p. rm_err p = None"
    and "c_Save c" and "0 \<le> c_PayloadSize c" and "0 \<le> c_Concurrency c"
    and "kept_hosts e c = []"
  shows "snd (newTest e rm_err now c fs) = Error err_no_readers
    \<and> content (fst (newTest e rm_err now c fs)) q =
      (if q = b @ [c_TestID c @ ''.1''] then Some []
       else if \<exists>n. q = b @ [c_TestID c @ n] then None else content fs q)"
proof -
  obtain fs' i where "fst (newTest e rm_err now c fs) = fs'"
    "\<And>q. content fs' q = (if q = b @ [c_TestID c @ ''.1''] then Some []
       else if \<exists>n. q = b @ [c_TestID c @ n] then None else content fs q)"
    by (rule newTest_saved [OF assms(1-4), of now]) blast
  then show ?thesis using assms(5-7) by (simp add: newTest_result)
qed


text \<open>
  The check against the server's real address is a substring test, so a server whose real IP is
  a prefix of another host's address never measures that host.
\<close>

theorem real_ip_substring_skips:
  assumes "e_realIP e \<noteq> []" and "CHR '':'' \<notin> set (e_realIP e @ d)" and "h = e_realIP e @ d"
  shows "h \<notin> set (kept_hosts e c)"
proof -
  have "Contains (JoinHostPort h (c_Port c)) (e_realIP e)"
    using assms by (force simp: JoinHostPort_def Contains_iff)
  then show ?thesis using assms by (simp add: kept_hosts_def skip_host_def)
qed

section \<open>Witnesses\<close>

definition demo_config :: Config where
  "demo_config = zero_config\<lparr>c_TestID := ''lat'', c_Save := True, c_Port := ''9000'',
     c_PayloadSize := 3, c_Concurrency := 2, c_TestType := RequestTest,
     c_Hosts := [''10.0.0.1'', ''10.0.0.12'', ''10.0.0.2'']\<rparr>"

definition demo_env :: env where
  "demo_env = \<lparr>e_bindAddress = ''10.0.0.2:9000'', e_realIP = [], e_basePath = ''/d/'',
     e_impl_u64 = 0, e_impl_int = 0\<rparr>"

definition demo_stats :: host_stats where
  "demo_stats = \<lparr>memPercent = Some (Fin 50), droppedPackets = 0, cpuPercent = Fin 7\<rparr>"

theorem newTest_readers_witness:
  "case snd (newTest demo_env (\<lambda>_. None) 5 demo_config demo_fs) of
      Return t \<Rightarrow> t_Readers t = map (fresh_reader 5 demo_config) [''10.0.0.1'', ''10.0.0.12'']
    | _ \<Rightarrow> False"
proof -
  have k: "kept_hosts demo_env demo_config = [''10.0.0.1'', ''10.0.0.12'']" by code_simp
  have "0 \<le> c_PayloadSize demo_config" "0 \<le> c_Concurrency demo_config"
    by (simp_all add: demo_config_def)
  from newTest_readers [OF this, where e = demo_env and rm_err = "\<lambda>_. None" and now = 5 and fs = demo_fs]
  show ?thesis by (simp add: k split: outcome.splits)
qed

definition demo_json :: json where
  "demo_json = \<lparr>js_dp = (\<lambda>d. Inr (''{'' @ dp_TestID d @ ''}'')), js_err = (\<lambda>x. Inr (''['' @ te_Error x @ '']''))\<rparr>"

theorem sendAndSaveData_flushes_witness:
  "case sendAndSaveData demo_env demo_json 5
      ((demo_test ''lat'')\<lparr>t_DataFile := Some (Open 0),
        t_DPS := [zero_dp\<lparr>dp_TestID := ''lat''\<rparr>], t_errors := [\<lparr>te_Error = ''e'', te_Created = 4\<rparr>],
        t_cons := [(''u'', 0)]\<rparr>) demo_fs demo_net of
    (t', fs', n') \<Rightarrow> t_DPS t' = [] \<and> length (sent_to 0 n') = 1
      \<and> content fs' [''d'', ''lat.1''] = Some (fs_data demo_fs 0 @ join_lines [''0{lat}'', ''1[e]''])"
proof -
  let ?t = "(demo_test ''lat'')\<lparr>t_DataFile := Some (Open 0),
        t_DPS := [zero_dp\<lparr>dp_TestID := ''lat''\<rparr>], t_errors := [\<lparr>te_Error = ''e'', te_Created = 4\<rparr>],
        t_cons := [(''u'', 0)]\<rparr>"
  have "c_Save (t_Config ?t)" "t_DataFile ?t = Some (Open 0)" "fs_ok demo_fs"
    "map_of (fs_names demo_fs) [''d'', ''lat.1''] = Some 0"
    "\<forall>d \<in> set (t_DPS ?t). js_dp demo_json d = Inr (''{'' @ dp_TestID d @ ''}'')"
    "\<forall>x \<in> set (t_errors ?t). js_err demo_json x = Inr (''['' @ te_Error x @ '']'')"
    using store_readyD(2) [OF demo_ready]
    by (simp_all add: demo_test_def demo_json_def) (simp add: demo_fs_def)
  from sendAndSaveData_flushes [OF this, where e = demo_env and now = 5 and n = demo_net
      and q = "[''d'', ''lat.1'']" and con = 0]
  show ?thesis
    by (auto simp: demo_live zero_dp_def split: prod.splits) (simp add: sent_to_def demo_net_def)
qed

theorem refused_test_loses_files_witness:
  "snd (newTest demo_env (\<lambda>_. None) 5 (demo_config\<lparr>c_Hosts := [''10.0.0.2'']\<rparr>) demo_fs) = Error err_no_readers
    \<and> content demo_fs [''d'', ''lat-2.1''] = Some []
    \<and> content (fst (newTest demo_env (\<lambda>_. None) 5 (demo_config\<lparr>c_Hosts := [''10.0.0.2'']\<rparr>) demo_fs))
        [''d'', ''lat-2.1''] = None"
proof -
  let ?c = "demo_config\<lparr>c_Hosts := [''10.0.0.2'']\<rparr>"
  have ready: "store_ready (e_basePath demo_env) [''d''] demo_fs"
    using demo_ready by (simp add: demo_env_def)
  have c: "plain_id (c_TestID ?c)" "c_Save ?c" "0 \<le> c_PayloadSize ?c" "0 \<le> c_Concurrency ?c"
    "c_TestID ?c = ''lat''"
    using plain_id_demo by (simp_all add: demo_config_def)
  have k: "kept_hosts demo_env ?c = []" by code_simp
  have r: "\<forall>p. (\<lambda>_ :: path. None :: string option) p = None" by simp
  have "content demo_fs [''d'', ''lat-2.1''] = Some []" by code_simp
  then show ?thesis
    using refused_test_loses_files [OF ready c(1) r c(2-4) k, where now = 5 and q = "[''d'', ''lat-2.1'']"]
    by (simp add: c(5))
qed

definition busy_reader :: netPerfReader where
  "busy_reader = (fresh_reader 0 demo_config ''10.0.0.1'')\<lparr>r_hasStats := True, r_TX := 6, r_TXCount := 2\<rparr>"


theorem real_ip_substring_skips_witness:
  "''10.0.0.12'' \<in> set (c_Hosts demo_config)
    \<and> ''10.0.0.12'' \<notin> set (kept_hosts (demo_env\<lparr>e_realIP := ''10.0.0.1''\<rparr>) demo_config)"
proof
  show "''10.0.0.12'' \<in> set (c_Hosts demo_config)" by (simp add: demo_config_def)
  show "''10.0.0.12'' \<notin> set (kept_hosts (demo_env\<lparr>e_realIP := ''10.0.0.1''\<rparr>) demo_config)"
    by (rule real_ip_substring_skips [where d = "''2''"]) simp_all
qed

end
