(* ===== verification/ServerReader.thy ===== *)
theory ServerReader
  imports ServerTest
begin

text \<open>
  The traffic of a test in \<open>server/server.go\<close>: \<open>asyncReader.Read\<close>, which feeds a request body,
  \<open>sendRequestToHost\<close> and \<open>startPerformanceReader\<close>. A test runs with its goroutines as a step
  relation: per reader a loop that takes a token from the channel \<open>concurrency\<close> and starts a request,
  and the requests in flight, each holding its token until its deferred function returns it. Tokens in
  the channel and in flight are always the tokens \<open>1 .. Concurrency\<close>.
\<close>

section \<open>Read\<close>

record asyncReader =
  a_i :: int
  a_ttfb :: bool
  a_start :: time

definition new_asyncReader :: "time \<Rightarrow> asyncReader" where
  "new_asyncReader now = \<lparr>a_i = 0, a_ttfb = False, a_start = now\<rparr>"

text \<open>The part under the reader's lock: time to first byte, once per request, and \<open>hasStats\<close>.\<close>

definition register_read :: "time \<Rightarrow> asyncReader \<Rightarrow> netPerfReader \<Rightarrow> asyncReader \<times> netPerfReader" where
  "register_read now a r =
     (let (a1, r1) =
        (if a_ttfb a then (a, r)
         else (let since = micros (now - a_start a);
                   rh = (if sint (r_TTFBH r) < sint since then r\<lparr>r_TTFBH := since\<rparr> else r);
                   rl = (if sint since < sint (r_TTFBL rh) then rh\<lparr>r_TTFBL := since\<rparr> else rh)
               in (a\<lparr>a_ttfb := True\<rparr>, rl)))
      in (a1, r1\<lparr>r_hasStats := True\<rparr>))"

text \<open>
  \<open>Read(b)\<close> for a slice of \<open>room\<close> bytes: the bytes copied and whether it returned \<open>io.EOF\<close>. The
  slice expression \<open>buf[a.i:]\<close> is in range, since it is only reached with \<open>a.i < len(buf)\<close>.
\<close>

definition Read ::
  "TestType \<Rightarrow> bool \<Rightarrow> time \<Rightarrow> nat \<Rightarrow> asyncReader \<Rightarrow> netPerfReader \<Rightarrow>
   asyncReader \<times> netPerfReader \<times> bytes \<times> bool" where
  "Read typ ctx_done now room a r =
     (let (a1, r1) = register_read now a r in
      if ctx_done then (a1, r1, [], True)
      else if typ = StreamTest then
        (let b = take room (r_buf r1)
         in (a1, r1\<lparr>r_TX := r_TX r1 + of_nat (length b)\<rparr>, b, False))
      else if int (length (r_buf r1)) \<le> a_i a1 then (a1, r1, [], True)
      else
        (let b = take room (drop (nat (a_i a1)) (r_buf r1))
         in (a1\<lparr>a_i := a_i a1 + int (length b)\<rparr>,
             r1\<lparr>r_TX := r_TX r1 + of_nat (length b)\<rparr>, b, False)))"

text \<open>A consumer that reads into slices of the given sizes until the end of the body.\<close>

fun read_all ::
  "TestType \<Rightarrow> bool \<Rightarrow> time \<Rightarrow> nat list \<Rightarrow> asyncReader \<Rightarrow> netPerfReader \<Rightarrow>
   asyncReader \<times> netPerfReader \<times> bytes \<times> bool" where
  "read_all typ cd now [] a r = (a, r, [], False)"
| "read_all typ cd now (k # ks) a r =
     (case Read typ cd now k a r of
        (a1, r1, b, True) \<Rightarrow> (a1, r1, b, True)
      | (a1, r1, b, False) \<Rightarrow>
          (let (a2, r2, bs, eof) = read_all typ cd now ks a1 r1 in (a2, r2, b @ bs, eof)))"

section \<open>One request\<close>

datatype phase = Delayed | Sending asyncReader time

datatype response = Canceled | NetError string | Status int

definition request_route :: "TestType \<Rightarrow> string" where
  "request_route typ =
     (if typ = StreamTest then ''/stream'' else if typ = RequestTest then ''/requests'' else ''/404'')"

definition request_url :: "Config \<Rightarrow> netPerfReader \<Rightarrow> string" where
  "request_url c r =
     (if c_Insecure c then ''http://'' else ''https://'') @ r_addr r @ request_route (c_TestType c)"

text \<open>
  \<open>sendRequestToHost\<close> after its delay, up to the call of the HTTP client. \<open>bad_req\<close> is the error of
  \<open>http.NewRequestWithContext\<close> for a URL. The result is the test, the reader, and the phase of the
  request, \<open>None\<close> if the function returned.
\<close>

definition request_begin ::
  "(string \<Rightarrow> string option) \<Rightarrow> time \<Rightarrow> test \<Rightarrow> netPerfReader \<Rightarrow> test \<times> netPerfReader \<times> phase option" where
  "request_begin bad_req now t r =
     (if cancelled t then (t, r, None)
      else
        (let typ = c_TestType (t_Config t);
             t1 = (if typ = StreamTest \<or> typ = RequestTest then t
                   else AddError now (Some (''Unknown test type: '' @ Itoa (test_num typ))) ''unknown-signal'' t)
         in case bad_req (request_url (t_Config t) r) of
              Some er \<Rightarrow> (AddError now (Some er) ''network-new-request'' t1, r, None)
            | None \<Rightarrow>
                (t1, r\<lparr>r_TXCount := r_TXCount r + 1\<rparr>, Some (Sending (new_asyncReader now) now))))"

text \<open>The rest of \<open>sendRequestToHost\<close>, from the client's answer on.\<close>

definition request_end ::
  "time \<Rightarrow> time \<Rightarrow> response \<Rightarrow> test \<Rightarrow> netPerfReader \<Rightarrow> test \<times> netPerfReader" where
  "request_end sent now resp t r =
     (case resp of
        Canceled \<Rightarrow> (t, r)
      | NetError er \<Rightarrow> (AddError now (Some er) ''network-error'' t, r)
      | Status code \<Rightarrow>
          if code \<noteq> 200
          then (AddError now
                  (Some (''Status code was '' @ Itoa code @ '', expected 200 from host '' @ r_addr r))
                  ''invalid-status-code'' t, r)
          else
            (let d = micros (now - sent);
                 rh = (if sint (r_RMSH r) < sint d then r\<lparr>r_RMSH := d\<rparr> else r);
                 rl = (if sint d < sint (r_RMSL rh) then rh\<lparr>r_RMSL := d\<rparr> else rh)
             in (t, rl\<lparr>r_hasStats := True\<rparr>)))"

section \<open>The channel of tokens\<close>

text \<open>\<open>r.concurrency <- cid\<close> appends to the channel, a receive takes its head.\<close>

definition chan_send :: "int \<Rightarrow> netPerfReader \<Rightarrow> netPerfReader" where
  "chan_send cid r = r\<lparr>r_concurrency := r_concurrency r @ [cid]\<rparr>"

definition chan_recv :: "netPerfReader \<Rightarrow> (int \<times> netPerfReader) option" where
  "chan_recv r =
     (case r_concurrency r of [] \<Rightarrow> None | cid # q \<Rightarrow> Some (cid, r\<lparr>r_concurrency := q\<rparr>))"

section \<open>A test with its goroutines\<close>

text \<open>
  \<open>g_loops\<close>: the readers whose \<open>startPerformanceReader\<close> loop runs. \<open>g_reqs\<close>: the running calls of
  \<open>sendRequestToHost\<close>, as reader, token and phase.
\<close>

record trun =
  g_test :: test
  g_loops :: "nat list"
  g_reqs :: "(nat \<times> int \<times> phase) list"

definition put_reader :: "nat \<Rightarrow> netPerfReader \<Rightarrow> test \<Rightarrow> test" where
  "put_reader j r t = t\<lparr>t_Readers := (t_Readers t)[j := r]\<rparr>"

definition start_trun :: "test \<Rightarrow> trun" where
  "start_trun t = \<lparr>g_test = t, g_loops = [0 ..< length (t_Readers t)], g_reqs = []\<rparr>"

text \<open>
  One step of one goroutine of the traffic. A \<open>select\<close> with both cases ready may take either. A
  request of an unknown test type has no body to read.
\<close>

inductive traffic :: "(string \<Rightarrow> string option) \<Rightarrow> trun \<Rightarrow> trun \<Rightarrow> bool" for bad_req where
  dispatch:
  "j \<in> set (g_loops g) \<Longrightarrow> j < length (t_Readers (g_test g)) \<Longrightarrow>
   chan_recv (t_Readers (g_test g) ! j) = Some (cid, r') \<Longrightarrow>
   traffic bad_req g (g\<lparr>g_test := put_reader j r' (g_test g), g_reqs := (j, cid, Delayed) # g_reqs g\<rparr>)"
| loop_exit:
  "j \<in> set (g_loops g) \<Longrightarrow> cancelled (g_test g) \<Longrightarrow>
   traffic bad_req g (g\<lparr>g_loops := remove1 j (g_loops g)\<rparr>)"
| begin_send:
  "(j, cid, Delayed) \<in> set (g_reqs g) \<Longrightarrow> j < length (t_Readers (g_test g)) \<Longrightarrow>
   request_begin bad_req now (g_test g) (t_Readers (g_test g) ! j) = (t', r', Some ph) \<Longrightarrow>
   traffic bad_req g (g\<lparr>g_test := put_reader j r' t',
     g_reqs := (j, cid, ph) # remove1 (j, cid, Delayed) (g_reqs g)\<rparr>)"
| begin_return:
  "(j, cid, Delayed) \<in> set (g_reqs g) \<Longrightarrow> j < length (t_Readers (g_test g)) \<Longrightarrow>
   request_begin bad_req now (g_test g) (t_Readers (g_test g) ! j) = (t', r', None) \<Longrightarrow>
   traffic bad_req g (g\<lparr>g_test := put_reader j (chan_send cid r') t',
     g_reqs := remove1 (j, cid, Delayed) (g_reqs g)\<rparr>)"
| read_body:
  "(j, cid, Sending a sent) \<in> set (g_reqs g) \<Longrightarrow> j < length (t_Readers (g_test g)) \<Longrightarrow>
   Read (c_TestType (t_Config (g_test g))) (cancelled (g_test g)) now room a (t_Readers (g_test g) ! j)
     = (a', r', b, eof) \<Longrightarrow>
   c_TestType (t_Config (g_test g)) \<in> {RequestTest, StreamTest} \<Longrightarrow>
   traffic bad_req g (g\<lparr>g_test := put_reader j r' (g_test g),
     g_reqs := (j, cid, Sending a' sent) # remove1 (j, cid, Sending a sent) (g_reqs g)\<rparr>)"
| finish:
  "(j, cid, Sending a sent) \<in> set (g_reqs g) \<Longrightarrow> j < length (t_Readers (g_test g)) \<Longrightarrow>
   request_end sent now resp (g_test g) (t_Readers (g_test g) ! j) = (t', r') \<Longrightarrow>
   traffic bad_req g (g\<lparr>g_test := put_reader j (chan_send cid r') t',
     g_reqs := remove1 (j, cid, Sending a sent) (g_reqs g)\<rparr>)"

section \<open>The contract of a channel of tokens\<close>

locale token_chan =
  fixes send :: "'t \<Rightarrow> 'q \<Rightarrow> 'q"
    and recv :: "'q \<Rightarrow> ('t \<times> 'q) option"
    and toks :: "'q \<Rightarrow> 't multiset"
  assumes toks_send: "toks (send x q) = add_mset x (toks q)"
    and toks_recv: "recv q = Some (x, q') \<Longrightarrow> toks q = add_mset x (toks q')"
    and recv_empty: "recv q = None \<longleftrightarrow> toks q = {#}"
begin

lemma take_keeps: "recv q = Some (x, q') \<Longrightarrow> toks q' + add_mset x held = toks q + held"
  by (simp add: toks_recv)

lemma give_keeps: "toks (send x q) + held = toks q + add_mset x held"
  by (simp add: toks_send)

text \<open>A token that nobody holds can be taken.\<close>

lemma can_take: "toks q + held = allt \<Longrightarrow> held \<noteq> allt \<Longrightarrow> \<exists>x q'. recv q = Some (x, q')"
  using recv_empty [of q] by (cases "recv q") auto

text \<open>The channel never holds more than all tokens, so a send finds room.\<close>

lemma room: "toks q + add_mset x held = allt \<Longrightarrow> size (toks (send x q)) \<le> size allt"
  by (auto simp: toks_send)

end

interpretation tc: token_chan chan_send chan_recv "\<lambda>r. mset (r_concurrency r)"
  by unfold_locales (auto simp: chan_send_def chan_recv_def split: list.splits)

section \<open>Frame lemmas\<close>

lemma t_Readers_AddError [simp]: "t_Readers (AddError now er ident t) = t_Readers t"
  by (simp add: AddError_def split: option.split)

lemma t_cause_AddError [simp]: "t_cause (AddError now er ident t) = t_cause t"
  by (simp add: AddError_def split: option.split)

lemma register_read_frame:
  assumes "register_read now a r = (a', r')"
  shows "r_concurrency r' = r_concurrency r" "r_buf r' = r_buf r" "r_TX r' = r_TX r"
    "r_TXCount r' = r_TXCount r" "a_i a' = a_i a"
  using assms by (auto simp: register_read_def Let_def split: if_splits)

lemma Read_frame:
  assumes "Read typ cd now room a r = (a', r', b, eof)"
  shows "r_concurrency r' = r_concurrency r" "r_buf r' = r_buf r"
    "r_TX r' = r_TX r + of_nat (length b)" "r_TXCount r' = r_TXCount r"
proof -
  obtain a1 r1 where rr: "register_read now a r = (a1, r1)" by fastforce
  show "r_concurrency r' = r_concurrency r" "r_buf r' = r_buf r"
    "r_TX r' = r_TX r + of_nat (length b)" "r_TXCount r' = r_TXCount r"
    using assms register_read_frame [OF rr]
    by (auto simp: Read_def Let_def rr split: if_splits)
qed

lemma request_begin_frame:
  assumes "request_begin bad_req now t r = (t', r', ph)"
  shows "t_Readers t' = t_Readers t" "r_concurrency r' = r_concurrency r" "t_cause t' = t_cause t"
    "ph \<noteq> Some Delayed"
  using assms by (auto simp: request_begin_def Let_def split: if_splits option.splits)

lemma request_end_frame:
  assumes "request_end sent now resp t r = (t', r')"
  shows "t_Readers t' = t_Readers t" "r_concurrency r' = r_concurrency r" "t_cause t' = t_cause t"
    "r_TX r' = r_TX r"
  using assms by (auto simp: request_end_def Let_def split: response.splits if_splits)

lemma put_reader_simps [simp]:
  "t_Readers (put_reader j r t) = (t_Readers t)[j := r]"
  "t_cause (put_reader j r t) = t_cause t"
  "t_errors (put_reader j r t) = t_errors t"
  "t_errMap (put_reader j r t) = t_errMap t"
  "t_DPS (put_reader j r t) = t_DPS t"
  by (simp_all add: put_reader_def)

section \<open>Tokens are conserved\<close>

definition held :: "nat \<Rightarrow> (nat \<times> int \<times> phase) list \<Rightarrow> int multiset" where
  "held j qs = mset (map (\<lambda>q. fst (snd q)) (filter (\<lambda>q. fst q = j) qs))"

definition tokens :: "nat \<Rightarrow> trun \<Rightarrow> int multiset" where
  "tokens j g = mset (r_concurrency (t_Readers (g_test g) ! j)) + held j (g_reqs g)"

lemma held_Cons [simp]:
  "held k ((j, cid, ph) # qs) = (if k = j then add_mset cid (held k qs) else held k qs)"
  by (simp add: held_def)

lemma held_Nil [simp]: "held k [] = {#}"
  by (simp add: held_def)

lemma held_remove1:
  "(j, cid, ph) \<in> set qs \<Longrightarrow>
   held k qs = (if k = j then add_mset cid (held k (remove1 (j, cid, ph) qs))
                else held k (remove1 (j, cid, ph) qs))"
  by (induction qs) (auto simp: held_def)

lemma traffic_tokens:
  assumes "traffic bad_req g g'"
  shows "length (t_Readers (g_test g')) = length (t_Readers (g_test g))
    \<and> (k < length (t_Readers (g_test g)) \<longrightarrow> tokens k g' = tokens k g)"
  using assms
proof cases
  case (dispatch j cid r')
  then show ?thesis using tc.take_keeps [OF dispatch(4)]
    by (auto simp: tokens_def nth_list_update)
next
  case (begin_send j cid now t' r' ph)
  then show ?thesis using request_begin_frame [OF begin_send(4)] held_remove1 [OF begin_send(2), of k]
    by (auto simp: tokens_def nth_list_update)
next
  case (begin_return j cid now t' r')
  then show ?thesis
    using request_begin_frame [OF begin_return(4)] held_remove1 [OF begin_return(2), of k]
    by (auto simp: tokens_def nth_list_update tc.toks_send)
next
  case (read_body j cid a sent now room a' r' b eof)
  then show ?thesis using Read_frame [OF read_body(4)] held_remove1 [OF read_body(2), of k]
    by (auto simp: tokens_def nth_list_update)
next
  case (finish j cid a sent now resp t' r')
  then show ?thesis
    using request_end_frame [OF finish(4)] held_remove1 [OF finish(2), of k]
    by (auto simp: tokens_def nth_list_update tc.toks_send)
qed (simp add: tokens_def)

section \<open>Extrema\<close>

text \<open>
  A pair of extrema is untouched since the last reset, or the low one is at most the high one.
\<close>

definition extrema_ok :: "i64 \<Rightarrow> i64 \<Rightarrow> bool" where
  "extrema_ok lo hi \<longleftrightarrow> (hi = 0 \<and> lo = max_i64) \<or> sint lo \<le> sint hi"

definition reader_ok :: "netPerfReader \<Rightarrow> bool" where
  "reader_ok r \<longleftrightarrow> extrema_ok (r_RMSL r) (r_RMSH r) \<and> extrema_ok (r_TTFBL r) (r_TTFBH r)"

definition point_ok :: "DP \<Rightarrow> bool" where
  "point_ok d \<longleftrightarrow> extrema_ok (dp_RMSL d) (dp_RMSH d) \<and> extrema_ok (dp_TTFBL d) (dp_TTFBH d)"

lemma extrema_update:
  "extrema_ok (if sint d < sint lo then d else lo) (if sint hi < sint d then d else hi)"
  by (auto simp: extrema_ok_def)

lemma reader_ok_reset [inv_intros]: "reader_ok (reset_reader now r)"
  by (simp add: reader_ok_def reset_reader_def extrema_ok_def)

lemma reader_ok_fresh [inv_intros]: "reader_ok (fresh_reader now c h)"
  by (simp add: reader_ok_def fresh_reader_def extrema_ok_def)

lemma point_ok_data_point: "point_ok (data_point e g used now t r) = reader_ok r"
  by (simp add: point_ok_def data_point_def reader_ok_def Let_def)

lemma reader_ok_register:
  assumes "reader_ok r" and "register_read now a r = (a', r')"
  shows "reader_ok r'"
proof (cases "a_ttfb a")
  case False
  let ?d = "micros (now - a_start a)"
  have "r_TTFBL r' = (if sint ?d < sint (r_TTFBL r) then ?d else r_TTFBL r)"
    "r_TTFBH r' = (if sint (r_TTFBH r) < sint ?d then ?d else r_TTFBH r)"
    "r_RMSL r' = r_RMSL r" "r_RMSH r' = r_RMSH r"
    using assms(2) False by (auto simp: register_read_def Let_def split: if_splits)
  then show ?thesis
    using assms(1) extrema_update [of ?d "r_TTFBL r" "r_TTFBH r"] by (simp only: reader_ok_def)
qed (use assms in \<open>auto simp: register_read_def reader_ok_def\<close>)

lemma reader_ok_Read:
  assumes "reader_ok r" and "Read typ cd now room a r = (a', r', b, eof)"
  shows "reader_ok r'"
proof -
  obtain a1 r1 where rr: "register_read now a r = (a1, r1)" by fastforce
  then have "reader_ok r1" by (rule reader_ok_register [OF assms(1)])
  moreover have "r_RMSL r' = r_RMSL r1" "r_RMSH r' = r_RMSH r1"
    "r_TTFBL r' = r_TTFBL r1" "r_TTFBH r' = r_TTFBH r1"
    using assms(2) by (auto simp: Read_def Let_def rr split: if_splits)
  ultimately show ?thesis by (simp only: reader_ok_def)
qed

lemma reader_ok_begin:
  "reader_ok r \<Longrightarrow> request_begin bad_req now t r = (t', r', ph) \<Longrightarrow> reader_ok r'"
  by (auto simp: request_begin_def Let_def reader_ok_def split: if_splits option.splits)

lemma reader_ok_end:
  assumes "reader_ok r" and "request_end sent now resp t r = (t', r')"
  shows "reader_ok r'"
proof (cases "resp = Status 200")
  case True
  let ?d = "micros (now - sent)"
  have "r_RMSL r' = (if sint ?d < sint (r_RMSL r) then ?d else r_RMSL r)"
    "r_RMSH r' = (if sint (r_RMSH r) < sint ?d then ?d else r_RMSH r)"
    "r_TTFBL r' = r_TTFBL r" "r_TTFBH r' = r_TTFBH r"
    using assms(2) True by (auto simp: request_end_def Let_def split: if_splits)
  then show ?thesis
    using assms(1) extrema_update [of ?d "r_RMSL r" "r_RMSH r"] by (simp only: reader_ok_def)
qed (use assms in \<open>auto simp: request_end_def split: response.splits if_splits\<close>)

lemma reader_ok_chan [simp]:
  "reader_ok (chan_send cid r) = reader_ok r"
  "chan_recv r = Some (cid, r') \<Longrightarrow> reader_ok r' = reader_ok r"
  by (auto simp: reader_ok_def chan_send_def chan_recv_def split: list.splits)

lemma errs_ok_begin:
  "errs_ok t \<Longrightarrow> request_begin bad_req now t r = (t', r', ph) \<Longrightarrow> errs_ok t'"
  by (auto simp: request_begin_def Let_def intro: errs_ok_AddError split: if_splits option.splits)

lemma errs_ok_end:
  "errs_ok t \<Longrightarrow> request_end sent now resp t r = (t', r') \<Longrightarrow> errs_ok t'"
  by (auto simp: request_end_def Let_def intro: errs_ok_AddError split: if_splits response.splits)

lemma errs_ok_put_reader [simp]: "errs_ok (put_reader j r t) = errs_ok t"
  by (simp add: errs_ok_def)

section \<open>The invariant of a running test\<close>

definition test_ok :: "test \<Rightarrow> bool" where
  "test_ok t \<longleftrightarrow> errs_ok t \<and> (\<forall>r \<in> set (t_Readers t). reader_ok r) \<and> (\<forall>d \<in> set (t_DPS t). point_ok d)"

lemma t_DPS_AddError [simp]: "t_DPS (AddError now er ident t) = t_DPS t"
  by (simp add: AddError_def split: option.split)

lemma t_DPS_request:
  "request_begin bad_req now t r = (t', r', ph) \<Longrightarrow> t_DPS t' = t_DPS t"
  "request_end sent now resp t r = (t', r') \<Longrightarrow> t_DPS t' = t_DPS t"
  by (auto simp: request_begin_def request_end_def Let_def
      split: if_splits option.splits response.splits)

lemma test_ok_put_reader:
  assumes "test_ok t" and "reader_ok r" and "errs_ok t'" and "t_Readers t' = t_Readers t"
    and "t_DPS t' = t_DPS t"
  shows "test_ok (put_reader j r t')"
  using assms by (auto simp: test_ok_def dest: set_update_subset_insert [THEN subsetD])

lemma traffic_test_ok [inv_intros]:
  assumes "traffic bad_req g g'" and "test_ok (g_test g)"
  shows "test_ok (g_test g')"
proof -
  have errs: "errs_ok (g_test g)" using assms(2) by (simp add: test_ok_def)
  have ro: "j < length (t_Readers (g_test g)) \<Longrightarrow> reader_ok (t_Readers (g_test g) ! j)" for j
    using assms(2) by (simp add: test_ok_def)
  show ?thesis using assms(1)
  proof cases
    case (dispatch j cid r')
    then show ?thesis using ro [of j] by (auto intro: test_ok_put_reader [OF assms(2)] errs)
  next
    case (begin_send j cid now t' r' ph)
    then show ?thesis using ro [of j] request_begin_frame [OF begin_send(4)] t_DPS_request(1) [OF begin_send(4)]
      by (auto intro!: test_ok_put_reader [OF assms(2)] errs_ok_begin [OF errs] elim: reader_ok_begin [rotated])
  next
    case (begin_return j cid now t' r')
    then show ?thesis using ro [of j] request_begin_frame [OF begin_return(4)] t_DPS_request(1) [OF begin_return(4)]
      by (auto intro!: test_ok_put_reader [OF assms(2)] errs_ok_begin [OF errs] elim: reader_ok_begin [rotated])
  next
    case (read_body j cid a sent now room a' r' b eof)
    then show ?thesis using ro [of j]
      by (auto intro!: test_ok_put_reader [OF assms(2)] errs elim: reader_ok_Read [rotated])
  next
    case (finish j cid a sent now resp t' r')
    then show ?thesis using ro [of j] request_end_frame [OF finish(4)] t_DPS_request(2) [OF finish(4)]
      by (auto intro!: test_ok_put_reader [OF assms(2)] errs_ok_end [OF errs] elim: reader_ok_end [rotated])
  qed (use assms(2) in simp)
qed

section \<open>Reading a body\<close>

lemma Read_request:
  assumes "a_i a = int i" and "Read RequestTest False now k a r = (a', r', b, eof)"
  shows "b = take k (drop i (r_buf r)) \<and> a_i a' = int (i + length b)
    \<and> (eof \<longleftrightarrow> length (r_buf r) \<le> i) \<and> r_buf r' = r_buf r"
proof -
  obtain a1 r1 where rr: "register_read now a r = (a1, r1)" by fastforce
  show ?thesis
    using assms register_read_frame [OF rr] by (auto simp: Read_def rr Let_def split: if_splits)
qed

lemma read_all_request:
  assumes "a_i a = int i" and "i \<le> length (r_buf r)"
    and "read_all RequestTest False now ks a r = (a', r', bs, eof)"
  shows "bs = take (sum_list ks) (drop i (r_buf r))
    \<and> (eof \<longleftrightarrow> ks \<noteq> [] \<and> length (r_buf r) \<le> i + sum_list (butlast ks))
    \<and> r_TX r' = r_TX r + of_nat (length bs)"
  using assms
proof (induction ks arbitrary: a r i bs eof)
  case (Cons k ks)
  obtain a1 r1 b e where R: "Read RequestTest False now k a r = (a1, r1, b, e)"
    by (metis prod_cases4)
  note S = Read_request [OF Cons.prems(1) R] and F = Read_frame [OF R]
  show ?case
  proof (cases e)
    case True
    then show ?thesis using S F R Cons.prems by auto
  next
    case False
    obtain bs2 where A: "read_all RequestTest False now ks a1 r1 = (a', r', bs2, eof)" "bs = b @ bs2"
      using Cons.prems(3) R False by (auto split: prod.splits)
    have len: "i + length b \<le> length (r_buf r1)" using S False by auto
    note IH = Cons.IH [OF conjunct1 [OF conjunct2 [OF S]] len A(1)]
    have "bs = take (k + sum_list ks) (drop i (r_buf r))"
      using IH S A(2) by (auto simp: take_add min_def add.commute)
    moreover have "eof \<longleftrightarrow> length (r_buf r) \<le> i + sum_list (butlast (k # ks))"
      using IH S False by (cases ks) (auto simp: min_def)
    moreover have "r_TX r' = r_TX r + of_nat (length bs)"
      using IH F by (simp only: A(2) length_append of_nat_add add.assoc)
    ultimately show ?thesis by simp
  qed
qed auto

text \<open>
  C11: The body of a request of a request test. However the HTTP client slices its reads, it gets the
  payload from its beginning, in order and without gap or repetition; the end of the body is reported
  by a read exactly when the reads before it have taken the whole payload; and the reader's byte
  counter grows by the bytes delivered.
\<close>

theorem request_body_is_payload:
  assumes "read_all RequestTest False now ks (new_asyncReader start) r = (a', r', bs, eof)"
  shows "bs = take (sum_list ks) (r_buf r)
    \<and> (eof \<longleftrightarrow> ks \<noteq> [] \<and> length (r_buf r) \<le> sum_list (butlast ks))
    \<and> r_TX r' = r_TX r + of_nat (length bs)"
proof -
  have "a_i (new_asyncReader start) = int 0" by (simp add: new_asyncReader_def)
  from read_all_request [OF this _ assms] show ?thesis by simp
qed

theorem request_body_is_payload_witness:
  "case read_all RequestTest False 9 [2, 2, 2] (new_asyncReader 1) (fresh_reader 0 demo_config ''h'') of
     (_, r', bs, eof) \<Rightarrow> bs = r_buf (fresh_reader 0 demo_config ''h'') \<and> length bs = 3 \<and> eof"
proof -
  let ?r = "fresh_reader 0 demo_config ''h''"
  obtain a' r' bs eof where R: "read_all RequestTest False 9 [2, 2, 2] (new_asyncReader 1) ?r = (a', r', bs, eof)"
    by (metis prod_cases4)
  have "length (r_buf ?r) = 3" by (simp add: fresh_reader_def demo_config_def)
  then show ?thesis using request_body_is_payload [OF R] by (simp add: R del: read_all.simps)
qed

text \<open>
  The body of a stream has no end while the test runs: every read delivers the payload from its
  beginning, cut to the slice, and none reports the end. Once the test is cancelled, the next read of
  any body delivers nothing, counts nothing and reports the end.
\<close>

theorem stream_body_ends_on_cancel:
  "(case read_all StreamTest False now ks a r of (a', r', bs, eof) \<Rightarrow>
      bs = concat (map (\<lambda>k. take k (r_buf r)) ks) \<and> \<not> eof \<and> r_TX r' = r_TX r + of_nat (length bs))
   \<and> (case Read typ True now k a r of (a', r', b, eof) \<Rightarrow> b = [] \<and> eof \<and> r_TX r' = r_TX r)"
proof
  show "case read_all StreamTest False now ks a r of (a', r', bs, eof) \<Rightarrow>
      bs = concat (map (\<lambda>k. take k (r_buf r)) ks) \<and> \<not> eof \<and> r_TX r' = r_TX r + of_nat (length bs)"
  proof (induction ks arbitrary: a r)
    case (Cons k ks)
    obtain a1 r1 b e where R: "Read StreamTest False now k a r = (a1, r1, b, e)" by (metis prod_cases4)
    obtain a0 r0 where rr: "register_read now a r = (a0, r0)" by fastforce
    have "\<not> e" "b = take k (r_buf r)"
      using R register_read_frame [OF rr] by (auto simp: Read_def rr Let_def)
    then show ?case using Cons [of r1 a1] Read_frame [OF R] by (auto simp: R split: prod.splits)
  qed simp
  obtain a0 r0 where rr: "register_read now a r = (a0, r0)" by fastforce
  show "case Read typ True now k a r of (a', r', b, eof) \<Rightarrow> b = [] \<and> eof \<and> r_TX r' = r_TX r"
    using register_read_frame [OF rr] by (simp add: Read_def rr)
qed

section \<open>A test's traffic from its start\<close>

text \<open>Requests in flight of one reader, and the shape of a running test's state.\<close>

definition in_flight :: "nat \<Rightarrow> trun \<Rightarrow> nat" where
  "in_flight k g = length (filter (\<lambda>q. fst q = k) (g_reqs g))"

lemma size_held: "size (held k qs) = length (filter (\<lambda>q. fst q = k) qs)"
  by (simp add: held_def) (metis mset_filter size_mset)

definition run_ok :: "trun \<Rightarrow> bool" where
  "run_ok g \<longleftrightarrow> (\<forall>j \<in> set (g_loops g). j < length (t_Readers (g_test g)))
     \<and> (\<forall>q \<in> set (g_reqs g). fst q < length (t_Readers (g_test g)))"

lemma run_ok_start: "run_ok (start_trun t)"
  by (simp add: run_ok_def start_trun_def)

lemma traffic_run_ok [inv_intros]:
  assumes "traffic bad_req g g'" and "run_ok g"
  shows "run_ok g'"
  using assms(1)
proof cases
  case (begin_send j cid now t' r' ph)
  then show ?thesis using assms(2) request_begin_frame [OF begin_send(4)]
    by (auto simp: run_ok_def dest: notin_set_remove1 set_remove1_subset [THEN subsetD])
next
  case (begin_return j cid now t' r')
  then show ?thesis using assms(2) request_begin_frame [OF begin_return(4)]
    by (auto simp: run_ok_def dest: set_remove1_subset [THEN subsetD])
next
  case (finish j cid a sent now resp t' r')
  then show ?thesis using assms(2) request_end_frame [OF finish(4)]
    by (auto simp: run_ok_def dest: set_remove1_subset [THEN subsetD])
qed (use assms(2) in \<open>auto simp: run_ok_def dest: set_remove1_subset [THEN subsetD]\<close>)

lemma traffics_tokens:
  assumes "(traffic bad_req)\<^sup>*\<^sup>* g g'"
  shows "length (t_Readers (g_test g')) = length (t_Readers (g_test g))
    \<and> (k < length (t_Readers (g_test g)) \<longrightarrow> tokens k g' = tokens k g)"
  using assms
proof (induction rule: rtranclp_induct)
  case (step h h')
  then show ?case using traffic_tokens [OF step(2), of k] by auto
qed simp

lemma tokens_start:
  assumes "t_Readers t = map (fresh_reader now c) hs" and "k < length hs"
  shows "tokens k (start_trun t) = mset (map int [1 ..< Suc (nat (c_Concurrency c))])"
  using assms by (simp add: tokens_def start_trun_def fresh_reader_def)

lemma distinct_part:
  assumes "distinct xs" and "mset ys + m = mset xs"
  shows "distinct ys"
proof -
  obtain zs where "m = mset zs" by (metis ex_mset)
  then have "mset (ys @ zs) = mset xs" using assms(2) by simp
  then have "distinct (ys @ zs)" using mset_eq_imp_distinct_iff assms(1) by blast
  then show ?thesis by simp
qed

text \<open>
  C6: The tokens bound the traffic. From the start of a test on, along every interleaving of its
  goroutines, each reader has exactly the tokens \<open>1 .. Concurrency\<close>, each once, in its channel or with
  a request in flight: never more than \<open>Concurrency\<close> requests per host, never a send to a full channel,
  and while the reader's loop runs and fewer are in flight, a request can start.
\<close>

theorem traffic_bounded_by_tokens:
  assumes "t_Readers t = map (fresh_reader now c) hs" and "k < length hs"
    and "(traffic bad_req)\<^sup>*\<^sup>* (start_trun t) g"
  shows "tokens k g = mset (map int [1 ..< Suc (nat (c_Concurrency c))])
    \<and> in_flight k g + length (r_concurrency (t_Readers (g_test g) ! k)) = nat (c_Concurrency c)
    \<and> distinct (r_concurrency (t_Readers (g_test g) ! k))
    \<and> (k \<in> set (g_loops g) \<and> in_flight k g < nat (c_Concurrency c) \<longrightarrow>
        (\<exists>g'. traffic bad_req g g' \<and> in_flight k g' = Suc (in_flight k g)))"
proof -
  let ?all = "map int [1 ..< Suc (nat (c_Concurrency c))]" and ?r = "t_Readers (g_test g) ! k"
  have len: "length (t_Readers (g_test g)) = length hs"
    using traffics_tokens [OF assms(3), of k] assms(1) by (simp add: start_trun_def)
  have T: "tokens k g = mset ?all"
    using traffics_tokens [OF assms(3), of k] assms(1,2) tokens_start [OF assms(1,2)]
    by (simp add: start_trun_def)
  then have "size (tokens k g) = length ?all" by (simp only: size_mset)
  then have S: "in_flight k g + length (r_concurrency ?r) = nat (c_Concurrency c)"
    by (simp add: tokens_def size_held in_flight_def del: upt_Suc)
  have "distinct ?all" by (simp add: distinct_map)
  then have D: "distinct (r_concurrency ?r)"
    by (rule distinct_part) (use T in \<open>simp only: tokens_def\<close>)
  have "\<exists>g'. traffic bad_req g g' \<and> in_flight k g' = Suc (in_flight k g)"
    if "k \<in> set (g_loops g)" "in_flight k g < nat (c_Concurrency c)"
  proof -
    have "r_concurrency ?r \<noteq> []" using that(2) S by auto
    then obtain cid r' where "chan_recv ?r = Some (cid, r')" using tc.recv_empty [of ?r] by auto
    from traffic.dispatch [OF that(1) _ this] show ?thesis
      using len assms(2) by (fastforce simp: in_flight_def)
  qed
  then show ?thesis using T S D by blast
qed

theorem traffic_bounded_by_tokens_witness:
  "\<exists>g. (traffic (\<lambda>_. None))\<^sup>*\<^sup>*
      (start_trun ((demo_test ''lat'')\<lparr>t_Readers := map (fresh_reader 0 demo_config) [''h'']\<rparr>)) g
    \<and> in_flight 0 g = 1 \<and> length (r_concurrency (t_Readers (g_test g) ! 0)) = 1"
proof -
  let ?t = "(demo_test ''lat'')\<lparr>t_Readers := map (fresh_reader 0 demo_config) [''h'']\<rparr>"
  have t: "t_Readers ?t = map (fresh_reader 0 demo_config) [''h'']" by simp
  have c: "nat (c_Concurrency demo_config) = 2" by (simp add: demo_config_def)
  have "0 \<in> set (g_loops (start_trun ?t))" "in_flight 0 (start_trun ?t) = 0"
    by (simp_all add: start_trun_def in_flight_def)
  then obtain g where g: "traffic (\<lambda>_. None) (start_trun ?t) g" "in_flight 0 g = 1"
    using traffic_bounded_by_tokens [OF t _ rtranclp.rtrancl_refl, of 0 "\<lambda>_. None"] c by auto
  have "in_flight 0 g + length (r_concurrency (t_Readers (g_test g) ! 0)) = 2"
    using traffic_bounded_by_tokens [OF t _ r_into_rtranclp [where r = "traffic (\<lambda>_. None)", OF g(1)], of 0] c
    by simp
  then show ?thesis using g by (intro exI [of _ g]) auto
qed

section \<open>After cancellation\<close>

definition sending :: "trun \<Rightarrow> nat" where
  "sending g = length (filter (\<lambda>q. snd (snd q) \<noteq> Delayed) (g_reqs g))"

lemma request_begin_cancelled [simp]:
  "cancelled t \<Longrightarrow> request_begin bad_req now t r = (t', r', ph) \<longleftrightarrow> t' = t \<and> r' = r \<and> ph = None"
  by (auto simp: request_begin_def)

lemma chan_counters [simp]:
  "r_TX (chan_send cid r) = r_TX r" "r_TXCount (chan_send cid r) = r_TXCount r"
  "chan_recv r = Some (cid, r') \<Longrightarrow> r_TX r' = r_TX r"
  "chan_recv r = Some (cid, r') \<Longrightarrow> r_TXCount r' = r_TXCount r"
  by (auto simp: chan_send_def chan_recv_def split: list.splits)

lemma Read_cancelled:
  assumes "Read typ True now k a r = (a', r', b, eof)"
  shows "r_TX r' = r_TX r \<and> r_TXCount r' = r_TXCount r"
proof -
  obtain a0 r0 where rr: "register_read now a r = (a0, r0)" by fastforce
  show ?thesis using assms register_read_frame [OF rr] by (auto simp: Read_def rr)
qed

lemma request_end_counters:
  "request_end sent now resp t r = (t', r') \<Longrightarrow> r_TX r' = r_TX r \<and> r_TXCount r' = r_TXCount r"
  by (auto simp: request_end_def Let_def split: response.splits if_splits)

lemma map_list_update_id: "j < length xs \<Longrightarrow> f y = f (xs ! j) \<Longrightarrow> map f (xs[j := y]) = map f xs"
  by (metis list_update_id map_update)

lemma length_filter_remove1:
  "x \<in> set xs \<Longrightarrow> P x \<Longrightarrow> Suc (length (filter P (remove1 x xs))) = length (filter P xs)"
  "\<not> P x \<Longrightarrow> length (filter P (remove1 x xs)) = length (filter P xs)"
  by (induction xs) auto

lemma traffic_cancelled_step:
  assumes "traffic bad_req g g'" and "cancelled (g_test g)"
  shows "cancelled (g_test g')
    \<and> map r_TX (t_Readers (g_test g')) = map r_TX (t_Readers (g_test g))
    \<and> map r_TXCount (t_Readers (g_test g')) = map r_TXCount (t_Readers (g_test g))
    \<and> sending g' \<le> sending g"
  using assms(1)
proof cases
  case (dispatch j cid r')
  then show ?thesis using assms(2)
    by (simp add: cancelled_def map_list_update_id sending_def)
next
  case (begin_return j cid now t' r')
  then show ?thesis using assms(2)
    by (simp add: cancelled_def [of "put_reader _ _ _"] map_list_update_id sending_def length_filter_remove1)
      (simp add: cancelled_def)
next
  case (read_body j cid a sent now room a' r' b eof)
  then have "Read (c_TestType (t_Config (g_test g))) True now room a (t_Readers (g_test g) ! j) = (a', r', b, eof)"
    using assms(2) by simp
  from Read_cancelled [OF this] show ?thesis using read_body assms(2)
    length_filter_remove1(1) [OF read_body(2), of "\<lambda>q. snd (snd q) \<noteq> Delayed"]
    by (simp add: cancelled_def map_list_update_id sending_def)
next
  case (finish j cid a sent now resp t' r')
  then show ?thesis using assms(2) request_end_counters [OF finish(4)] request_end_frame [OF finish(4)]
    length_filter_remove1(1) [OF finish(2), of "\<lambda>q. snd (snd q) \<noteq> Delayed"]
    by (simp add: cancelled_def map_list_update_id sending_def)
qed (use assms(2) in \<open>simp_all add: cancelled_def sending_def\<close>)

text \<open>
  A cancelled test goes quiet at once: whatever its goroutines still do, it stays cancelled, no
  byte is read from a payload, no request is counted and no further request is sent.
\<close>

theorem cancelled_traffic_is_quiet:
  assumes "(traffic bad_req)\<^sup>*\<^sup>* g g'" and "cancelled (g_test g)"
  shows "cancelled (g_test g')
    \<and> map r_TX (t_Readers (g_test g')) = map r_TX (t_Readers (g_test g))
    \<and> map r_TXCount (t_Readers (g_test g')) = map r_TXCount (t_Readers (g_test g))
    \<and> sending g' \<le> sending g"
  using assms(1)
proof (induction rule: rtranclp_induct)
  case (step h h')
  then show ?case using traffic_cancelled_step [OF step(2)] by auto
qed (use assms(2) in simp)

lemma request_drains:
  assumes "cancelled (g_test g)" and "run_ok g" and "g_reqs g = (j, cid, ph) # qs"
  shows "\<exists>g'. traffic bad_req g g' \<and> g_reqs g' = qs \<and> g_loops g' = g_loops g"
proof (cases ph)
  case Delayed
  have j: "j < length (t_Readers (g_test g))" using assms(2,3) by (simp add: run_ok_def)
  show ?thesis
    using traffic.begin_return [of j cid g bad_req undefined] assms(1,3) j Delayed
    by (intro exI) (auto simp: fun_eq_iff)
next
  case (Sending a sent)
  have j: "j < length (t_Readers (g_test g))" using assms(2,3) by (simp add: run_ok_def)
  show ?thesis
    using traffic.finish [of j cid a sent g undefined Canceled] assms(1,3) j Sending
    by (intro exI) (auto simp: request_end_def)
qed

text \<open>
  C7: A cancelled test can always end completely: from every state that its traffic can be in, the
  loops can exit and the requests in flight can return, until no goroutine of the test is left and every
  token is back in its channel.
\<close>

theorem cancelled_traffic_winds_down:
  assumes "cancelled (g_test g)" and "run_ok g"
  shows "\<exists>g'. (traffic bad_req)\<^sup>*\<^sup>* g g' \<and> g_loops g' = [] \<and> g_reqs g' = []
    \<and> (\<forall>k < length (t_Readers (g_test g)). mset (r_concurrency (t_Readers (g_test g') ! k)) = tokens k g)"
proof -
  have "\<exists>g'. (traffic bad_req)\<^sup>*\<^sup>* g g' \<and> g_loops g' = [] \<and> g_reqs g' = []"
    using assms
  proof (induction "length (g_loops g) + length (g_reqs g)" arbitrary: g rule: less_induct)
    case less
    have next_state: ?case
      if "traffic bad_req g h" "length (g_loops h) + length (g_reqs h) < length (g_loops g) + length (g_reqs g)" for h
      using less.hyps [OF that(2)] traffic_cancelled_step [OF that(1) less.prems(1)]
        traffic_run_ok [OF that(1) less.prems(2)] that(1) converse_rtranclp_into_rtranclp by metis
    show ?case
    proof (cases "g_loops g")
      case (Cons j js)
      then show ?thesis
        using traffic.loop_exit [of j g bad_req] less.prems(1)
        by (intro next_state [of "g\<lparr>g_loops := js\<rparr>"]) auto
    next
      case Nil
      show ?thesis
      proof (cases "g_reqs g")
        case (Cons q qs)
        then obtain j cid ph where "g_reqs g = (j, cid, ph) # qs" by (cases q) auto
        from request_drains [OF less.prems this] obtain h where
          "traffic bad_req g h" "g_reqs h = qs" "g_loops h = g_loops g" by blast
        then show ?thesis using Cons by (intro next_state [of h]) auto
      qed (use Nil in blast)
    qed
  qed
  then obtain g' where g': "(traffic bad_req)\<^sup>*\<^sup>* g g'" "g_loops g' = []" "g_reqs g' = []" by blast
  then show ?thesis using traffics_tokens [OF g'(1)] by (auto simp: tokens_def [of _ g'])
qed

lemma demo_cancelled:
  "cancelled (g_test (start_trun (cancel_test ''stop'' ((demo_test ''lat'')\<lparr>t_Readers := [busy_reader]\<rparr>))))"
  by (simp add: start_trun_def)

theorem cancelled_traffic_is_quiet_witness:
  "map r_TX (t_Readers (g_test
      (start_trun (cancel_test ''stop'' ((demo_test ''lat'')\<lparr>t_Readers := [busy_reader]\<rparr>))\<lparr>g_loops := []\<rparr>)))
    = [6]"
proof -
  let ?g = "start_trun (cancel_test ''stop'' ((demo_test ''lat'')\<lparr>t_Readers := [busy_reader]\<rparr>))"
  have r: "t_Readers (g_test ?g) = [busy_reader]" "g_loops ?g = [0]"
    by (simp_all add: start_trun_def cancel_test_def demo_test_def)
  have "traffic (\<lambda>_. None) ?g (?g\<lparr>g_loops := []\<rparr>)"
    using traffic.loop_exit [of 0 ?g] demo_cancelled by (simp add: r)
  then have "(traffic (\<lambda>_. None))\<^sup>*\<^sup>* ?g (?g\<lparr>g_loops := []\<rparr>)" by blast
  from cancelled_traffic_is_quiet [OF this demo_cancelled]
  have "map r_TX (t_Readers (g_test (?g\<lparr>g_loops := []\<rparr>))) = map r_TX (t_Readers (g_test ?g))" by blast
  then show ?thesis by (simp only: r) (simp add: busy_reader_def)
qed

theorem cancelled_traffic_winds_down_witness:
  "\<exists>g'. (traffic (\<lambda>_. None))\<^sup>*\<^sup>*
      (start_trun (cancel_test ''stop'' ((demo_test ''lat'')\<lparr>t_Readers := [busy_reader]\<rparr>))) g'
    \<and> g_loops g' = [] \<and> g_reqs g' = []"
  using cancelled_traffic_winds_down [OF demo_cancelled run_ok_start] by blast

end
