(* ===== verification/Server.thy ===== *)
theory Server
  imports ServerReader
begin

text \<open>
  The server process of \<open>server/server.go\<close>: \<open>RunServer\<close>, the websocket dispatch of \<open>startAPIandWS\<close> and
  \<open>createAndRunTest\<close>. The process is a step relation over one state: the tests with their goroutines,
  the running calls of \<open>createAndRunTest\<close>, the connected clients, the files, the host statistics and the
  clock. Every handler that the dispatch starts is one step, except \<open>createAndRunTest\<close>, whose loop is a
  run with its own program counter. A panic outside a function that recovers ends the process.
\<close>

section \<open>RunServer\<close>

definition testFolderSuffix :: string where
  "testFolderSuffix = ''hperf-tests''"

definition base_path :: "string \<Rightarrow> string" where
  "base_path p =
     (if last p \<noteq> CHR ''/'' then p @ ''/'' @ testFolderSuffix @ ''/'' else p @ testFolderSuffix @ ''/'')"

text \<open>
  \<open>RunServer\<close> up to the call of \<open>startAPIandWS\<close>: the globals it sets. \<open>cwd\<close> is the result of
  \<open>os.Getwd\<close>; \<open>impl\<close> fixes what Go leaves to the implementation.
\<close>

definition RunServer ::
  "u64 \<times> int \<Rightarrow> string + string \<Rightarrow> string \<Rightarrow> string \<Rightarrow> string \<Rightarrow> fsys \<Rightarrow> fsys \<times> env outcome" where
  "RunServer impl cwd address rIP storagePath fs =
     (let (fs1, base0) =
        (if storagePath = [] then (fs, case cwd of Inl er \<Rightarrow> Error er | Inr d \<Rightarrow> Return d)
         else case MkdirAll storagePath fs of
                (f, Some er) \<Rightarrow> (f, Error er)
              | (f, None) \<Rightarrow> (f, Return storagePath))
      in case base0 of
           Panic p \<Rightarrow> (fs1, Panic p)
         | Error er \<Rightarrow> (fs1, Error er)
         | Return p \<Rightarrow>
             if p = [] then (fs1, Panic ''index out of range'')
             else (case MkdirAll (base_path p) fs1 of
                     (f, Some er) \<Rightarrow> (f, Error er)
                   | (f, None) \<Rightarrow>
                       (f, Return \<lparr>e_bindAddress = address, e_realIP = rIP, e_basePath = base_path p,
                                  e_impl_u64 = fst impl, e_impl_int = snd impl\<rparr>)))"

section \<open>The state of the process\<close>

text \<open>
  A run is one call of \<open>createAndRunTest\<close> in its loop: the index of its test, its connection, when it
  started, and whether it is at the head of its loop or asleep until an instant. \<open>u_ticks\<close> counts the
  completed rounds of the loop; no step reads it.
\<close>

datatype pc = AtHead | Sleeping time

record run =
  u_test :: nat
  u_con :: nat
  u_start :: time
  u_pc :: pc
  u_ticks :: nat

record server =
  s_now :: time
  s_cons :: "nat list"
  s_tests :: "trun list"
  s_runs :: "run list"
  s_fs :: fsys
  s_net :: net
  s_stats :: host_stats
  s_panic :: "string option"
  s_exit :: "int option"

definition up :: "server \<Rightarrow> bool" where
  "up s \<longleftrightarrow> s_panic s = None \<and> s_exit s = None"

definition init_server :: "time \<Rightarrow> fsys \<Rightarrow> server" where
  "init_server now fs =
     \<lparr>s_now = now, s_cons = [], s_tests = [], s_runs = [], s_fs = fs,
      s_net = \<lparr>nt_out = [], nt_dead = [], nt_closed = []\<rparr>,
      s_stats = \<lparr>memPercent = None, droppedPackets = 0, cpuPercent = Fin 0\<rparr>,
      s_panic = None, s_exit = None\<rparr>"

text \<open>An update of the tests that leaves their goroutines alone.\<close>

definition put_tests :: "(test list \<Rightarrow> test list) \<Rightarrow> trun list \<Rightarrow> trun list" where
  "put_tests f gs = map2 (\<lambda>g t. g\<lparr>g_test := t\<rparr>) gs (f (map g_test gs))"

section \<open>createAndRunTest\<close>

text \<open>
  The part before the loop. When \<open>newTest\<close> panics, the deferred \<open>SendDone\<close> still runs before the
  process dies: nothing on the way recovers.
\<close>

definition createAndRunTest ::
  "env \<Rightarrow> (path \<Rightarrow> string option) \<Rightarrow> string \<Rightarrow> nat \<Rightarrow> WebsocketSignal \<Rightarrow> server \<Rightarrow> server" where
  "createAndRunTest e rm_err conUID con signal s =
     (case newTest e rm_err (s_now s) (ws_Config signal) (s_fs s) of
        (fs, Panic p) \<Rightarrow> s\<lparr>s_net := fst (SendDone con (s_net s)), s_fs := fs, s_panic := Some p\<rparr>
      | (fs, Error er) \<Rightarrow>
          s\<lparr>s_net := fst (SendDone con (fst (SendError con er (s_net s)))), s_fs := fs\<rparr>
      | (fs, Return t) \<Rightarrow>
          s\<lparr>s_tests := s_tests s @ [start_trun (t\<lparr>t_cons := put_con conUID con (t_cons t)\<rparr>)],
            s_runs := s_runs s @ [\<lparr>u_test = length (s_tests s), u_con = con, u_start = s_now s,
                                   u_pc = AtHead, u_ticks = 0\<rparr>],
            s_fs := fs\<rparr>)"

definition put_test :: "nat \<Rightarrow> test \<Rightarrow> server \<Rightarrow> server" where
  "put_test i t s = s\<lparr>s_tests := (s_tests s)[i := (s_tests s ! i)\<lparr>g_test := t\<rparr>]\<rparr>"

definition the_test :: "server \<Rightarrow> run \<Rightarrow> test" where
  "the_test s u = g_test (s_tests s ! u_test u)"

text \<open>The end of a run: its deferred calls cancel the test and then send \<open>Done\<close>.\<close>

definition end_run :: "nat \<Rightarrow> server \<Rightarrow> server" where
  "end_run k s =
     (let u = s_runs s ! k;
          s1 = put_test (u_test u) (cancel_test ''testing finished'' (the_test s u)) s
      in s1\<lparr>s_runs := take k (s_runs s) @ drop (Suc k) (s_runs s), s_net := fst (SendDone (u_con u) (s_net s1))\<rparr>)"

definition duration_over :: "Config \<Rightarrow> int \<Rightarrow> bool" where
  "duration_over c ns \<longleftrightarrow> fless (float_of_int (c_Duration c)) (Seconds ns)"

text \<open>The head of the loop: leave it, or go to sleep for a second.\<close>

definition run_head :: "nat \<Rightarrow> server \<Rightarrow> server" where
  "run_head k s =
     (let u = s_runs s ! k; t = the_test s u in
      if cancelled t then end_run k s
      else if duration_over (t_Config t) (s_now s - u_start u) then end_run k s
      else s\<lparr>s_runs := (s_runs s)[k := u\<lparr>u_pc := Sleeping (s_now s + 1000000000)\<rparr>]\<rparr>)"

text \<open>The rest of a round: generate and flush. A panic of \<open>generateDataPoints\<close> is not recovered.\<close>

definition run_tick :: "env \<Rightarrow> json \<Rightarrow> nat \<Rightarrow> server \<Rightarrow> server" where
  "run_tick e js k s =
     (let u = s_runs s ! k; t = the_test s u in
      case generateDataPoints e (s_stats s) (s_now s) t of
        Panic p \<Rightarrow> (end_run k s)\<lparr>s_panic := Some p\<rparr>
      | Error er \<Rightarrow> s
      | Return t1 \<Rightarrow>
          (let (t2, fs, n) = sendAndSaveData e js (s_now s) t1 (s_fs s) (s_net s)
           in (put_test (u_test u) t2 s)
                \<lparr>s_runs := (s_runs s)[k := u\<lparr>u_pc := AtHead, u_ticks := Suc (u_ticks u)\<rparr>],
                 s_net := n, s_fs := fs\<rparr>))"

section \<open>The websocket handler\<close>

text \<open>A client connects: it is greeted by a ping, and dropped when that fails.\<close>

definition accept :: "nat \<Rightarrow> server \<Rightarrow> server" where
  "accept con s =
     (case SendPing con (s_net s) of
        (n, True) \<Rightarrow> s\<lparr>s_net := n, s_cons := con # s_cons s\<rparr>
      | (n, False) \<Rightarrow> s\<lparr>s_net := CloseCon con n\<rparr>)"

text \<open>
  One parsed signal of a client. The identifiers of \<open>createAndRunTest\<close> and \<open>listenToLiveTests\<close> come from
  \<open>uuid.NewString\<close>: the argument \<open>uid\<close>.
\<close>

definition handle_signal ::
  "env \<Rightarrow> (path \<Rightarrow> string option) \<Rightarrow> string \<Rightarrow> nat \<Rightarrow> WebsocketSignal \<Rightarrow> server \<Rightarrow> server" where
  "handle_signal e rm_err uid con signal s =
     (case ws_SType signal of
        RunTest \<Rightarrow> createAndRunTest e rm_err uid con signal s
      | ListenTest \<Rightarrow> s\<lparr>s_tests := put_tests (listenToLiveTests uid con signal) (s_tests s)\<rparr>
      | ListTests \<Rightarrow> s\<lparr>s_net := listAllTests (e_basePath e) con signal (s_fs s) (s_net s)\<rparr>
      | GetTest \<Rightarrow> s\<lparr>s_net := getTestOnServer (e_basePath e) con signal (s_fs s) (s_net s)\<rparr>
      | Ping \<Rightarrow> s\<lparr>s_net := replyToPing con (s_net s)\<rparr>
      | DeleteTests \<Rightarrow>
          (let (fs, n) = deleteTestsFromDisk rm_err (e_basePath e) con signal (s_fs s) (s_net s)
           in s\<lparr>s_net := n, s_fs := fs\<rparr>)
      | StopAllTests \<Rightarrow>
          s\<lparr>s_tests := put_tests (\<lambda>ts. fst (stopAllTests con signal ts (s_net s))) (s_tests s),
            s_net := snd (stopAllTests con signal (map g_test (s_tests s)) (s_net s))\<rparr>
      | Exit \<Rightarrow> s\<lparr>s_exit := Some 1\<rparr>
      | _ \<Rightarrow> s)"

section \<open>The process\<close>

text \<open>
  One step of one goroutine, of a client or of the clock, which stays in the range of \<open>UnixNano\<close>.
\<close>

inductive step ::
  "env \<Rightarrow> json \<Rightarrow> (path \<Rightarrow> string option) \<Rightarrow> (string \<Rightarrow> string option) \<Rightarrow> server \<Rightarrow> server \<Rightarrow> bool"
  for e js rm_err bad_req where
  connect: "up s \<Longrightarrow> con \<notin> set (s_cons s) \<Longrightarrow> step e js rm_err bad_req s (accept con s)"
| signal:
  "up s \<Longrightarrow> con \<in> set (s_cons s) \<Longrightarrow>
   step e js rm_err bad_req s (handle_signal e rm_err uid con sig s)"
| disconnect:
  "up s \<Longrightarrow>
   step e js rm_err bad_req s (s\<lparr>s_net := (s_net s)\<lparr>nt_dead := con # nt_dead (s_net s)\<rparr>, s_cons := remove1 con (s_cons s)\<rparr>)"
| head:
  "up s \<Longrightarrow> k < length (s_runs s) \<Longrightarrow> u_pc (s_runs s ! k) = AtHead \<Longrightarrow>
   step e js rm_err bad_req s (run_head k s)"
| tick:
  "up s \<Longrightarrow> k < length (s_runs s) \<Longrightarrow> u_pc (s_runs s ! k) = Sleeping w \<Longrightarrow> w \<le> s_now s \<Longrightarrow>
   step e js rm_err bad_req s (run_tick e js k s)"
| goroutine:
  "up s \<Longrightarrow> i < length (s_tests s) \<Longrightarrow> traffic bad_req (s_tests s ! i) g \<Longrightarrow>
   step e js rm_err bad_req s (s\<lparr>s_tests := (s_tests s)[i := g]\<rparr>)"
| stats:
  "up s \<Longrightarrow>
   step e js rm_err bad_req s (s\<lparr>s_stats := getServerStats linux mem netdev percent (s_stats s)\<rparr>)"
| clock:
  "up s \<Longrightarrow> s_now s \<le> now \<Longrightarrow> now < 2 ^ 63 \<Longrightarrow>
   step e js rm_err bad_req s (s\<lparr>s_now := now\<rparr>)"

inductive_cases stepE: "step e js rm_err bad_req s s'"

section \<open>The directory that the server starts with\<close>

lemma MkdirAll_dirs:
  assumes "\<forall>d \<in> set (prefixes (Clean p)). d \<notin> set (paths fs)"
  obtains fs' where "MkdirAll p fs = (fs', None)" "fs_names fs' = fs_names fs" "fs_data fs' = fs_data fs"
    "set (fs_dirs fs') = set (fs_dirs fs) \<union> set (prefixes (Clean p))" "fs_next fs' = fs_next fs"
proof -
  have "\<not> (\<exists>d \<in> set (prefixes (Clean p)). d \<in> set (paths fs))" using assms by blast
  then show ?thesis
    by (intro that [of "fs\<lparr>fs_dirs := fs_dirs fs @ filter (\<lambda>d. d \<notin> set (fs_dirs fs)) (prefixes (Clean p))\<rparr>"])
      (auto simp: MkdirAll_def Let_def simp del: set_prefixes_eq)
qed

lemma Clean_storage:
  assumes "\<forall>c \<in> set w. good_comp c" and "sp = path_string w \<or> sp = path_string w @ ''/''"
  shows "Clean sp = w"
proof -
  have c: "\<forall>c \<in> set w. CHR ''/'' \<notin> set c" using assms(1) by (simp add: good_comp_def)
  show ?thesis
  proof (cases "sp = path_string w @ ''/''")
    case True
    have "Split (CHR ''/'') sp = [] # w @ [[]]" using Split_path_string [of w "[]"] c by (simp add: True)
    then show ?thesis
      using assms(1) by (simp add: Clean_def fold_clean_step) (simp add: clean_step_def)
  next
    case False
    then have sp: "sp = path_string w" using assms(2) by simp
    show ?thesis
    proof (cases w rule: rev_cases)
      case Nil
      then show ?thesis by (simp add: sp path_string_def Clean_def clean_step_def)
    next
      case (snoc v x)
      have "Split (CHR ''/'') sp = [] # v @ [x]"
        using Split_path_string [of v x] c by (simp add: sp snoc path_string_def Split_no_sep)
      then show ?thesis using assms(1) fold_clean_step [of w "[]"]
        by (simp add: Clean_def snoc) (simp add: clean_step_def)
    qed
  qed
qed

lemma base_path_string:
  assumes "\<forall>c \<in> set w. good_comp c" and "sp = path_string w \<or> sp = path_string w @ ''/''" and "sp \<noteq> []"
  shows "base_path sp = path_string (w @ [testFolderSuffix]) @ ''/''"
proof (cases "sp = path_string w @ ''/''")
  case False
  then obtain v x where w: "sp = path_string w" "w = v @ [x]"
    using assms(2,3) by (cases w rule: rev_cases) (auto simp: path_string_def)
  then have "good_comp x" using assms(1) by simp
  then have "x \<noteq> []" "last x \<noteq> CHR ''/''"
    unfolding good_comp_def by (blast, metis last_in_set)
  then have "last sp \<noteq> CHR ''/''" by (simp add: w path_string_def)
  then show ?thesis by (simp add: base_path_def w path_string_def)
qed (simp add: base_path_def path_string_def)

text \<open>
  Started on an absolute storage path without pattern characters, where no file is in the way of a
  directory, \<open>RunServer\<close> creates the directory of the test files below it, with one separator whether or
  not the path ends in one, loses no file, and leaves the store in the state that the properties of the
  file operations start from.
\<close>

theorem RunServer_prepares_store:
  assumes "\<forall>c \<in> set w. good_comp c \<and> no_meta c" and "sp = path_string w \<or> sp = path_string w @ ''/''" and "sp \<noteq> []"
    and "fs_ok fs" and "\<forall>d \<in> set (prefixes (w @ [testFolderSuffix])). d \<notin> set (paths fs)"
    and "\<forall>d \<in> set (fs_dirs fs). length d \<le> Suc (length w)"
  shows "case RunServer impl cwd address rIP sp fs of (fs', r) \<Rightarrow>
    (\<exists>e. r = Return e \<and> e_bindAddress e = address \<and> e_realIP e = rIP
      \<and> e_basePath e = path_string w @ ''/'' @ testFolderSuffix @ ''/''
      \<and> store_ready (e_basePath e) (w @ [testFolderSuffix]) fs' \<and> (\<forall>q. content fs' q = content fs q))"
proof -
  let ?b = "w @ [testFolderSuffix]"
  have g: "good_comp testFolderSuffix" "no_meta testFolderSuffix" by code_simp+
  have gw: "\<forall>c \<in> set w. good_comp c" using assms(1) by simp
  note bp = base_path_string [OF gw assms(2,3)]
  have gb: "good_base (base_path sp) ?b" using assms(1) g by (simp add: good_base_def bp)
  have sub: "set (prefixes w) \<subseteq> set (prefixes ?b)" by auto
  have c1: "Clean sp = w" using Clean_storage [OF gw assms(2)] .
  obtain f1 where f1: "MkdirAll sp fs = (f1, None)" "fs_names f1 = fs_names fs" "fs_data f1 = fs_data fs"
    "set (fs_dirs f1) = set (fs_dirs fs) \<union> set (prefixes w)" "fs_next f1 = fs_next fs"
    using MkdirAll_dirs [of sp fs] assms(5) sub unfolding c1 by blast
  have "\<forall>d \<in> set (prefixes (Clean (base_path sp))). d \<notin> set (paths f1)"
    using assms(5) f1(2) by (simp add: Clean_base [OF gb] paths_def del: set_prefixes_eq prefixes_snoc)
  then obtain f2 where f2: "MkdirAll (base_path sp) f1 = (f2, None)" "fs_names f2 = fs_names f1"
    "fs_data f2 = fs_data f1" "set (fs_dirs f2) = set (fs_dirs f1) \<union> set (prefixes ?b)" "fs_next f2 = fs_next f1"
    using MkdirAll_dirs [of "base_path sp" f1] unfolding Clean_base [OF gb] by blast
  have "fs_ok f2" using assms(4) f1 f2 by (simp add: fs_ok_def paths_def)
  moreover have "\<forall>d \<in> set (fs_dirs f2). length d \<le> length ?b"
    using assms(6) by (auto simp: f2(4) f1(4) intro: le_SucI dest!: prefix_length_le)
  moreover have "\<forall>d \<in> set (prefixes ?b). d \<notin> set (paths f2)"
    using assms(5) f1(2) f2(2) by (simp add: paths_def del: set_prefixes_eq prefixes_snoc)
  ultimately have "store_ready (base_path sp) ?b f2"
    using gb f2(4) by (simp add: store_ready_def dirs_ready_def del: set_prefixes_eq prefixes_snoc)
  moreover have "content f2 q = content fs q" for q using f1 f2 by (simp add: content_def)
  ultimately show ?thesis
    using assms(3) f1(1) f2(1) bp by (simp add: RunServer_def Let_def) (simp add: path_string_def)
qed

theorem RunServer_prepares_store_witness:
  "case RunServer (0, 0) (Inl ''e'') ''0.0.0.0:9000'' [] ''/data'' \<lparr>fs_dirs = [[]], fs_names = [],
      fs_data = (\<lambda>_. []), fs_mtime = (\<lambda>_. 0), fs_next = 0\<rparr> of (fs', r) \<Rightarrow>
    (\<exists>e. r = Return e \<and> e_basePath e = ''/data/hperf-tests/'' \<and> store_ready (e_basePath e) [''data'', ''hperf-tests''] fs')"
proof -
  let ?fs = "\<lparr>fs_dirs = [[]], fs_names = [], fs_data = (\<lambda>_. []), fs_mtime = (\<lambda>_. 0), fs_next = 0\<rparr>"
  have "\<forall>c \<in> set [''data'']. good_comp c \<and> no_meta c" by code_simp
  moreover have "''/data'' = path_string [''data''] \<or> ''/data'' = path_string [''data''] @ ''/''" by (simp add: path_string_def)
  moreover have "fs_ok ?fs" by (simp add: fs_ok_def paths_def)
  moreover have "\<forall>d \<in> set (prefixes ([''data''] @ [testFolderSuffix])). d \<notin> set (paths ?fs)" by (simp add: paths_def)
  moreover have "\<forall>d \<in> set (fs_dirs ?fs). length d \<le> Suc (length [''data''])" by simp
  ultimately show ?thesis
    using RunServer_prepares_store [where w = "[''data'']" and sp = "''/data''" and fs = ?fs and impl = "(0, 0)"
        and cwd = "Inl ''e''" and address = "''0.0.0.0:9000''" and rIP = "[]"]
    by (auto simp: path_string_def testFolderSuffix_def split: prod.splits)
qed

end
