(* ===== verification/ServerSafety.thy ===== *)
theory ServerSafety
  imports Server
begin

text \<open>
  What holds in every reachable state of the server process: the invariant of each test with its
  goroutines, of the runs that drive the tests, and of everything that was sent to a client. Each
  operation of \<open>Server\<close> preserves it; the properties are read off at the end.
\<close>

section \<open>What is sent\<close>

definition sig_ok :: "WebsocketSignal \<Rightarrow> bool" where
  "sig_ok m \<longleftrightarrow>
     (ws_SType m = Stats \<longrightarrow> (case ws_DataPoint m of None \<Rightarrow> True | Some dr \<Rightarrow> \<forall>d \<in> set (dr_DPS dr). point_ok d))"

definition out_ok :: "net \<Rightarrow> bool" where
  "out_ok n \<longleftrightarrow> (\<forall>x \<in> set (nt_out n). sig_ok (snd x))"

lemma out_ok_WriteJSON [inv_intros]: "out_ok n \<Longrightarrow> sig_ok m \<Longrightarrow> out_ok (fst (WriteJSON con m n))"
  by (auto simp: out_ok_def WriteJSON_def)

lemma sig_ok_other [simp]: "ws_SType m \<noteq> Stats \<Longrightarrow> sig_ok m"
  by (simp add: sig_ok_def)

lemma out_ok_sends [inv_intros]:
  "out_ok n \<Longrightarrow> out_ok (fst (SendDone con n))"
  "out_ok n \<Longrightarrow> out_ok (fst (SendError con e n))"
  "out_ok n \<Longrightarrow> out_ok (fst (SendPing con n))"
  "out_ok n \<Longrightarrow> out_ok (replyToPing con n)"
  by (auto simp: SendDone_def SendError_def SendPing_def replyToPing_def intro!: out_ok_WriteJSON)

lemma out_ok_frame [simp]:
  "out_ok (CloseCon con n) = out_ok n" "out_ok (n\<lparr>nt_dead := ds\<rparr>) = out_ok n"
  by (simp_all add: out_ok_def CloseCon_def)

lemma out_ok_stream_lines: "out_ok n \<Longrightarrow> out_ok (fst (stream_lines con ls n))"
proof (induction ls arbitrary: n)
  case (Cons l ls)
  have "out_ok (fst (WriteJSON con (data_signal l) n))"
    using Cons.prems by (intro out_ok_WriteJSON) (simp_all add: data_signal_def)
  then show ?case using Cons.IH by (auto split: prod.splits bool.splits)
qed simp

lemma out_ok_stream_files: "out_ok n \<Longrightarrow> out_ok (fst (stream_files con fs ps n))"
proof (induction ps arbitrary: n)
  case (Cons p ps)
  then show ?case
    using out_ok_stream_lines [OF Cons.prems, of con]
    by (auto simp: split_beta Let_def split: option.split)
qed simp

lemma out_ok_remove_reporting: "out_ok n \<Longrightarrow> out_ok (snd (remove_reporting rm_err con ps fs n))"
  by (induction ps arbitrary: fs n) (auto intro: inv_intros split: option.split)

lemma out_ok_handlers [inv_intros]:
  assumes "out_ok n"
  shows "out_ok (listAllTests base con sig fs n)"
    and "out_ok (getTestOnServer base con sig fs n)"
    and "out_ok (snd (deleteTestsFromDisk rm_err base con sig fs n))"
    and "out_ok (snd (stopAllTests con sig ts n))"
proof -
  show "out_ok (listAllTests base con sig fs n)"
    using assms by (auto simp: listAllTests_def Let_def intro!: inv_intros split: outcome.split)
  have "out_ok (fst (streamTestFilesToWebsocket base con tid fs n))" for tid
    using assms out_ok_stream_files by (auto simp: streamTestFilesToWebsocket_def split: option.split)
  then show "out_ok (getTestOnServer base con sig fs n)"
    by (auto simp: getTestOnServer_def Let_def split_beta intro!: out_ok_sends split: option.split)
  show "out_ok (snd (deleteTestsFromDisk rm_err base con sig fs n))"
    using assms
    by (auto simp: deleteTestsFromDisk_def Let_def split_beta
        intro!: out_ok_sends out_ok_remove_reporting split: option.split)
  show "out_ok (snd (stopAllTests con sig ts n))"
    using assms by (simp add: stopAllTests_def out_ok_sends)
qed

lemma out_ok_send_cons: "out_ok n \<Longrightarrow> sig_ok m \<Longrightarrow> out_ok (snd (send_cons m cs n))"
proof (induction m cs n rule: send_cons.induct)
  case (2 m uid con cs n)
  have "out_ok (fst (WriteJSON con m n))" using 2(3,4) by (rule out_ok_WriteJSON)
  then show ?case
    using 2 by (cases "live n con") (simp_all add: split_beta)
qed simp

section \<open>What a test keeps\<close>

text \<open>
  The parts of a test that its goroutines and its run rely on: its configuration, its readers' tokens,
  and whether it is cancelled.
\<close>

definition same_shape :: "test \<Rightarrow> test \<Rightarrow> bool" where
  "same_shape t t' \<longleftrightarrow> t_Config t' = t_Config t
     \<and> map r_concurrency (t_Readers t') = map r_concurrency (t_Readers t)"

definition tokens_ok :: "trun \<Rightarrow> bool" where
  "tokens_ok g \<longleftrightarrow> (\<forall>k < length (t_Readers (g_test g)).
     tokens k g = mset (map int [1 ..< Suc (nat (c_Concurrency (t_Config (g_test g))))]))"

definition trun_ok :: "trun \<Rightarrow> bool" where
  "trun_ok g \<longleftrightarrow> run_ok g \<and> test_ok (g_test g) \<and> tokens_ok g"

lemma same_shape_length: "same_shape t t' \<Longrightarrow> length (t_Readers t') = length (t_Readers t)"
  by (metis same_shape_def length_map)

lemma trun_ok_update:
  assumes "trun_ok g" and "same_shape (g_test g) t'" and "test_ok t'"
  shows "trun_ok (g\<lparr>g_test := t'\<rparr>)"
proof -
  note len = same_shape_length [OF assms(2)]
  have m: "map r_concurrency (t_Readers t') = map r_concurrency (t_Readers (g_test g))"
    and c: "t_Config t' = t_Config (g_test g)"
    using assms(2) by (simp_all add: same_shape_def)
  have "r_concurrency (t_Readers t' ! k) = r_concurrency (t_Readers (g_test g) ! k)"
    if "k < length (t_Readers (g_test g))" for k
    using arg_cong [OF m, of "\<lambda>xs. xs ! k"] len that by simp
  then have "tokens_ok (g\<lparr>g_test := t'\<rparr>)"
    using assms(1) len c by (simp add: trun_ok_def tokens_ok_def tokens_def)
  moreover have "run_ok (g\<lparr>g_test := t'\<rparr>)" using assms(1) len by (simp add: trun_ok_def run_ok_def)
  ultimately show ?thesis using assms(3) by (simp add: trun_ok_def)
qed

lemma same_shape_cancel [simp]: "same_shape t (cancel_test c t)"
  by (simp add: same_shape_def cancel_test_def split: option.split)

lemma test_ok_cancel [simp]: "test_ok (cancel_test c t) = test_ok t"
  by (simp add: test_ok_def errs_ok_def cancel_test_def split: option.split)

lemma test_ok_cons [simp]: "test_ok (t\<lparr>t_cons := cs\<rparr>) = test_ok t"
  by (simp add: test_ok_def errs_ok_def)

text \<open>A new test.\<close>

lemma newTestFile_frame [simp]:
  "t_Config (fst (newTestFile base now t fs)) = t_Config t"
  "t_Readers (fst (newTestFile base now t fs)) = t_Readers t"
  "t_cause (fst (newTestFile base now t fs)) = t_cause t"
  "t_DPS (fst (newTestFile base now t fs)) = t_DPS t"
  "t_errors (fst (newTestFile base now t fs)) = t_errors t"
  "t_errMap (fst (newTestFile base now t fs)) = t_errMap t"
proof -
  define t1 where "t1 = (if t_DataFile t \<noteq> None then t\<lparr>t_DataFile := Some Closed\<rparr> else t)"
  have t1: "t_Config t1 = t_Config t" "t_Readers t1 = t_Readers t" "t_cause t1 = t_cause t"
    "t_DPS t1 = t_DPS t" "t_errors t1 = t_errors t" "t_errMap t1 = t_errMap t"
    by (simp_all add: t1_def)
  obtain f er where M: "MkdirAll base fs = (f, er)" by fastforce
  obtain f' r where C: "Create now (base @ t_ID t1 @ ''.'' @ Itoa (t_DataFileIndex t1 + 1)) f = (f', r)"
    by fastforce
  define h where "h = (case er of Some _ \<Rightarrow> t_DataFile t1 | None \<Rightarrow> (case r of Inl _ \<Rightarrow> None | Inr x \<Rightarrow> Some x))"
  define i where "i = (case er of Some _ \<Rightarrow> t_DataFileIndex t1 | None \<Rightarrow> t_DataFileIndex t1 + 1)"
  have "fst (newTestFile base now t fs) = t1\<lparr>t_DataFileIndex := i, t_DataFile := h\<rparr>"
    unfolding newTestFile_def Let_def t1_def [symmetric] M
    by (cases er; cases r) (simp_all add: C [simplified] h_def i_def)
  then show "t_Config (fst (newTestFile base now t fs)) = t_Config t"
    "t_Readers (fst (newTestFile base now t fs)) = t_Readers t"
    "t_cause (fst (newTestFile base now t fs)) = t_cause t"
    "t_DPS (fst (newTestFile base now t fs)) = t_DPS t"
    "t_errors (fst (newTestFile base now t fs)) = t_errors t"
    "t_errMap (fst (newTestFile base now t fs)) = t_errMap t"
    using t1 by simp_all
qed

lemma make_readers_readers:
  "make_readers e now c hs = Return rs \<Longrightarrow> \<exists>ks. rs = map (fresh_reader now c) ks"
proof (induction hs arbitrary: rs)
  case (Cons h hs)
  show ?case
  proof (cases "skip_host e (JoinHostPort h (c_Port c))")
    case False
    then obtain rs' where "make_readers e now c hs = Return rs'" "rs = fresh_reader now c h # rs'"
      using Cons.prems by (auto simp: newPerformanceReaderForASingleHost_def fresh_reader_def split: if_splits)
    then show ?thesis using Cons.IH by (metis list.simps(9))
  qed (use Cons in auto)
qed simp

lemma newTest_shape:
  assumes "newTest e rm_err now c fs = (fs', Return t)"
  obtains hs where "t_Config t = c" "t_Readers t = map (fresh_reader now c) hs" "t_cause t = None"
    "t_errors t = []" "t_errMap t = {}" "t_DPS t = []"
proof -
  define base where "base = (if c_Save c then fst (newTestFile (e_basePath e) now (empty_test now c)
      (fst (resetTestFiles rm_err (e_basePath e) (t_ID (empty_test now c)) fs))) else empty_test now c)"
  have b: "t_Config base = c" "t_cause base = None" "t_errors base = []" "t_errMap base = {}" "t_DPS base = []"
    by (simp_all add: base_def) (simp_all add: empty_test_def)
  obtain rs where "make_readers e now c (c_Hosts c) = Return rs" "t = base\<lparr>t_Readers := rs\<rparr>"
    using assms by (auto simp: newTest_def Let_def split_beta base_def split: outcome.splits if_splits)
  moreover from this obtain hs where "rs = map (fresh_reader now c) hs" using make_readers_readers by blast
  ultimately show ?thesis using b by (intro that [of hs]) auto
qed

lemma trun_ok_start:
  assumes "newTest e rm_err now c fs = (fs', Return t)"
  shows "trun_ok (start_trun (t\<lparr>t_cons := cs\<rparr>))"
proof -
  obtain hs where t: "t_Config t = c" "t_Readers t = map (fresh_reader now c) hs" "t_errors t = []"
    "t_errMap t = {}" "t_DPS t = []"
    using newTest_shape [OF assms] by blast
  have "test_ok (t\<lparr>t_cons := cs\<rparr>)"
    using t by (auto simp: test_ok_def errs_ok_def intro: inv_intros)
  moreover have "tokens_ok (start_trun (t\<lparr>t_cons := cs\<rparr>))"
    using tokens_start [of "t\<lparr>t_cons := cs\<rparr>" now c hs] t by (simp add: tokens_ok_def start_trun_def)
  ultimately show ?thesis by (simp add: trun_ok_def run_ok_start) (simp add: start_trun_def)
qed

text \<open>A round of the loop.\<close>

lemma generateDataPoints_shape:
  assumes "generateDataPoints e h now t = Return t'" and "test_ok t"
  shows "same_shape t t' \<and> test_ok t' \<and> t_cause t' = t_cause t"
proof (cases "memPercent h")
  case (Some used)
  have "t' = t\<lparr>t_Readers := map (\<lambda>r. if r_hasStats r then reset_reader now r else r) (t_Readers t),
      t_DPS := t_DPS t @ map (data_point e h used now t) (filter r_hasStats (t_Readers t))\<rparr>"
    using assms(1) by (simp add: generateDataPoints_def gen_readers_total [OF Some])
  then show ?thesis
    using assms(2) by (auto simp: same_shape_def test_ok_def errs_ok_def point_ok_data_point
        reset_reader_def intro: reader_ok_reset [unfolded reset_reader_def])
next
  case None
  have no: "gen_readers e h now t rs = Return x \<Longrightarrow> x = (rs, [])" for rs x
    using None by (induction rs arbitrary: x) (auto simp: reader_point_def split: if_splits)
  obtain rs ds where "gen_readers e h now t (t_Readers t) = Return (rs, ds)"
    "t' = t\<lparr>t_Readers := rs, t_DPS := t_DPS t @ ds\<rparr>"
    using assms(1) by (auto simp: generateDataPoints_def)
  with no [of "t_Readers t" "(rs, ds)"] have "t' = t" by simp
  then show ?thesis using assms(2) by (simp add: same_shape_def)
qed

lemma save_points_frame:
  "t_Config (fst (save_points js now ds t fs)) = t_Config t"
  "t_Readers (fst (save_points js now ds t fs)) = t_Readers t"
  "t_cause (fst (save_points js now ds t fs)) = t_cause t"
  by (induction ds arbitrary: t fs) (auto split: sum.split simp: Let_def AddError_def split: option.split)

lemma save_errors_frame:
  "t_Config (fst (save_errors js now xs t fs)) = t_Config t
   \<and> t_Readers (fst (save_errors js now xs t fs)) = t_Readers t
   \<and> t_cause (fst (save_errors js now xs t fs)) = t_cause t
   \<and> t_DPS (fst (save_errors js now xs t fs)) = t_DPS t
   \<and> (errs_ok t \<longrightarrow> errs_ok (fst (save_errors js now xs t fs)))"
proof (induction xs arbitrary: t fs)
  case (Cons x xs)
  have "t_Config (AddError now er ident t) = t_Config t" for er ident
    by (simp add: AddError_def split: option.split)
  then show ?case using Cons errs_ok_AddError [of t] by (simp add: Let_def split: sum.split)
qed simp

lemma save_points_DPS: "t_DPS (fst (save_points js now ds t fs)) = t_DPS t"
  by (induction ds arbitrary: t fs) (auto simp: Let_def split: sum.split)

lemma sendAndSaveData_shape:
  assumes "sendAndSaveData e js now t fs n = (t', fs', n')" and "test_ok t" and "out_ok n"
  shows "same_shape t t' \<and> test_ok t' \<and> t_cause t' = t_cause t \<and> out_ok n'"
proof -
  define t0 where "t0 = fst (if t_DataFile t = None \<and> c_Save (t_Config t)
         then (let (tn, fsn, _) = newTestFile (e_basePath e) now t fs in (tn, fsn)) else (t, fs))"
  have t0: "t_Config t0 = t_Config t" "t_Readers t0 = t_Readers t" "t_cause t0 = t_cause t" "t_DPS t0 = t_DPS t"
    by (simp_all add: t0_def split_beta Let_def)
  obtain f1 where f1: "f1 = snd (if t_DataFile t = None \<and> c_Save (t_Config t)
         then (let (tn, fsn, _) = newTestFile (e_basePath e) now t fs in (tn, fsn)) else (t, fs))" by blast
  define t1 where "t1 = fst (save_points js now (t_DPS t0) t0 f1)"
  have t1: "t_Config t1 = t_Config t" "t_Readers t1 = t_Readers t" "t_cause t1 = t_cause t"
    by (simp_all add: t1_def save_points_frame t0)
  define t3 where "t3 = t1\<lparr>t_DPS := [], t_errors := [], t_errMap := {}\<rparr>"
  define t4 where "t4 = fst (save_errors js now (t_errors t1) t3 (snd (save_points js now (t_DPS t0) t0 f1)))"
  have "errs_ok t3" by (simp add: t3_def errs_ok_def)
  then have t4: "t_Config t4 = t_Config t" "t_Readers t4 = t_Readers t" "t_cause t4 = t_cause t"
    "t_DPS t4 = []" "errs_ok t4"
    using save_errors_frame [of js now "t_errors t1" t3] by (simp_all add: t4_def t3_def t1)
  have eq: "t' = t4\<lparr>t_cons := fst (send_cons (stats_signal (t_DPS t0) (t_errors t1)) (t_cons t4) n)\<rparr>"
    "n' = snd (send_cons (stats_signal (t_DPS t0) (t_errors t1)) (t_cons t4) n)"
    using assms(1) by (simp_all add: sendAndSaveData_def split_beta Let_def t4_def t3_def t1_def t0_def f1)
  have "sig_ok (stats_signal (t_DPS t0) (t_errors t1))"
    using assms(2) by (simp add: sig_ok_def stats_signal_def t0 test_ok_def)
  from out_ok_send_cons [OF assms(3) this] show ?thesis
    using t4 assms(2) unfolding eq by (simp add: same_shape_def test_ok_def errs_ok_def)
qed

section \<open>Traffic\<close>

lemma traffic_frame:
  assumes "traffic bad_req g g'"
  shows "t_Config (g_test g') = t_Config (g_test g) \<and> t_cause (g_test g') = t_cause (g_test g)"
proof -
  have A: "t_Config (AddError now er ident t) = t_Config t" for now er ident t
    by (simp add: AddError_def split: option.split)
  have B: "request_begin bad_req now t r = (t', r', ph) \<Longrightarrow> t_Config t' = t_Config t" for now t r t' r' ph
    by (auto simp: request_begin_def Let_def A split: if_splits option.splits)
  have E: "request_end sent now resp t r = (t', r') \<Longrightarrow> t_Config t' = t_Config t" for sent now resp t r t' r'
    by (auto simp: request_end_def Let_def A split: if_splits response.splits)
  have P: "t_Config (put_reader j r t) = t_Config t" for j r t by (simp add: put_reader_def)
  show ?thesis
    using assms by cases (auto simp: P dest: B E request_begin_frame(3) request_end_frame(3))
qed

lemma trun_ok_traffic [inv_intros]:
  assumes "traffic bad_req g g'" and "trun_ok g"
  shows "trun_ok g'"
  using assms(2) traffic_frame [OF assms(1)] traffic_tokens [OF assms(1)]
    traffic_run_ok [OF assms(1)] traffic_test_ok [OF assms(1)]
  by (auto simp: trun_ok_def tokens_ok_def)

section \<open>The invariant of the process\<close>

text \<open>
  A run sleeps at least a second per round, and it enters a round only while the duration of its test
  is not over.
\<close>

definition ticks_ok :: "int \<Rightarrow> run \<Rightarrow> bool" where
  "ticks_ok d u \<longleftrightarrow> 0 \<le> d \<and> d \<le> 1000000 \<longrightarrow>
     (case u_pc u of AtHead \<Rightarrow> int (u_ticks u) \<le> d + 1 | Sleeping w \<Rightarrow> int (u_ticks u) \<le> d)"

definition clock_ok :: "time \<Rightarrow> run \<Rightarrow> bool" where
  "clock_ok now u \<longleftrightarrow> 0 \<le> u_start u \<and> u_start u + int (u_ticks u) * 1000000000 \<le> now
     \<and> (case u_pc u of AtHead \<Rightarrow> True
        | Sleeping w \<Rightarrow> u_start u + (int (u_ticks u) + 1) * 1000000000 \<le> w)"

definition runs_ok :: "server \<Rightarrow> bool" where
  "runs_ok s \<longleftrightarrow> (\<forall>u \<in> set (s_runs s). u_test u < length (s_tests s) \<and> clock_ok (s_now s) u
       \<and> ticks_ok (c_Duration (t_Config (the_test s u))) u)
     \<and> distinct (map u_test (s_runs s))"

definition driven :: "server \<Rightarrow> bool" where
  "driven s \<longleftrightarrow> (\<forall>i < length (s_tests s). cancelled (g_test (s_tests s ! i)) \<or> i \<in> u_test ` set (s_runs s))"

definition server_ok :: "server \<Rightarrow> bool" where
  "server_ok s \<longleftrightarrow> 0 \<le> s_now s \<and> s_now s < 2 ^ 63 \<and> (\<forall>g \<in> set (s_tests s). trun_ok g)
     \<and> runs_ok s \<and> driven s \<and> out_ok (s_net s)"

lemma server_okD:
  assumes "server_ok s"
  shows "0 \<le> s_now s" "s_now s < 2 ^ 63" "g \<in> set (s_tests s) \<Longrightarrow> trun_ok g" "runs_ok s" "driven s"
    "out_ok (s_net s)"
  using assms by (auto simp: server_ok_def)

lemma server_ok_frame [simp]:
  "server_ok (s\<lparr>s_fs := x1\<rparr>) = server_ok s" "server_ok (s\<lparr>s_stats := x2\<rparr>) = server_ok s"
  "server_ok (s\<lparr>s_cons := x3\<rparr>) = server_ok s" "server_ok (s\<lparr>s_panic := x4\<rparr>) = server_ok s"
  "server_ok (s\<lparr>s_exit := x5\<rparr>) = server_ok s"
  by (simp_all add: server_ok_def runs_ok_def driven_def the_test_def)

lemma server_ok_net: "server_ok s \<Longrightarrow> out_ok n \<Longrightarrow> server_ok (s\<lparr>s_net := n\<rparr>)"
  by (simp add: server_ok_def runs_ok_def driven_def the_test_def)

lemma server_ok_tests:
  assumes "server_ok s" and "length gs = length (s_tests s)"
    and "\<And>i. i < length gs \<Longrightarrow> trun_ok (gs ! i) \<and> t_Config (g_test (gs ! i)) = t_Config (g_test (s_tests s ! i))
      \<and> (cancelled (g_test (s_tests s ! i)) \<longrightarrow> cancelled (g_test (gs ! i)))"
  shows "server_ok (s\<lparr>s_tests := gs\<rparr>)"
proof -
  have "\<forall>g \<in> set gs. trun_ok g" using assms(3) by (metis in_set_conv_nth)
  moreover have "runs_ok (s\<lparr>s_tests := gs\<rparr>)"
    using server_okD(4) [OF assms(1)] assms(2,3) by (simp add: runs_ok_def the_test_def)
  moreover have "driven (s\<lparr>s_tests := gs\<rparr>)"
    using server_okD(5) [OF assms(1)] assms(2,3) by (auto simp: driven_def)
  ultimately show ?thesis using assms(1) by (simp add: server_ok_def)
qed

lemma server_ok_put_test:
  assumes "server_ok s" and "i < length (s_tests s)" and "same_shape (g_test (s_tests s ! i)) t"
    and "test_ok t" and "cancelled (g_test (s_tests s ! i)) \<longrightarrow> cancelled t"
  shows "server_ok (put_test i t s)"
proof -
  have ok: "trun_ok (s_tests s ! j)" if "j < length (s_tests s)" for j
    using server_okD(3) [OF assms(1)] that by simp
  have "trun_ok ((s_tests s ! i)\<lparr>g_test := t\<rparr>)"
    using trun_ok_update [OF ok [OF assms(2)] assms(3,4)] .
  then show ?thesis
    unfolding put_test_def using assms ok
    by (intro server_ok_tests) (auto simp: nth_list_update same_shape_def)
qed

lemma length_put_tests: "(\<And>ts. length (f ts) = length ts) \<Longrightarrow> length (put_tests f gs) = length gs"
  by (simp add: put_tests_def)

lemma nth_put_tests:
  "(\<And>ts. length (f ts) = length ts) \<Longrightarrow> i < length gs \<Longrightarrow>
   put_tests f gs ! i = (gs ! i)\<lparr>g_test := f (map g_test gs) ! i\<rparr>"
  by (simp add: put_tests_def)

lemma server_ok_map_tests:
  assumes "server_ok s" and "\<And>t. same_shape t (f t)" and "\<And>t. test_ok (f t) = test_ok t"
    and "\<And>t. cancelled t \<Longrightarrow> cancelled (f t)"
  shows "server_ok (s\<lparr>s_tests := put_tests (map f) (s_tests s)\<rparr>)"
proof (rule server_ok_tests [OF assms(1)])
  show "length (put_tests (map f) (s_tests s)) = length (s_tests s)" by (simp add: put_tests_def)
  fix i assume "i < length (put_tests (map f) (s_tests s))"
  then have i: "i < length (s_tests s)" by (simp add: put_tests_def)
  then have "trun_ok (s_tests s ! i)" using server_okD(3) [OF assms(1)] by simp
  moreover from this have "trun_ok ((s_tests s ! i)\<lparr>g_test := f (g_test (s_tests s ! i))\<rparr>)"
    using assms(2,3) by (intro trun_ok_update) (auto simp: trun_ok_def)
  ultimately show "trun_ok (put_tests (map f) (s_tests s) ! i)
      \<and> t_Config (g_test (put_tests (map f) (s_tests s) ! i)) = t_Config (g_test (s_tests s ! i))
      \<and> (cancelled (g_test (s_tests s ! i)) \<longrightarrow> cancelled (g_test (put_tests (map f) (s_tests s) ! i)))"
    using assms(2) [of "g_test (s_tests s ! i)"] assms(4) i by (simp add: nth_put_tests same_shape_def)
qed

section \<open>The operations keep it\<close>

lemma cancelled_cancel [simp]: "cancelled t \<Longrightarrow> cancel_test c t = t"
  by (auto simp: cancelled_def cancel_test_def)

lemma set_without: "k < length xs \<Longrightarrow> set xs = insert (xs ! k) (set (take k xs @ drop (Suc k) xs))"
  by (metis Cons_nth_drop_Suc append_take_drop_id insert_is_Un list.simps(15) set_append sup.left_commute)

lemma distinct_without:
  "distinct (map f xs) \<Longrightarrow> distinct (map f (take k xs @ drop (Suc k) xs))"
proof (cases "k < length xs")
  case True
  assume "distinct (map f xs)"
  then have "distinct (map f (take k xs @ xs ! k # drop (Suc k) xs))" by (simp add: id_take_nth_drop [OF True, symmetric])
  then show ?thesis by simp
qed simp

lemma server_ok_drop_run:
  assumes "server_ok s" and "k < length (s_runs s)" and "cancelled (the_test s (s_runs s ! k))"
  shows "server_ok (s\<lparr>s_runs := take k (s_runs s) @ drop (Suc k) (s_runs s)\<rparr>)"
proof -
  let ?rest = "take k (s_runs s) @ drop (Suc k) (s_runs s)" and ?u = "s_runs s ! k"
  have sub: "set (s_runs s) = insert ?u (set ?rest)" using set_without [OF assms(2)] .
  have "\<forall>u \<in> set ?rest. u_test u < length (s_tests s) \<and> clock_ok (s_now s) u
      \<and> ticks_ok (c_Duration (t_Config (the_test s u))) u"
    using server_okD(4) [OF assms(1)] sub unfolding runs_ok_def by blast
  moreover have "distinct (map u_test ?rest)"
    using server_okD(4) [OF assms(1)] distinct_without unfolding runs_ok_def by blast
  ultimately have "runs_ok (s\<lparr>s_runs := ?rest\<rparr>)" by (simp add: runs_ok_def the_test_def del: set_append map_append)
  moreover have "driven (s\<lparr>s_runs := ?rest\<rparr>)"
    using server_okD(5) [OF assms(1)] assms(3) sub by (auto simp: driven_def the_test_def)
  ultimately show ?thesis using assms(1) by (simp add: server_ok_def)
qed

lemma server_ok_end_run:
  assumes "server_ok s" and "k < length (s_runs s)"
  shows "server_ok (end_run k s)"
proof -
  let ?u = "s_runs s ! k"
  have i: "u_test ?u < length (s_tests s)"
    using server_okD(4) [OF assms(1)] assms(2) by (simp add: runs_ok_def)
  have "test_ok (g_test (s_tests s ! u_test ?u))"
    using server_okD(3) [OF assms(1)] i by (simp add: trun_ok_def)
  then have s1: "server_ok (put_test (u_test ?u) (cancel_test ''testing finished'' (the_test s ?u)) s)"
    (is "server_ok ?s1")
    using assms(1) i by (intro server_ok_put_test) (auto simp: the_test_def)
  have r: "s_runs ?s1 = s_runs s" by (simp add: put_test_def)
  have "cancelled (the_test ?s1 ?u)" using i by (simp add: the_test_def put_test_def)
  then have s2: "server_ok (?s1\<lparr>s_runs := take k (s_runs s) @ drop (Suc k) (s_runs s)\<rparr>)"
    using server_ok_drop_run [OF s1, of k] assms(2) by (simp add: r)
  have "server_ok (?s1\<lparr>s_runs := take k (s_runs s) @ drop (Suc k) (s_runs s)\<rparr>
      \<lparr>s_net := fst (SendDone (u_con ?u) (s_net ?s1))\<rparr>)"
    using server_okD(6) [OF s1] by (intro server_ok_net [OF s2] out_ok_sends)
  then show ?thesis by (simp add: end_run_def Let_def)
qed

lemma server_ok_set_run:
  assumes "server_ok s" and "k < length (s_runs s)" and "u_test u = u_test (s_runs s ! k)"
    and "clock_ok (s_now s) u" and "ticks_ok (c_Duration (t_Config (the_test s u))) u"
  shows "server_ok (s\<lparr>s_runs := (s_runs s)[k := u]\<rparr>)"
proof -
  have m: "map u_test ((s_runs s)[k := u]) = map u_test (s_runs s)"
    using assms(2,3) by (simp add: map_list_update_id)
  then have st: "u_test ` set ((s_runs s)[k := u]) = u_test ` set (s_runs s)" by (metis set_map)
  have "u_test u < length (s_tests s)"
    using server_okD(4) [OF assms(1)] assms(2,3) by (simp add: runs_ok_def)
  then have "runs_ok (s\<lparr>s_runs := (s_runs s)[k := u]\<rparr>)"
    using server_okD(4) [OF assms(1)] assms(4,5) m set_update_subset_insert [of "s_runs s" k u]
    by (auto simp: runs_ok_def the_test_def)
  then show ?thesis using assms(1) st by (simp add: server_ok_def driven_def)
qed

lemma duration_over_exact:
  assumes "0 \<le> ns" and "ns < 2 ^ 63" and "0 \<le> c_Duration c" and "c_Duration c \<le> 1000000"
  shows "duration_over c ns \<longleftrightarrow> c_Duration c * 1000000000 < ns"
  using Seconds_exceeds [OF assms] by (simp add: duration_over_def)

lemma run_facts:
  assumes "server_ok s" and "k < length (s_runs s)"
  shows "u_test (s_runs s ! k) < length (s_tests s)" "clock_ok (s_now s) (s_runs s ! k)"
    "ticks_ok (c_Duration (t_Config (the_test s (s_runs s ! k)))) (s_runs s ! k)"
    "test_ok (the_test s (s_runs s ! k))"
proof -
  have "s_runs s ! k \<in> set (s_runs s)" using assms(2) by simp
  then show "u_test (s_runs s ! k) < length (s_tests s)" "clock_ok (s_now s) (s_runs s ! k)"
    "ticks_ok (c_Duration (t_Config (the_test s (s_runs s ! k)))) (s_runs s ! k)"
    using server_okD(4) [OF assms(1)] unfolding runs_ok_def by blast+
  then show "test_ok (the_test s (s_runs s ! k))"
    using server_okD(3) [OF assms(1)] by (simp add: trun_ok_def the_test_def)
qed

lemma server_ok_run_head:
  assumes "server_ok s" and "k < length (s_runs s)" and "u_pc (s_runs s ! k) = AtHead"
  shows "server_ok (run_head k s)"
proof -
  let ?u = "s_runs s ! k"
  let ?d = "c_Duration (t_Config (the_test s ?u))"
  note F = run_facts [OF assms(1,2)] and S = server_okD [OF assms(1)]
  let ?u' = "?u\<lparr>u_pc := Sleeping (s_now s + 1000000000)\<rparr>"
  have "server_ok (s\<lparr>s_runs := (s_runs s)[k := ?u']\<rparr>)"
    if "\<not> duration_over (t_Config (the_test s ?u)) (s_now s - u_start ?u)"
  proof (rule server_ok_set_run [OF assms(1,2)])
    show "clock_ok (s_now s) ?u'" using F(2) by (simp add: clock_ok_def algebra_simps)
    have "int (u_ticks ?u) \<le> ?d" if d: "0 \<le> ?d" "?d \<le> 1000000"
    proof -
      have ns: "0 \<le> s_now s - u_start ?u" "s_now s - u_start ?u < 2 ^ 63"
        using F(2) S(1,2) by (auto simp: clock_ok_def)
      have "int (u_ticks ?u) * 1000000000 \<le> ?d * 1000000000"
        using \<open>\<not> duration_over _ _\<close> duration_over_exact [OF ns d] F(2) by (auto simp: clock_ok_def)
      then show ?thesis by simp
    qed
    then show "ticks_ok (c_Duration (t_Config (the_test s ?u'))) ?u'"
      by (simp add: ticks_ok_def the_test_def)
  qed simp
  then show ?thesis
    using server_ok_end_run [OF assms(1,2)] by (auto simp: run_head_def Let_def)
qed

lemma same_shape_trans: "same_shape a b \<Longrightarrow> same_shape b c \<Longrightarrow> same_shape a c"
  by (simp add: same_shape_def)

lemma server_ok_run_tick:
  assumes "server_ok s" and "k < length (s_runs s)" and "u_pc (s_runs s ! k) = Sleeping w" and "w \<le> s_now s"
  shows "server_ok (run_tick e js k s)"
proof (cases "generateDataPoints e (s_stats s) (s_now s) (the_test s (s_runs s ! k))")
  case (Return t1)
  let ?u = "s_runs s ! k"
  note F = run_facts [OF assms(1,2)] and S = server_okD [OF assms(1)]
  note G = generateDataPoints_shape [OF Return F(4)]
  obtain t2 fs n where A: "sendAndSaveData e js (s_now s) t1 (s_fs s) (s_net s) = (t2, fs, n)"
    by (metis prod_cases3)
  note H = sendAndSaveData_shape [OF A _ S(6)]
  let ?s1 = "put_test (u_test ?u) t2 s"
  have s1: "server_ok ?s1"
    using G H F(1) same_shape_trans
    by (intro server_ok_put_test [OF assms(1)]) (auto simp: the_test_def cancelled_def)
  have r: "s_runs ?s1 = s_runs s" "s_now ?s1 = s_now s" by (simp_all add: put_test_def)
  have c: "t_Config (the_test ?s1 u) = t_Config (the_test s u)" if "u_test u = u_test ?u" for u
    using G H F(1) that by (simp add: the_test_def put_test_def same_shape_def)
  let ?u' = "?u\<lparr>u_pc := AtHead, u_ticks := Suc (u_ticks ?u)\<rparr>"
  have "server_ok (?s1\<lparr>s_runs := (s_runs ?s1)[k := ?u']\<rparr>)"
    using F(2,3) assms(2-4) c [of ?u'] c [of ?u]
    by (intro server_ok_set_run [OF s1]) (auto simp: r clock_ok_def ticks_ok_def algebra_simps the_test_def)
  then have "server_ok (?s1\<lparr>s_runs := (s_runs s)[k := ?u']\<rparr>\<lparr>s_net := n\<rparr>)"
    using G H by (intro server_ok_net) (simp_all add: r)
  then show ?thesis
    by (simp add: run_tick_def Let_def Return A)
next
  case (Panic p)
  then show ?thesis using server_ok_end_run [OF assms(1,2)] by (simp add: run_tick_def Let_def)
qed (use assms(1) in \<open>simp add: run_tick_def Let_def\<close>)

lemma server_ok_create:
  assumes "server_ok s"
  shows "server_ok (createAndRunTest e rm_err uid con sig s)"
proof (cases "newTest e rm_err (s_now s) (ws_Config sig) (s_fs s)")
  case (Pair fs r)
  note S = server_okD [OF assms]
  show ?thesis
  proof (cases r)
    case (Return t)
    let ?g = "start_trun (t\<lparr>t_cons := put_con uid con (t_cons t)\<rparr>)"
    let ?u = "\<lparr>u_test = length (s_tests s), u_con = con, u_start = s_now s, u_pc = AtHead, u_ticks = 0\<rparr>"
    have g: "trun_ok ?g" using trun_ok_start Pair Return by blast
    have th: "the_test (s\<lparr>s_tests := s_tests s @ [?g], s_runs := s_runs s @ [?u]\<rparr>) u = the_test s u"
      if "u_test u < length (s_tests s)" for u
      using that by (simp add: the_test_def nth_append)
    have "\<forall>u \<in> set (s_runs s). u_test u < length (s_tests s)" using S(4) by (simp add: runs_ok_def)
    then have "runs_ok (s\<lparr>s_tests := s_tests s @ [?g], s_runs := s_runs s @ [?u]\<rparr>)"
      using S(1,4) th by (auto simp: runs_ok_def) (auto simp: clock_ok_def ticks_ok_def)
    moreover have "driven (s\<lparr>s_tests := s_tests s @ [?g], s_runs := s_runs s @ [?u]\<rparr>)"
      using S(5) by (auto simp: driven_def nth_append less_Suc_eq)
    ultimately have "server_ok (s\<lparr>s_tests := s_tests s @ [?g], s_runs := s_runs s @ [?u]\<rparr>)"
      using S(1,2,3,6) g by (auto simp: server_ok_def)
    then have "server_ok (s\<lparr>s_tests := s_tests s @ [?g], s_runs := s_runs s @ [?u]\<rparr>\<lparr>s_fs := fs\<rparr>)" by simp
    then show ?thesis by (simp add: createAndRunTest_def Pair Return)
  next
    case (Error er)
    have "server_ok (s\<lparr>s_net := fst (SendDone con (fst (SendError con er (s_net s))))\<rparr>\<lparr>s_fs := fs\<rparr>)"
      using server_ok_net [OF assms] S(6) by (simp add: out_ok_sends)
    then show ?thesis by (simp add: createAndRunTest_def Pair Error)
  next
    case (Panic p)
    have "server_ok (s\<lparr>s_net := fst (SendDone con (s_net s))\<rparr>\<lparr>s_fs := fs, s_panic := Some p\<rparr>)"
      using server_ok_net [OF assms] S(6) by (simp add: out_ok_sends)
    then show ?thesis by (simp add: createAndRunTest_def Pair Panic)
  qed
qed

lemma same_shape_refl [simp]: "same_shape t t"
  by (simp add: same_shape_def)

lemma same_shape_stop [simp]: "same_shape t (stop_one sig t)" "test_ok (stop_one sig t) = test_ok t"
  "cancelled t \<Longrightarrow> cancelled (stop_one sig t)"
  by (simp_all add: stop_one_def)

lemma same_shape_listen [simp]: "same_shape t (listen_one uid con sig t)"
  "test_ok (listen_one uid con sig t) = test_ok t" "cancelled (listen_one uid con sig t) = cancelled t"
  by (simp_all add: listen_one_def same_shape_def cancelled_def)

lemma server_ok_signal:
  assumes "server_ok s"
  shows "server_ok (handle_signal e rm_err uid con sig s)"
proof -
  note S = server_okD [OF assms]
  have listen: "server_ok (s\<lparr>s_tests := put_tests (listenToLiveTests uid con sig) (s_tests s)\<rparr>)"
    unfolding listenToLiveTests_def by (rule server_ok_map_tests [OF assms]) simp_all
  have "server_ok (s\<lparr>s_tests := put_tests (map (stop_one sig)) (s_tests s)\<rparr>)"
    by (rule server_ok_map_tests [OF assms]) simp_all
  then have stop: "server_ok (s\<lparr>s_tests := put_tests (\<lambda>ts. fst (stopAllTests con sig ts (s_net s))) (s_tests s),
      s_net := snd (stopAllTests con sig (map g_test (s_tests s)) (s_net s))\<rparr>)"
    using out_ok_handlers(4) [OF S(6)] by (intro server_ok_net) (simp_all add: stopAllTests_def)
  show ?thesis
    using assms listen stop server_ok_create [OF assms]
    by (auto simp: handle_signal_def Let_def split_beta split: SignalType.split
        intro!: server_ok_net out_ok_handlers [OF S(6)] out_ok_sends [OF S(6)])
qed

lemma server_ok_accept: "server_ok s \<Longrightarrow> server_ok (accept con s)"
proof -
  assume ok: "server_ok s"
  have "out_ok (fst (SendPing con (s_net s)))" using server_okD(6) [OF ok] by (rule out_ok_sends)
  then have "server_ok (s\<lparr>s_net := fst (SendPing con (s_net s))\<rparr>)"
    "server_ok (s\<lparr>s_net := CloseCon con (fst (SendPing con (s_net s)))\<rparr>)"
    using server_ok_net [OF ok] by simp_all
  then show ?thesis by (auto simp: accept_def split: prod.split bool.split)
qed

text \<open>Every step keeps the invariant, so it holds in every reachable state.\<close>

lemma server_ok_step [inv_intros]:
  assumes "step e js rm_err bad_req s s'" and "server_ok s"
  shows "server_ok s'"
  using assms(1)
proof cases
  case (disconnect con)
  have "server_ok (s\<lparr>s_net := (s_net s)\<lparr>nt_dead := con # nt_dead (s_net s)\<rparr>\<rparr>)"
    using server_okD(6) [OF assms(2)] by (intro server_ok_net [OF assms(2)]) simp
  then have "server_ok (s\<lparr>s_net := (s_net s)\<lparr>nt_dead := con # nt_dead (s_net s)\<rparr>\<rparr>
      \<lparr>s_cons := remove1 con (s_cons s)\<rparr>)" by simp
  then show ?thesis by (simp add: disconnect)
next
  case (goroutine i g)
  have "trun_ok g" using trun_ok_traffic [OF goroutine(4)] server_okD(3) [OF assms(2)] goroutine(3) by simp
  then show ?thesis
    using server_okD(3) [OF assms(2)] traffic_frame [OF goroutine(4)] goroutine(3) unfolding goroutine(1)
    by (intro server_ok_tests [OF assms(2)]) (auto simp: nth_list_update cancelled_def)
next
  case (clock now)
  have "runs_ok (s\<lparr>s_now := now\<rparr>)"
    using server_okD(4) [OF assms(2)] clock(3)
    by (auto simp: runs_ok_def clock_ok_def the_test_def)
  then show ?thesis
    using assms(2) clock by (simp add: server_ok_def driven_def)
qed (use assms(2) in \<open>simp_all add: server_ok_accept server_ok_signal server_ok_run_head server_ok_run_tick\<close>)

lemma server_ok_init: "0 \<le> now \<Longrightarrow> now < 2 ^ 63 \<Longrightarrow> server_ok (init_server now fs)"
  by (simp add: server_ok_def init_server_def runs_ok_def driven_def out_ok_def)

lemma server_ok_reachable:
  assumes "(step e js rm_err bad_req)\<^sup>*\<^sup>* (init_server now fs) s" and "0 \<le> now" and "now < 2 ^ 63"
  shows "server_ok s"
  using assms(1)
  by (induction rule: rtranclp_induct) (auto intro: server_ok_init [OF assms(2,3)] server_ok_step)

section \<open>Properties of every reachable state\<close>

text \<open>
  C12: However requests, flushes, stops, listeners and new tests interleave in the process, each host of
  each test has at most \<open>Concurrency\<close> requests in flight: the requests in flight and the tokens in the
  channel are always \<open>Concurrency\<close> together.
\<close>

theorem reachable_concurrency:
  assumes "(step e js rm_err bad_req)\<^sup>*\<^sup>* (init_server now fs) s" and "0 \<le> now" and "now < 2 ^ 63"
    and "g \<in> set (s_tests s)" and "k < length (t_Readers (g_test g))"
  shows "in_flight k g + length (r_concurrency (t_Readers (g_test g) ! k))
    = nat (c_Concurrency (t_Config (g_test g)))"
proof -
  have "tokens_ok g" using server_okD(3) [OF server_ok_reachable [OF assms(1-3)] assms(4)] by (simp add: trun_ok_def)
  then have "size (tokens k g) = size (mset (map int [1 ..< Suc (nat (c_Concurrency (t_Config (g_test g))))]))"
    using assms(5) by (simp only: tokens_ok_def)
  then show ?thesis by (simp add: tokens_def size_held in_flight_def del: upt_Suc)
qed

text \<open>
  C13: No test is left running without its driver: in every reachable state each test that is not
  cancelled is driven by a call of \<open>createAndRunTest\<close>, no test by two, and every such call works on a
  test of the list. A test without a driver is therefore cancelled, and its traffic is quiet.
\<close>

theorem reachable_tests_driven:
  assumes "(step e js rm_err bad_req)\<^sup>*\<^sup>* (init_server now fs) s" and "0 \<le> now" and "now < 2 ^ 63"
  shows "distinct (map u_test (s_runs s)) \<and> u_test ` set (s_runs s) \<subseteq> {..< length (s_tests s)}
    \<and> {i. i < length (s_tests s) \<and> \<not> cancelled (g_test (s_tests s ! i))} \<subseteq> u_test ` set (s_runs s)"
  using server_okD(4,5) [OF server_ok_reachable [OF assms]] by (auto simp: runs_ok_def driven_def)


text \<open>
  C15: A test lasts as long as it is asked to. For a duration up to a million seconds, no run ever
  completes more than \<open>Duration + 1\<close> rounds of generating and flushing, and the completed rounds have
  taken at least a second each.
\<close>

theorem reachable_rounds_bounded:
  assumes "(step e js rm_err bad_req)\<^sup>*\<^sup>* (init_server now fs) s" and "0 \<le> now" and "now < 2 ^ 63"
    and "u \<in> set (s_runs s)"
    and "0 \<le> c_Duration (t_Config (the_test s u))" and "c_Duration (t_Config (the_test s u)) \<le> 1000000"
  shows "int (u_ticks u) \<le> c_Duration (t_Config (the_test s u)) + 1
    \<and> int (u_ticks u) * 1000000000 \<le> s_now s - u_start u"
proof -
  have "clock_ok (s_now s) u" "ticks_ok (c_Duration (t_Config (the_test s u))) u"
    using server_okD(4) [OF server_ok_reachable [OF assms(1-3)]] assms(4) by (auto simp: runs_ok_def)
  then show ?thesis using assms(5,6) by (cases "u_pc u") (auto simp: ticks_ok_def clock_ok_def)
qed

text \<open>
  C16: A run that is at the head of its loop ends exactly when its test is cancelled or has lasted
  longer than its duration, to the nanosecond: it is then the only run that disappears, its test is
  cancelled, its client gets one \<open>Done\<close> if the connection is alive, and nobody else gets anything.
  Otherwise it sleeps and nothing is sent.
\<close>

theorem run_head_ends_exactly:
  assumes "k < length (s_runs s)" and "u_test (s_runs s ! k) < length (s_tests s)"
    and "0 \<le> s_now s - u_start (s_runs s ! k)" and "s_now s - u_start (s_runs s ! k) < 2 ^ 63"
    and "0 \<le> c_Duration (t_Config (the_test s (s_runs s ! k)))"
    and "c_Duration (t_Config (the_test s (s_runs s ! k))) \<le> 1000000"
  defines "u \<equiv> s_runs s ! k"
  shows "if cancelled (the_test s u) \<or> c_Duration (t_Config (the_test s u)) * 1000000000 < s_now s - u_start u
    then s_runs (run_head k s) = take k (s_runs s) @ drop (Suc k) (s_runs s)
      \<and> cancelled (the_test (run_head k s) u)
      \<and> (\<forall>con. sent_to con (s_net (run_head k s)) = sent_to con (s_net s) @
          (if con = u_con u \<and> live (s_net s) con then [zero_signal\<lparr>ws_SType := Done, ws_Code := OK\<rparr>] else []))
    else s_runs (run_head k s) = (s_runs s)[k := u\<lparr>u_pc := Sleeping (s_now s + 1000000000)\<rparr>]
      \<and> s_tests (run_head k s) = s_tests s \<and> s_net (run_head k s) = s_net s"
proof -
  have "duration_over (t_Config (the_test s u)) (s_now s - u_start u)
      \<longleftrightarrow> c_Duration (t_Config (the_test s u)) * 1000000000 < s_now s - u_start u"
    using assms(3-6) by (simp add: duration_over_exact u_def)
  moreover have "cancelled (the_test (end_run k s) u)"
    using assms(2) by (simp add: end_run_def Let_def put_test_def the_test_def u_def)
  moreover have "sent_to con (s_net (end_run k s)) = sent_to con (s_net s) @
      (if con = u_con u \<and> live (s_net s) con then [zero_signal\<lparr>ws_SType := Done, ws_Code := OK\<rparr>] else [])" for con
    by (simp add: end_run_def Let_def put_test_def u_def SendDone_def sent_to_WriteJSON)
  moreover have "s_runs (end_run k s) = take k (s_runs s) @ drop (Suc k) (s_runs s)"
    by (simp add: end_run_def Let_def)
  ultimately show ?thesis by (simp add: run_head_def Let_def u_def)
qed

text \<open>
  One signal of one client can end the whole process: \<open>Exit\<close>, and \<open>RunTest\<close> with a negative payload
  size or concurrency and a host to reach. Nothing recovers, and no step is possible afterwards.
\<close>

theorem one_signal_ends_server:
  assumes "ws_SType sig = Exit \<or> (ws_SType sig = RunTest \<and> kept_hosts e (ws_Config sig) \<noteq> []
      \<and> (c_PayloadSize (ws_Config sig) < 0 \<or> c_Concurrency (ws_Config sig) < 0))"
  shows "\<not> up (handle_signal e rm_err uid con sig s)
    \<and> \<not> step e js rm_err bad_req (handle_signal e rm_err uid con sig s) s'"
proof -
  have panic: "\<exists>p. make_readers e now (ws_Config sig) hs = Panic p"
    if "filter (\<lambda>h. \<not> skip_host e (JoinHostPort h (c_Port (ws_Config sig)))) hs \<noteq> []"
      "c_PayloadSize (ws_Config sig) < 0 \<or> c_Concurrency (ws_Config sig) < 0" for now hs
    using that by (induction hs) (auto simp: newPerformanceReaderForASingleHost_def split: if_splits)
  have "\<exists>p. snd (newTest e rm_err (s_now s) (ws_Config sig) (s_fs s)) = Panic p"
    if "ws_SType sig \<noteq> Exit"
  proof -
    from that assms obtain p where "make_readers e (s_now s) (ws_Config sig) (c_Hosts (ws_Config sig)) = Panic p"
      using panic by (auto simp: kept_hosts_def)
    then show ?thesis by (simp add: newTest_def split_beta Let_def)
  qed
  then have down: "\<not> up (handle_signal e rm_err uid con sig s)"
    using assms by (cases "ws_SType sig = Exit")
      (auto simp: handle_signal_def up_def createAndRunTest_def split_beta)
  then show ?thesis by (auto elim: stepE)
qed

text \<open>
  A round that comes before the first successful read of the memory statistics, for a test with a
  reader that has statistics, dereferences a nil pointer outside any recovery: the process ends, after the
  deferred calls of the run.
\<close>

theorem early_round_ends_server:
  assumes "memPercent (s_stats s) = None" and "r \<in> set (t_Readers (the_test s (s_runs s ! k)))" and "r_hasStats r"
  shows "s_panic (run_tick e js k s) = Some ''nil pointer dereference''
    \<and> s_runs (run_tick e js k s) = take k (s_runs s) @ drop (Suc k) (s_runs s)"
proof -
  have "gen_readers e (s_stats s) now t rs = Panic ''nil pointer dereference''"
    if "r \<in> set rs" for now t rs
    using that assms(1,3) by (induction rs) (auto simp: reader_point_def split: if_splits)
  then have "generateDataPoints e (s_stats s) (s_now s) (the_test s (s_runs s ! k)) = Panic ''nil pointer dereference''"
    using assms(2) by (simp add: generateDataPoints_def)
  then show ?thesis by (simp add: run_tick_def Let_def end_run_def)
qed

section \<open>Witnesses\<close>

text \<open>A client connects and starts a test of two seconds on one host.\<close>

definition demo_run_config :: Config where
  "demo_run_config = demo_config\<lparr>c_Save := False, c_Duration := 2, c_Hosts := [''10.0.0.1'']\<rparr>"

definition demo_run_signal :: WebsocketSignal where
  "demo_run_signal = zero_signal\<lparr>ws_SType := RunTest, ws_Config := demo_run_config\<rparr>"

definition demo_run :: run where
  "demo_run = \<lparr>u_test = 0, u_con = 0, u_start = 0, u_pc = AtHead, u_ticks = 0\<rparr>"

definition demo_trun :: trun where
  "demo_trun = start_trun ((empty_test 0 demo_run_config)\<lparr>
     t_Readers := [fresh_reader 0 demo_run_config ''10.0.0.1''], t_cons := [(''u'', 0)]\<rparr>)"

definition demo_server :: server where
  "demo_server = handle_signal demo_env (\<lambda>_. None) ''u'' 0 demo_run_signal (accept 0 (init_server 0 demo_fs))"

lemma demo_accept:
  "accept 0 (init_server 0 demo_fs) = (init_server 0 demo_fs)\<lparr>s_net := fst (SendPing 0 demo_net), s_cons := [0]\<rparr>"
  by (simp add: accept_def init_server_def SendPing_def WriteJSON_def demo_net_def)

lemma demo_server_simps:
  "s_tests demo_server = [demo_trun]" "s_runs demo_server = [demo_run]" "s_now demo_server = 0"
  "s_net demo_server = fst (SendPing 0 demo_net)" "s_stats demo_server = s_stats (init_server 0 demo_fs)"
proof -
  have k: "kept_hosts demo_env demo_run_config = [''10.0.0.1'']" by code_simp
  have c: "0 \<le> c_PayloadSize demo_run_config" "0 \<le> c_Concurrency demo_run_config" "\<not> c_Save demo_run_config"
    by (simp_all add: demo_run_config_def demo_config_def)
  have "newTest demo_env (\<lambda>_. None) 0 demo_run_config demo_fs =
    (demo_fs, Return ((empty_test 0 demo_run_config)\<lparr>t_Readers := [fresh_reader 0 demo_run_config ''10.0.0.1'']\<rparr>))"
    using newTest_result [OF c(1,2), of demo_env "\<lambda>_. None" 0 demo_fs] newTest_files [of demo_env "\<lambda>_. None" 0 demo_run_config demo_fs]
    by (simp add: k c(3) prod_eq_iff)
  moreover have "s_now (accept 0 (init_server 0 demo_fs)) = 0" "s_fs (accept 0 (init_server 0 demo_fs)) = demo_fs"
    "s_tests (accept 0 (init_server 0 demo_fs)) = []" "s_runs (accept 0 (init_server 0 demo_fs)) = []"
    by (simp_all add: demo_accept) (simp_all add: init_server_def)
  moreover have "put_con ''u'' 0 (t_cons (empty_test 0 demo_run_config)) = [(''u'', 0)]"
    by (simp add: put_con_def empty_test_def)
  ultimately have eq: "demo_server = (accept 0 (init_server 0 demo_fs))\<lparr>s_tests := [demo_trun], s_runs := [demo_run], s_fs := demo_fs\<rparr>"
    by (simp add: demo_server_def handle_signal_def demo_run_signal_def createAndRunTest_def
        demo_trun_def demo_run_def)
  show "s_tests demo_server = [demo_trun]" "s_runs demo_server = [demo_run]" "s_now demo_server = 0"
    "s_net demo_server = fst (SendPing 0 demo_net)" "s_stats demo_server = s_stats (init_server 0 demo_fs)"
    unfolding eq demo_accept by simp_all (simp add: init_server_def)
qed

lemma demo_reachable:
  "(step demo_env demo_json (\<lambda>_. None) (\<lambda>_. None))\<^sup>*\<^sup>* (init_server 0 demo_fs) demo_server"
proof -
  let ?R = "step demo_env demo_json (\<lambda>_. None) (\<lambda>_. None)"
  have u: "up (init_server 0 demo_fs)" "up (accept 0 (init_server 0 demo_fs))"
    by (simp_all add: demo_accept) (simp_all add: up_def init_server_def)
  have "?R (init_server 0 demo_fs) (accept 0 (init_server 0 demo_fs))"
    using u(1) by (rule step.connect) (simp add: init_server_def)
  moreover have "?R (accept 0 (init_server 0 demo_fs)) demo_server"
    unfolding demo_server_def using u(2) by (rule step.signal) (simp add: demo_accept)
  ultimately show ?thesis by (meson rtranclp.rtrancl_into_rtrancl rtranclp.rtrancl_refl)
qed

lemma demo_trun_simps:
  "t_Readers (g_test demo_trun) = [fresh_reader 0 demo_run_config ''10.0.0.1'']"
  "t_Config (g_test demo_trun) = demo_run_config" "\<not> cancelled (g_test demo_trun)"
  by (simp_all add: demo_trun_def start_trun_def empty_test_def cancelled_def)

theorem reachable_concurrency_witness:
  "in_flight 0 demo_trun + length (r_concurrency (t_Readers (g_test demo_trun) ! 0)) = 2"
proof -
  have "nat (c_Concurrency demo_run_config) = 2" by (simp add: demo_run_config_def demo_config_def)
  then show ?thesis
    using reachable_concurrency [OF demo_reachable, of demo_trun 0] by (simp add: demo_server_simps demo_trun_simps)
qed

theorem reachable_tests_driven_witness:
  "{i. i < length (s_tests demo_server) \<and> \<not> cancelled (g_test (s_tests demo_server ! i))} = {0}
    \<and> {0} \<subseteq> u_test ` set (s_runs demo_server)"
proof -
  have eq: "{i. i < length (s_tests demo_server) \<and> \<not> cancelled (g_test (s_tests demo_server ! i))} = {0}"
    by (auto simp: demo_server_simps demo_trun_simps)
  have "{i. i < length (s_tests demo_server) \<and> \<not> cancelled (g_test (s_tests demo_server ! i))}
      \<subseteq> u_test ` set (s_runs demo_server)"
    using reachable_tests_driven [OF demo_reachable] by simp
  then show ?thesis using eq by simp
qed


lemma demo_duration: "c_Duration (t_Config (the_test demo_server demo_run)) = 2"
  by (simp add: the_test_def demo_server_simps demo_run_def demo_trun_simps) (simp add: demo_run_config_def)

theorem reachable_rounds_bounded_witness:
  "int (u_ticks demo_run) \<le> c_Duration (t_Config (the_test demo_server demo_run)) + 1"
proof -
  have "demo_run \<in> set (s_runs demo_server)" by (simp add: demo_server_simps)
  from reachable_rounds_bounded [OF demo_reachable _ _ this] show ?thesis by (simp add: demo_duration)
qed

theorem run_head_ends_exactly_witness:
  "s_runs (run_head 0 (demo_server\<lparr>s_now := 2000000001\<rparr>)) = []
    \<and> s_runs (run_head 0 (demo_server\<lparr>s_now := 2000000000\<rparr>)) = [demo_run\<lparr>u_pc := Sleeping 3000000000\<rparr>]"
proof -
  have t: "the_test (demo_server\<lparr>s_now := n\<rparr>) demo_run = g_test demo_trun" for n
    by (simp add: the_test_def demo_server_simps demo_run_def)
  have d: "c_Duration (t_Config (g_test demo_trun)) = 2"
    by (simp add: demo_trun_simps) (simp add: demo_run_config_def)
  have r: "u_start demo_run = 0" "u_test demo_run = 0" by (simp_all add: demo_run_def)
  have "s_runs (run_head 0 (demo_server\<lparr>s_now := 2000000001\<rparr>)) = []"
    using run_head_ends_exactly [of 0 "demo_server\<lparr>s_now := 2000000001\<rparr>"]
    by (simp add: demo_server_simps t d r)
  moreover have "s_runs (run_head 0 (demo_server\<lparr>s_now := 2000000000\<rparr>)) = [demo_run\<lparr>u_pc := Sleeping 3000000000\<rparr>]"
    using run_head_ends_exactly [of 0 "demo_server\<lparr>s_now := 2000000000\<rparr>"]
    by (simp add: demo_server_simps t d r demo_trun_simps(3))
  ultimately show ?thesis by simp
qed

theorem one_signal_ends_server_witness:
  "up demo_server
    \<and> \<not> up (handle_signal demo_env (\<lambda>_. None) ''u'' 0
        (zero_signal\<lparr>ws_SType := RunTest, ws_Config := demo_run_config\<lparr>c_PayloadSize := - 1\<rparr>\<rparr>) demo_server)"
proof
  show "up demo_server"
    by (simp add: demo_server_def handle_signal_def demo_run_signal_def createAndRunTest_def demo_accept) code_simp
  have "kept_hosts demo_env (demo_run_config\<lparr>c_PayloadSize := - 1\<rparr>) \<noteq> []" by code_simp
  then show "\<not> up (handle_signal demo_env (\<lambda>_. None) ''u'' 0
        (zero_signal\<lparr>ws_SType := RunTest, ws_Config := demo_run_config\<lparr>c_PayloadSize := - 1\<rparr>\<rparr>) demo_server)"
    using one_signal_ends_server [of "zero_signal\<lparr>ws_SType := RunTest, ws_Config := demo_run_config\<lparr>c_PayloadSize := - 1\<rparr>\<rparr>" demo_env]
    by simp
qed

theorem early_round_ends_server_witness:
  "s_panic (run_tick demo_env demo_json 0 (put_test 0 ((g_test demo_trun)\<lparr>t_Readers := [busy_reader]\<rparr>) demo_server))
    = Some ''nil pointer dereference''"
proof -
  let ?s = "put_test 0 ((g_test demo_trun)\<lparr>t_Readers := [busy_reader]\<rparr>) demo_server"
  have "memPercent (s_stats ?s) = None" by (simp add: put_test_def demo_server_simps) (simp add: init_server_def)
  moreover have "busy_reader \<in> set (t_Readers (the_test ?s (s_runs ?s ! 0)))"
    by (simp add: put_test_def the_test_def demo_server_simps) (simp add: demo_run_def)
  moreover have "r_hasStats busy_reader" by (simp add: busy_reader_def)
  ultimately show ?thesis using early_round_ends_server by blast
qed

end
