(* ===== verification/ServerQuiet.thy ===== *)
theory ServerQuiet
  imports ServerSafety
begin

text \<open>
  What becomes of a test of the server process once it is cancelled, by a client that stops it or by its
  own run: whatever the process does next, the test stays cancelled, starts no request and counts no
  byte. \<open>stopAllTests\<close> of \<open>server/server.go\<close> cancels exactly the tests it names.
\<close>

section \<open>A test after some steps of the process\<close>

text \<open>
  The bytes of a reader either wait for their data point, or a last round has already taken them; the
  count of requests is never reset.
\<close>

definition quieter :: "test \<Rightarrow> test \<Rightarrow> bool" where
  "quieter t t' \<longleftrightarrow>
     list_all2 (\<lambda>r r'. r_TXCount r' = r_TXCount r \<and> r_TX r' \<in> {r_TX r, 0}) (t_Readers t) (t_Readers t')"

definition silent :: "trun \<Rightarrow> trun \<Rightarrow> bool" where
  "silent g g' \<longleftrightarrow> cancelled (g_test g') \<and> quieter (g_test g) (g_test g') \<and> sending g' \<le> sending g"

lemma quieter_same: "t_Readers t' = t_Readers t \<Longrightarrow> quieter t t'"
  by (simp add: quieter_def list_all2_refl)

lemma quieter_counters:
  "map r_TX (t_Readers t') = map r_TX (t_Readers t) \<Longrightarrow> map r_TXCount (t_Readers t') = map r_TXCount (t_Readers t)
   \<Longrightarrow> quieter t t'"
  by (auto simp: quieter_def list_all2_conv_all_nth list_eq_iff_nth_eq)

lemma quieter_trans: "quieter t t' \<Longrightarrow> quieter t' t'' \<Longrightarrow> quieter t t''"
  by (fastforce simp: quieter_def list_all2_conv_all_nth)

lemma silent_trans: "silent g g' \<Longrightarrow> silent g' g'' \<Longrightarrow> silent g g''"
  by (auto simp: silent_def intro: quieter_trans)

lemma silent_refl: "cancelled (g_test g) \<Longrightarrow> silent g g"
  by (simp add: silent_def quieter_same)

text \<open>What an operation on the record of a test leaves of it.\<close>

lemma silent_test:
  assumes "cancelled (g_test g)" and "t_cause t = t_cause (g_test g)" and "quieter (g_test g) t"
  shows "silent g (g\<lparr>g_test := t\<rparr>)"
  using assms by (simp add: silent_def cancelled_def sending_def)

lemma silent_traffic: "traffic bad_req g g' \<Longrightarrow> cancelled (g_test g) \<Longrightarrow> silent g g'"
  using traffic_cancelled_step by (auto simp: silent_def intro: quieter_counters)

lemma generateDataPoints_quieter:
  assumes "generateDataPoints e h now t = Return t'"
  shows "quieter t t' \<and> t_cause t' = t_cause t"
proof -
  have gen: "gen_readers e h now t rs = Return (rs', ds) \<Longrightarrow>
      list_all2 (\<lambda>r r'. r_TXCount r' = r_TXCount r \<and> r_TX r' \<in> {r_TX r, 0}) rs rs'" for rs rs' ds
    by (induction rs arbitrary: rs' ds)
      (auto simp: reader_point_def reset_reader_def split: if_splits option.splits)
  show ?thesis using assms gen by (auto simp: generateDataPoints_def quieter_def split: outcome.splits)
qed

lemma sendAndSaveData_frame:
  assumes "sendAndSaveData e js now t fs n = (t', fs', n')"
  shows "t_Readers t' = t_Readers t \<and> t_cause t' = t_cause t"
  using assms
  by (auto simp: sendAndSaveData_def split_beta Let_def save_points_frame save_errors_frame)

section \<open>A step of the process\<close>

lemma silent_stop: "cancelled (g_test g) \<Longrightarrow> silent g (g\<lparr>g_test := stop_one sig (g_test g)\<rparr>)"
  by (rule silent_test) (simp_all add: stop_one_def quieter_same)

lemma silent_listen: "cancelled (g_test g) \<Longrightarrow> silent g (g\<lparr>g_test := listen_one uid con sig (g_test g)\<rparr>)"
  by (rule silent_test) (simp_all add: listen_one_def quieter_same)

text \<open>A run updates its own test and leaves the others.\<close>

lemma silent_put_test:
  assumes "i < length (s_tests s)" and "cancelled (g_test (s_tests s ! i))"
    and "j = i \<Longrightarrow> t_cause t = t_cause (g_test (s_tests s ! i)) \<and> quieter (g_test (s_tests s ! i)) t"
  shows "silent (s_tests s ! i) (s_tests (put_test j t s) ! i)"
  using assms by (cases "j = i") (auto simp: put_test_def intro: silent_test silent_refl)

lemma silent_end_run:
  assumes "i < length (s_tests s)" and "cancelled (g_test (s_tests s ! i))"
  shows "silent (s_tests s ! i) (s_tests (end_run k s) ! i) \<and> length (s_tests (end_run k s)) = length (s_tests s)"
  using silent_put_test [OF assms, of "u_test (s_runs s ! k)" "cancel_test ''testing finished'' (the_test s (s_runs s ! k))"] assms(2)
  by (auto simp: end_run_def Let_def the_test_def quieter_same put_test_def)

lemma silent_run_tick:
  assumes "i < length (s_tests s)" and "cancelled (g_test (s_tests s ! i))"
  shows "silent (s_tests s ! i) (s_tests (run_tick e js k s) ! i) \<and> length (s_tests (run_tick e js k s)) = length (s_tests s)"
proof (cases "generateDataPoints e (s_stats s) (s_now s) (the_test s (s_runs s ! k))")
  case (Return t1)
  obtain t2 fs n where t2: "sendAndSaveData e js (s_now s) t1 (s_fs s) (s_net s) = (t2, fs, n)" by (rule prod_cases3)
  note q = generateDataPoints_quieter [OF Return] sendAndSaveData_frame [OF t2]
  have tests: "s_tests (run_tick e js k s) = s_tests (put_test (u_test (s_runs s ! k)) t2 s)"
    by (simp add: run_tick_def Let_def Return t2)
  have "quieter (the_test s (s_runs s ! k)) t2" using q quieter_same quieter_trans by blast
  then show ?thesis
    using silent_put_test [OF assms, of "u_test (s_runs s ! k)" t2] q
    unfolding tests by (auto simp: the_test_def put_test_def)
next
  case (Panic p)
  then show ?thesis using silent_end_run [OF assms, of k] by (simp add: run_tick_def)
qed (simp add: run_tick_def assms silent_refl)

lemma silent_signal:
  assumes "i < length (s_tests s)" and "cancelled (g_test (s_tests s ! i))"
  shows "silent (s_tests s ! i) (s_tests (handle_signal e rm_err uid con sig s) ! i)
    \<and> length (s_tests s) \<le> length (s_tests (handle_signal e rm_err uid con sig s))"
proof -
  have run: "silent (s_tests s ! i) (s_tests (createAndRunTest e rm_err uid con sig s) ! i)
    \<and> length (s_tests s) \<le> length (s_tests (createAndRunTest e rm_err uid con sig s))"
    using assms by (auto simp: createAndRunTest_def nth_append silent_refl split: prod.split outcome.split)
  show ?thesis
    using assms run
    by (auto simp: handle_signal_def put_tests_def stopAllTests_def listenToLiveTests_def split_beta Let_def
        intro: silent_refl silent_stop silent_listen split: SignalType.split)
qed

lemma silent_step:
  assumes "step e js rm_err bad_req s s'" and "i < length (s_tests s)" and "cancelled (g_test (s_tests s ! i))"
  shows "silent (s_tests s ! i) (s_tests s' ! i) \<and> length (s_tests s) \<le> length (s_tests s')"
  using assms(1)
proof cases
  case (connect con)
  then show ?thesis using assms(2,3) by (auto simp: accept_def intro: silent_refl split: prod.split bool.split)
next
  case (signal con sig uid)
  then show ?thesis using silent_signal [OF assms(2,3)] by simp
next
  case (head k)
  then show ?thesis using silent_end_run [OF assms(2,3), of k] assms(2,3)
    by (auto simp: run_head_def Let_def intro: silent_refl)
next
  case (tick k w)
  then show ?thesis using silent_run_tick [OF assms(2,3)] by simp
next
  case (goroutine j g)
  then show ?thesis using assms(2,3) silent_traffic
    by (cases "j = i") (auto intro: silent_refl)
qed (use assms(2,3) in \<open>simp_all add: silent_refl\<close>)

lemma silent_steps:
  assumes "(step e js rm_err bad_req)\<^sup>*\<^sup>* s s'" and "i < length (s_tests s)" and "cancelled (g_test (s_tests s ! i))"
  shows "i < length (s_tests s') \<and> silent (s_tests s ! i) (s_tests s' ! i)"
  using assms(1)
proof (induction rule: rtranclp_induct)
  case (step s1 s2)
  then have "i < length (s_tests s1)" "cancelled (g_test (s_tests s1 ! i))" by (simp_all add: silent_def)
  from silent_step [OF step(2) this] step.IH show ?case by (auto intro: silent_trans)
qed (use assms(2,3) in \<open>simp add: silent_refl\<close>)

end
