(* ===== verification/ServerStore.thy ===== *)
theory ServerStore
  imports ServerTest
begin

text \<open>
  What the result files of \<open>server/file.go\<close> and \<open>server/server.go\<close> promise: a map from the identifier of a
  test to the lines saved for it. Starting a test drops every entry whose identifier begins with the
  new one, a flush appends to the entry of its test, and downloading and deleting find exactly the
  entry asked for. The operations of the server on its files refine this map as long as no identifier
  has a dot, which the names of the files cannot tell from the number of the file.
\<close>

section \<open>The abstract store\<close>

type_synonym store = "string \<rightharpoonup> bytes list"

datatype store_op =
    Op_start time Config
  | Op_flush time test
  | Op_delete nat WebsocketSignal
  | Op_download nat WebsocketSignal

definition flush_lines :: "json \<Rightarrow> test \<Rightarrow> bytes list" where
  "flush_lines js t =
     map (\<lambda>d. ''0'' @ (case js_dp js d of Inr b \<Rightarrow> b | Inl _ \<Rightarrow> [])) (t_DPS t)
     @ map (\<lambda>x. ''1'' @ (case js_err js x of Inr b \<Rightarrow> b | Inl _ \<Rightarrow> [])) (t_errors t)"

definition sig_id :: "WebsocketSignal \<Rightarrow> string" where
  "sig_id sig = c_TestID (ws_Config sig)"

fun spec_op :: "json \<Rightarrow> store_op \<Rightarrow> store \<Rightarrow> store" where
  "spec_op js (Op_start now c) A =
     (if c_Save c then (\<lambda>tid. if HasPrefix tid (c_TestID c) then None else A tid)(c_TestID c \<mapsto> []) else A)"
| "spec_op js (Op_flush now t) A = A(t_ID t \<mapsto> the (A (t_ID t)) @ flush_lines js t)"
| "spec_op js (Op_delete con sig) A = A(sig_id sig := None)"
| "spec_op js (Op_download con sig) A = A"

text \<open>What the client of an operation is sent in reply; a flush is sent to others.\<close>

fun spec_reply :: "store_op \<Rightarrow> store \<Rightarrow> (nat \<times> WebsocketSignal) list" where
  "spec_reply (Op_delete con sig) A = [(con, zero_signal\<lparr>ws_SType := Done, ws_Code := OK\<rparr>)]"
| "spec_reply (Op_download con sig) A =
     map (\<lambda>l. (con, data_signal l)) (case A (sig_id sig) of None \<Rightarrow> [] | Some ls \<Rightarrow> ls)
     @ [(con, zero_signal\<lparr>ws_SType := Done, ws_Code := OK\<rparr>)]"
| "spec_reply op A = []"

section \<open>Refinement\<close>

text \<open>A history of operations, each asked for properly when its turn comes.\<close>

primrec asked_properly :: "('op \<Rightarrow> 's \<Rightarrow> 's) \<Rightarrow> ('op \<Rightarrow> 's \<Rightarrow> bool) \<Rightarrow> 'op list \<Rightarrow> 's \<Rightarrow> bool" where
  "asked_properly run ok [] s \<longleftrightarrow> True"
| "asked_properly run ok (op # ops) s \<longleftrightarrow> ok op s \<and> asked_properly run ok ops (run op s)"

text \<open>What one operation has to keep for all histories to follow the specification.\<close>

locale store_refinement =
  fixes run :: "'op \<Rightarrow> 's \<Rightarrow> 's" and ok :: "'op \<Rightarrow> 's \<Rightarrow> bool" and inv :: "'s \<Rightarrow> bool"
    and abst :: "'s \<Rightarrow> 'a" and spec :: "'op \<Rightarrow> 'a \<Rightarrow> 'a"
  assumes inv_run: "inv s \<Longrightarrow> ok op s \<Longrightarrow> inv (run op s)"
    and abst_run: "inv s \<Longrightarrow> ok op s \<Longrightarrow> abst (run op s) = spec op (abst s)"
begin

lemma history:
  assumes "inv s" and "asked_properly run ok ops s"
  shows "inv (fold run ops s) \<and> abst (fold run ops s) = fold spec ops (abst s)"
  using assms by (induction ops arbitrary: s) (auto simp: inv_run abst_run)

end

section \<open>The server's operations on its files\<close>

fun run_op :: "env \<Rightarrow> (path \<Rightarrow> string option) \<Rightarrow> json \<Rightarrow> store_op \<Rightarrow> fsys \<times> net \<Rightarrow> fsys \<times> net" where
  "run_op e rm_err js (Op_start now c) (fs, n) = (fst (newTest e rm_err now c fs), n)"
| "run_op e rm_err js (Op_flush now t) (fs, n) = snd (sendAndSaveData e js now t fs n)"
| "run_op e rm_err js (Op_delete con sig) (fs, n) = deleteTestsFromDisk rm_err (e_basePath e) con sig fs n"
| "run_op e rm_err js (Op_download con sig) (fs, n) = (fs, getTestOnServer (e_basePath e) con sig fs n)"

definition simple_id :: "string \<Rightarrow> bool" where
  "simple_id tid \<longleftrightarrow> plain_id tid \<and> CHR ''.'' \<notin> set tid"

definition results_ok :: "string \<Rightarrow> path \<Rightarrow> fsys \<Rightarrow> bool" where
  "results_ok base b fs \<longleftrightarrow> store_ready base b fs \<and>
     (\<forall>n. b @ [n] \<in> set (paths fs) \<longrightarrow> (\<exists>tid. n = tid @ ''.1'' \<and> simple_id tid) \<and> file_of_lines fs (b @ [n]))"

definition saved :: "path \<Rightarrow> fsys \<Rightarrow> store" where
  "saved b fs tid = map_option (\<lambda>d. fst (scan_lines d)) (content fs (b @ [tid @ ''.1'']))"

text \<open>
  When an operation is asked for properly: the test to be flushed is saved to the file that bears its
  name, and what it saves are lines; a client is there to be answered.
\<close>

fun op_ok :: "json \<Rightarrow> path \<Rightarrow> store_op \<Rightarrow> fsys \<times> net \<Rightarrow> bool" where
  "op_ok js b (Op_start now c) (fs, n) \<longleftrightarrow> simple_id (c_TestID c)"
| "op_ok js b (Op_flush now t) (fs, n) \<longleftrightarrow>
     c_Save (t_Config t) \<and> list_all plain_line (flush_lines js t)
     \<and> list_all (\<lambda>d. \<exists>x. js_dp js d = Inr x) (t_DPS t) \<and> list_all (\<lambda>d. \<exists>x. js_err js d = Inr x) (t_errors t)
     \<and> (\<exists>i. t_DataFile t = Some (Open i) \<and> map_of (fs_names fs) (b @ [t_ID t @ ''.1'']) = Some i)"
| "op_ok js b (Op_delete con sig) (fs, n) \<longleftrightarrow> simple_id (sig_id sig) \<and> sig_id sig \<noteq> [] \<and> live n con"
| "op_ok js b (Op_download con sig) (fs, n) \<longleftrightarrow> simple_id (sig_id sig) \<and> live n con"

section \<open>Names\<close>

lemma append_dot_cases:
  assumes "x @ CHR ''.'' # y = tid @ n" and "CHR ''.'' \<notin> set tid"
  obtains us where "x = tid @ us" and "n = us @ CHR ''.'' # y"
proof -
  from assms(1) obtain us where "x = tid @ us \<and> us @ CHR ''.'' # y = n \<or> x @ us = tid \<and> CHR ''.'' # y = us @ n"
    by (auto simp: append_eq_append_conv2)
  then show ?thesis using that [of us] that [of "[]"] assms(2) by (cases us) auto
qed

lemma prefix_of_name:
  assumes "CHR ''.'' \<notin> set tid"
  shows "(\<exists>n. x @ ''.1'' = tid @ n) \<longleftrightarrow> HasPrefix x tid"
proof
  assume "\<exists>n. x @ ''.1'' = tid @ n"
  then obtain n where "x @ CHR ''.'' # ''1'' = tid @ n" by blast
  then obtain us where "x = tid @ us" by (rule append_dot_cases [OF _ assms])
  then show "HasPrefix x tid" by simp
qed (auto simp: HasPrefix_iff)

lemma file_of_name:
  assumes "CHR ''.'' \<notin> set tid" and "CHR ''.'' \<notin> set x" and "x @ ''.1'' = tid @ ''.'' @ k"
  shows "x = tid"
proof -
  have "x @ CHR ''.'' # ''1'' = tid @ CHR ''.'' # k" using assms(3) by simp
  then obtain us where "x = tid @ us" "CHR ''.'' # k = us @ CHR ''.'' # ''1''" by (rule append_dot_cases [OF _ assms(1)])
  then show "x = tid" using assms(2) by (cases us) auto
qed

lemma results_okD:
  assumes "results_ok base b fs"
  shows "store_ready base b fs"
    and "b @ [n] \<in> set (paths fs) \<Longrightarrow> \<exists>tid. n = tid @ ''.1'' \<and> simple_id tid"
    and "b @ [n] \<in> set (paths fs) \<Longrightarrow> file_of_lines fs (b @ [n])"
  using assms by (auto simp: results_ok_def)

lemma sort_filter_single:
  assumes "distinct xs" and "\<And>q. q \<in> set xs \<Longrightarrow> P q \<longleftrightarrow> q = p"
  shows "sort (filter P xs) = (if p \<in> set xs then [p :: path] else [])"
proof -
  have "filter P xs = filter ((=) p) xs" using assms(2) by (intro filter_cong) auto
  moreover have "filter ((=) p) xs = (if p \<in> set xs then [p] else [])"
    using assms(1) by (induction xs) auto
  ultimately show ?thesis by simp
qed

text \<open>The files of a test in a good store: its first file, if it is there.\<close>

lemma files_of_test:
  assumes "results_ok base b fs" and "CHR ''.'' \<notin> set tid" and "distinct (paths fs)"
  shows "sort (filter (\<lambda>q. \<exists>k. q = b @ [tid @ ''.'' @ k]) (paths fs)) =
    (if b @ [tid @ ''.1''] \<in> set (paths fs) then [b @ [tid @ ''.1'']] else [])"
proof (rule sort_filter_single [OF assms(3)])
  fix q assume q: "q \<in> set (paths fs)"
  show "(\<exists>k. q = b @ [tid @ ''.'' @ k]) \<longleftrightarrow> q = b @ [tid @ ''.1'']"
  proof
    assume "\<exists>k. q = b @ [tid @ ''.'' @ k]"
    then obtain k where k: "q = b @ [tid @ ''.'' @ k]" by blast
    have "\<exists>x. tid @ ''.'' @ k = x @ ''.1'' \<and> simple_id x"
      by (rule results_okD(2) [OF assms(1)]) (use q k in simp)
    then obtain x where x: "x @ ''.1'' = tid @ ''.'' @ k" "CHR ''.'' \<notin> set x"
      unfolding simple_id_def by metis
    from file_of_name [OF assms(2) x(2,1)] show "q = b @ [tid @ ''.1'']" using k x(1) by simp
  qed auto
qed

section \<open>Simulation\<close>

lemma saved_content: "content fs' (b @ [tid @ ''.1'']) = content fs (b @ [tid @ ''.1'']) \<Longrightarrow> saved b fs' tid = saved b fs tid"
  by (simp add: saved_def)

lemma saved_lines:
  assumes "content fs (b @ [tid @ ''.1'']) = Some (join_lines ls)" and "\<forall>l \<in> set ls. plain_line l"
  shows "saved b fs tid = Some ls"
  using assms by (simp add: saved_def scan_lines_join)

text \<open>Only the files that an operation touches have to be looked at again.\<close>

lemma results_ok_frame:
  assumes "results_ok base b fs" and "store_ready base b fs'"
    and "\<And>n. content fs' (b @ [n]) = content fs (b @ [n]) \<or> content fs' (b @ [n]) = None
      \<or> (\<exists>tid. n = tid @ ''.1'' \<and> simple_id tid) \<and> file_of_lines fs' (b @ [n])"
  shows "results_ok base b fs'"
proof -
  have "(\<exists>tid. n = tid @ ''.1'' \<and> simple_id tid) \<and> file_of_lines fs' (b @ [n])" if n: "b @ [n] \<in> set (paths fs')" for n
  proof (cases "(\<exists>tid. n = tid @ ''.1'' \<and> simple_id tid) \<and> file_of_lines fs' (b @ [n])")
    case False
    then have eq: "content fs' (b @ [n]) = content fs (b @ [n])" and "b @ [n] \<in> set (paths fs)"
      using assms(3) [of n] n by (auto simp: in_paths_iff)
    then show ?thesis using results_okD(2,3) [OF assms(1)] by (simp add: file_of_lines_def)
  qed
  then show ?thesis using assms(2) by (simp add: results_ok_def)
qed

lemma start_refines:
  assumes "results_ok (e_basePath e) b fs" and "\<forall>p. rm_err p = None" and "simple_id (c_TestID c)"
  shows "results_ok (e_basePath e) b (fst (newTest e rm_err now c fs))
    \<and> saved b (fst (newTest e rm_err now c fs)) = spec_op js (Op_start now c) (saved b fs)"
proof (cases "c_Save c")
  case True
  have tid: "plain_id (c_TestID c)" "CHR ''.'' \<notin> set (c_TestID c)" using assms(3) by (simp_all add: simple_id_def)
  obtain fs' i where fs': "fst (newTest e rm_err now c fs) = fs'" "store_ready (e_basePath e) b fs'"
    and cont: "\<And>q. content fs' q = (if q = b @ [c_TestID c @ ''.1''] then Some []
       else if \<exists>n. q = b @ [c_TestID c @ n] then None else content fs q)"
    by (rule newTest_saved [OF results_okD(1) [OF assms(1)] tid(1) assms(2) True, of now]) blast
  have "results_ok (e_basePath e) b fs'"
  proof (rule results_ok_frame [OF assms(1) fs'(2)])
    fix n
    have "file_of_lines fs' (b @ [c_TestID c @ ''.1''])" by (rule file_of_linesI [of _ _ "[]"]) (simp_all add: cont)
    then show "content fs' (b @ [n]) = content fs (b @ [n]) \<or> content fs' (b @ [n]) = None
      \<or> (\<exists>tid. n = tid @ ''.1'' \<and> simple_id tid) \<and> file_of_lines fs' (b @ [n])"
      using assms(3) by (cases "n = c_TestID c @ ''.1''") (auto simp: cont)
  qed
  moreover have "saved b fs' x = spec_op js (Op_start now c) (saved b fs) x" for x
  proof (cases "x = c_TestID c")
    case eq: True
    show ?thesis using saved_lines [of fs' b x "[]"] True by (simp add: cont eq)
  next
    case False
    then have "content fs' (b @ [x @ ''.1'']) = (if HasPrefix x (c_TestID c) then None else content fs (b @ [x @ ''.1'']))"
      using prefix_of_name [OF tid(2), of x] by (simp add: cont)
    then show ?thesis using True False by (simp add: saved_def)
  qed
  ultimately show ?thesis using fs'(1) by auto
next
  case False
  then show ?thesis using assms(1) by (simp add: newTest_files)
qed

lemma flush_enc:
  assumes "op_ok js b (Op_flush now t) (fs, n)"
  obtains i where "t_DataFile t = Some (Open i)" and "map_of (fs_names fs) (b @ [t_ID t @ ''.1'']) = Some i"
    and "snd (sendAndSaveData e js now t fs n) =
      (write_lines now (Some (Open i)) (flush_lines js t) fs, snd (send_cons (stats_signal (t_DPS t) (t_errors t)) (t_cons t) n))"
proof -
  let ?d = "\<lambda>d. case js_dp js d of Inr x \<Rightarrow> x | Inl _ \<Rightarrow> []" and ?x = "\<lambda>x. case js_err js x of Inr x \<Rightarrow> x | Inl _ \<Rightarrow> []"
  obtain i where i: "t_DataFile t = Some (Open i)" "map_of (fs_names fs) (b @ [t_ID t @ ''.1'']) = Some i"
    using assms by auto
  have c: "c_Save (t_Config t)" and enc: "list_all (\<lambda>d. \<exists>x. js_dp js d = Inr x) (t_DPS t)" "list_all (\<lambda>d. \<exists>x. js_err js d = Inr x) (t_errors t)"
    using assms by simp_all
  have d: "\<forall>d \<in> set (t_DPS t). js_dp js d = Inr (?d d)" and x: "\<forall>x \<in> set (t_errors t). js_err js x = Inr (?x x)"
    using enc by (auto simp: list_all_iff split: sum.split)
  show ?thesis by (rule that [OF i]) (simp add: flush_saved [OF c i(1) d x] flush_lines_def)
qed

lemma fs_dirs_write_lines [simp]: "fs_dirs (write_lines now h ls fs) = fs_dirs fs"
  by (induction ls arbitrary: fs) (simp_all add: write_lines_def)

lemma flush_refines:
  assumes "results_ok (e_basePath e) b fs" and "op_ok js b (Op_flush now t) (fs, n)"
  defines "fs' \<equiv> fst (snd (sendAndSaveData e js now t fs n))"
  shows "results_ok (e_basePath e) b fs' \<and> saved b fs' = spec_op js (Op_flush now t) (saved b fs)"
proof -
  let ?p = "b @ [t_ID t @ ''.1'']"
  obtain i where "map_of (fs_names fs) ?p = Some i" and "snd (sendAndSaveData e js now t fs n) =
      (write_lines now (Some (Open i)) (flush_lines js t) fs, snd (send_cons (stats_signal (t_DPS t) (t_errors t)) (t_cons t) n))"
    by (rule flush_enc [OF assms(2), of e])
  then have i: "map_of (fs_names fs) ?p = Some i" "fs' = write_lines now (Some (Open i)) (flush_lines js t) fs"
    by (simp_all add: fs'_def)
  have "fs_ok fs" using store_readyD(2) [OF results_okD(1) [OF assms(1)]] .
  note W = write_lines_spec [OF this i(1), where now = now and ls = "flush_lines js t", folded i(2)]
  have p: "?p \<in> set (paths fs)" using i(1) by (auto simp: in_paths_iff content_def)
  then obtain ls where ls: "content fs ?p = Some (join_lines ls)" "\<forall>l \<in> set ls. plain_line l"
    using results_okD(3) [OF assms(1)] by (auto simp: file_of_lines_def)
  have data: "fs_data fs i = join_lines ls" using ls(1) i(1) by (simp add: content_def)
  have new: "content fs' ?p = Some (join_lines (ls @ flush_lines js t))"
    using W [of ?p] data by simp
  have other: "q \<noteq> ?p \<Longrightarrow> content fs' q = content fs q" for q using W [of q] by simp
  have plain: "\<forall>l \<in> set (ls @ flush_lines js t). plain_line l"
    using ls(2) assms(2) by (auto simp: list_all_iff)
  have "store_ready (e_basePath e) b fs'"
    using W by (intro store_ready_frame [OF results_okD(1) [OF assms(1)]]) (auto simp: i(2) paths_def)
  then have "results_ok (e_basePath e) b fs'"
  proof (rule results_ok_frame [OF assms(1)])
    fix m
    show "content fs' (b @ [m]) = content fs (b @ [m]) \<or> content fs' (b @ [m]) = None
      \<or> (\<exists>tid. m = tid @ ''.1'' \<and> simple_id tid) \<and> file_of_lines fs' (b @ [m])"
    proof (cases "b @ [m] = ?p")
      case True
      then show ?thesis using file_of_linesI [OF new plain] results_okD(2) [OF assms(1) p] by auto
    qed (simp add: other)
  qed
  moreover have "saved b fs' x = spec_op js (Op_flush now t) (saved b fs) x" for x
    using saved_lines [OF new plain] saved_lines [OF ls] saved_content [OF other, of b x]
    by (cases "x = t_ID t") auto
  ultimately show ?thesis by auto
qed

lemma fs_dirs_remove_reporting [simp]: "fs_dirs (fst (remove_reporting rm_err con ps fs n)) = fs_dirs fs"
  by (induction ps arbitrary: fs n) (auto simp: Remove_def split: option.split)

lemma delete_refines:
  assumes "results_ok base b fs" and "\<forall>p. rm_err p = None" and "op_ok js b (Op_delete con sig) (fs, n)"
  defines "r \<equiv> deleteTestsFromDisk rm_err base con sig fs n"
  shows "results_ok base b (fst r) \<and> saved b (fst r) = (saved b fs)(sig_id sig := None)
    \<and> nt_out (snd r) = nt_out n @ spec_reply (Op_delete con sig) (saved b fs)"
proof -
  have id: "plain_id (c_TestID (ws_Config sig))" "CHR ''.'' \<notin> set (sig_id sig)" "c_TestID (ws_Config sig) \<noteq> []" "live n con"
    using assms(3) by (simp_all add: simple_id_def sig_id_def)
  note del = deleteTestsFromDisk_one [OF results_okD(1) [OF assms(1)] id(1,3) assms(2) id(4), folded r_def sig_id_def]
  note R = results_okD(1) [OF assms(1)]
  have "fs_ok (fst r) \<and> fs_dirs (fst r) = fs_dirs fs"
    using id(1,3) store_readyD(2) [OF R]
    by (auto simp: r_def deleteTestsFromDisk_def Glob_files(1) [OF R] split_beta Let_def intro: inv_intros)
  moreover have "set (paths (fst r)) \<subseteq> set (paths fs)" using del by (auto simp: in_paths_iff split: if_splits)
  ultimately have ready: "store_ready base b (fst r)" using store_ready_frame [OF R] by blast
  have "results_ok base b (fst r)"
    by (rule results_ok_frame [OF assms(1) ready]) (use del in auto)
  moreover have "saved b (fst r) x = ((saved b fs)(sig_id sig := None)) x" for x
  proof (cases "x = sig_id sig")
    case True
    then show ?thesis using del [of "b @ [x @ ''.1'']"] by (simp add: saved_def)
  next
    case False
    show ?thesis
    proof (cases "b @ [x @ ''.1''] \<in> set (paths fs)")
      case True
      then have "CHR ''.'' \<notin> set x" using results_okD(2) [OF assms(1), of "x @ ''.1''"] by (auto simp: simple_id_def)
      then have "\<not> (\<exists>k. x @ ''.1'' = sig_id sig @ ''.'' @ k)" using file_of_name [OF id(2), of x] False by metis
      then show ?thesis using False del [of "b @ [x @ ''.1'']"] by (simp add: saved_def)
    next
      case out: False
      then have "content fs (b @ [x @ ''.1'']) = None" by (simp add: in_paths_iff)
      then show ?thesis using del [of "b @ [x @ ''.1'']"] False by (simp add: saved_def)
    qed
  qed
  ultimately show ?thesis using del by auto
qed

lemma download_refines:
  assumes "results_ok base b fs" and "op_ok js b (Op_download con sig) (fs, n)"
  shows "nt_out (getTestOnServer base con sig fs n) = nt_out n @ spec_reply (Op_download con sig) (saved b fs)"
proof -
  have id: "plain_id (c_TestID (ws_Config sig))" "CHR ''.'' \<notin> set (c_TestID (ws_Config sig))" "live n con"
    using assms(2) by (simp_all add: simple_id_def sig_id_def)
  let ?tid = "c_TestID (ws_Config sig)" let ?p = "b @ [?tid @ ''.1'']"
  note R = results_okD(1) [OF assms(1)]
  have "distinct (paths fs)" using store_readyD(2) [OF R] by (simp add: fs_ok_def)
  note files = files_of_test [OF assms(1) id(2) this]
  have "\<forall>p \<in> set (sort (filter (\<lambda>q. \<exists>k. q = b @ [?tid @ ''.'' @ k]) (paths fs))). file_of_lines fs p"
    unfolding files using results_okD(3) [OF assms(1)] by simp
  note live = getTestOnServer_live [OF R id(1,3) this]
  show ?thesis unfolding live files by (auto simp: saved_def sig_id_def in_paths_iff)
qed

interpretation files: store_refinement "run_op e rm_err js" "op_ok js b"
    "\<lambda>s. results_ok (e_basePath e) b (fst s) \<and> (\<forall>p. rm_err p = None)" "\<lambda>s. saved b (fst s)" "spec_op js"
  for e rm_err js b
proof
  fix s op
  assume inv: "results_ok (e_basePath e) b (fst s) \<and> (\<forall>p. rm_err p = None)" and ok: "op_ok js b op s"
  obtain fs n where s: "s = (fs, n)" by (cases s)
  have "results_ok (e_basePath e) b (fst (run_op e rm_err js op s)) \<and> saved b (fst (run_op e rm_err js op s)) = spec_op js op (saved b fs)"
  proof (cases op)
    case (Op_start now c)
    then show ?thesis using start_refines [where now = now and js = js and b = b and fs = fs] inv ok by (simp add: s)
  next
    case (Op_flush now t)
    show ?thesis
      using flush_refines [of e b fs js now t n] inv ok unfolding Op_flush s run_op.simps fst_conv by blast
  next
    case (Op_delete con sig)
    show ?thesis
      using delete_refines [of "e_basePath e" b fs rm_err js con sig n] inv ok
      unfolding Op_delete s run_op.simps spec_op.simps fst_conv by blast
  next
    case (Op_download con sig)
    then show ?thesis using inv by (simp add: s)
  qed
  then show "results_ok (e_basePath e) b (fst (run_op e rm_err js op s)) \<and> (\<forall>p. rm_err p = None)"
    "saved b (fst (run_op e rm_err js op s)) = spec_op js op (saved b (fst s))"
    using inv by (simp_all add: s)
qed

text \<open>
  C2: The result files refine the abstract store: from a directory that holds results only, every
  history of starts, flushes, deletions and downloads that are asked for properly leaves such a
  directory, whose map from identifiers to saved lines is the one that the specification of the history
  gives. A list of tests then has exactly the identifiers of the map, and a download or a deletion
  answers what the map says.
\<close>

theorem result_store_refines:
  assumes "results_ok (e_basePath e) b fs" and "\<forall>p. rm_err p = None"
    and "asked_properly (run_op e rm_err js) (op_ok js b) ops (fs, n)"
    and "fold (run_op e rm_err js) ops (fs, n) = (fs', n')"
  defines "A \<equiv> fold (spec_op js) ops (saved b fs)"
  shows "results_ok (e_basePath e) b fs' \<and> saved b fs' = A
    \<and> (\<exists>l. listTestsFromDisk (e_basePath e) fs' = Return l \<and> set (map ti_ID l) = dom A)
    \<and> (op_ok js b (Op_download con sig) (fs', n') \<longrightarrow>
        nt_out (snd (run_op e rm_err js (Op_download con sig) (fs', n'))) = nt_out n' @ spec_reply (Op_download con sig) A)
    \<and> (op_ok js b (Op_delete con sig) (fs', n') \<longrightarrow>
        nt_out (snd (run_op e rm_err js (Op_delete con sig) (fs', n'))) = nt_out n' @ spec_reply (Op_delete con sig) A)"
proof -
  have ok: "results_ok (e_basePath e) b fs'" and A: "saved b fs' = A"
    using files.history [of e b "(fs, n)" rm_err js ops] assms by (simp_all add: A_def)
  obtain l where "listTestsFromDisk (e_basePath e) fs' = Return l"
    "set (map ti_ID l) = {tid. b @ [tid @ ''.1''] \<in> set (paths fs')}"
    using listTestsFromDisk_IDs results_okD(1) [OF ok] by blast
  moreover have "{tid. b @ [tid @ ''.1''] \<in> set (paths fs')} = dom A"
    unfolding A [symmetric] by (auto simp: saved_def in_paths_iff dom_def)
  moreover have "nt_out (snd (run_op e rm_err js (Op_download con sig) (fs', n'))) = nt_out n' @ spec_reply (Op_download con sig) A"
    if "op_ok js b (Op_download con sig) (fs', n')"
    using download_refines [OF ok that] by (simp add: A)
  moreover have "nt_out (snd (run_op e rm_err js (Op_delete con sig) (fs', n'))) = nt_out n' @ spec_reply (Op_delete con sig) A"
    if "op_ok js b (Op_delete con sig) (fs', n')"
    using delete_refines [OF ok assms(2) that] by (simp add: A)
  ultimately show ?thesis using ok A by blast
qed

text \<open>
  C39: An identifier with a dot is not kept apart: deleting the test \<open>tid\<close> deletes the results of every
  test whose identifier is \<open>tid\<close>, a dot and anything, as well; it deletes no others.
\<close>

theorem dotted_id_deleted_too:
  assumes "store_ready base b fs" and "plain_id (sig_id sig)" and "sig_id sig \<noteq> []" and "\<forall>p. rm_err p = None" and "live n con"
  shows "saved b (fst (deleteTestsFromDisk rm_err base con sig fs n)) y =
    (if HasPrefix y (sig_id sig @ ''.'') \<or> y = sig_id sig then None else saved b fs y)"
proof -
  let ?tid = "sig_id sig"
  note del = deleteTestsFromDisk_one [OF assms(1) assms(2) [unfolded sig_id_def] assms(3) [unfolded sig_id_def] assms(4,5), folded sig_id_def]
  have "(\<exists>k. y @ ''.1'' = ?tid @ ''.'' @ k) \<longleftrightarrow> HasPrefix y (?tid @ ''.'') \<or> y = ?tid"
  proof
    assume "\<exists>k. y @ ''.1'' = ?tid @ ''.'' @ k"
    then obtain k us where "y = (?tid @ ''.'') @ us \<or> y @ us = ?tid @ ''.'' \<and> ''.1'' = us @ k"
      using append_eq_append_conv2 [of y "''.1''" "?tid @ ''.''"] by auto
    moreover have "us = [] \<or> us = ''.'' \<or> us = ''.1''" if "''.1'' = us @ k"
      using that by (cases us; cases "tl us") auto
    moreover have "y @ ''.1'' \<noteq> ?tid @ ''.''"
    proof
      assume "y @ ''.1'' = ?tid @ ''.''"
      from arg_cong [OF this, of last] show False by simp
    qed
    ultimately show "HasPrefix y (?tid @ ''.'') \<or> y = ?tid" by (auto simp: HasPrefix_iff)
  qed (auto simp: HasPrefix_iff)
  then show ?thesis using del [of "b @ [y @ ''.1'']"] by (simp add: saved_def)
qed

section \<open>Witnesses\<close>

lemma demo_results: "results_ok (e_basePath demo_env) [''d''] demo_fs"
proof -
  have ids: "simple_id ''lat''" "simple_id ''lat-2''" "simple_id ''bw''" by code_simp+
  have "\<exists>tid. n = tid @ ''.1'' \<and> simple_id tid" if "[''d''] @ [n] \<in> set (paths demo_fs)" for n
  proof -
    have "n = ''lat'' @ ''.1'' \<or> n = ''lat-2'' @ ''.1'' \<or> n = ''bw'' @ ''.1''" using that by (simp add: demo_fs_def paths_def)
    with ids show ?thesis by metis
  qed
  then show ?thesis using demo_ready demo_lines by (simp add: results_ok_def demo_env_def)
qed

text \<open>A new test \<open>x\<close> is started, then the old one is downloaded.\<close>

theorem result_store_refines_witness:
  "nt_out (snd (run_op demo_env (\<lambda>_. None) demo_json (Op_download 0 (id_signal ''lat''))
      (run_op demo_env (\<lambda>_. None) demo_json (Op_start 5 (demo_config\<lparr>c_TestID := ''x''\<rparr>)) (demo_fs, demo_net)))) =
      [(0, data_signal ''0{}''), (0, data_signal ''1{}''), (0, zero_signal\<lparr>ws_SType := Done, ws_Code := OK\<rparr>)]
    \<and> saved [''d''] (fst (run_op demo_env (\<lambda>_. None) demo_json (Op_start 5 demo_config) (demo_fs, demo_net))) ''lat-2'' = None
    \<and> saved [''d''] demo_fs ''lat-2'' = Some []"
proof -
  have r: "\<forall>p. (\<lambda>_ :: path. None :: string option) p = None" by simp
  have id: "simple_id ''lat''" "simple_id ''x''" by code_simp+
  have sv: "saved [''d''] demo_fs ''lat'' = Some [''0{}'', ''1{}'']" "saved [''d''] demo_fs ''lat-2'' = Some []"
    by (rule saved_lines; simp add: content_def demo_fs_def plain_line_def max_token_def)+
  have s: "sig_id (id_signal ''lat'') = ''lat''" by (simp add: sig_id_def)
  let ?op = "Op_start 5 (demo_config\<lparr>c_TestID := ''x''\<rparr>)" and ?op2 = "Op_start 5 demo_config"
  let ?run = "run_op demo_env (\<lambda>_. None) demo_json"
  obtain fs' n' where run: "?run ?op (demo_fs, demo_net) = (fs', n')" by fastforce
  then have n': "n' = demo_net" by simp
  have ok: "asked_properly ?run (op_ok demo_json [''d'']) [?op] (demo_fs, demo_net)" using id(2) by simp
  have f: "fold ?run [?op] (demo_fs, demo_net) = (fs', n')" using run by simp
  have spec: "fold (spec_op demo_json) [?op] (saved [''d''] demo_fs) ''lat'' = Some [''0{}'', ''1{}'']"
    using sv(1) by simp
  have "op_ok demo_json [''d''] (Op_download 0 (id_signal ''lat'')) (fs', n')"
    using id(1) demo_live n' by (simp add: s)
  with result_store_refines [OF demo_results r ok f, of 0 "id_signal ''lat''"]
  have "nt_out (snd (?run (Op_download 0 (id_signal ''lat'')) (fs', n'))) =
      nt_out n' @ spec_reply (Op_download 0 (id_signal ''lat'')) (fold (spec_op demo_json) [?op] (saved [''d''] demo_fs))"
    by blast
  then have dl: "nt_out (snd (?run (Op_download 0 (id_signal ''lat'')) (fs', n'))) =
      [(0, data_signal ''0{}''), (0, data_signal ''1{}''), (0, zero_signal\<lparr>ws_SType := Done, ws_Code := OK\<rparr>)]"
    by (simp only: spec_reply.simps s spec) (simp add: n' demo_net_def)
  have ok2: "asked_properly ?run (op_ok demo_json [''d'']) [?op2] (demo_fs, demo_net)" using id(1) by (simp add: demo_config_def)
  obtain fs2 n2 where run2: "?run ?op2 (demo_fs, demo_net) = (fs2, n2)" by fastforce
  then have "fold ?run [?op2] (demo_fs, demo_net) = (fs2, n2)" by simp
  from result_store_refines [OF demo_results r ok2 this]
  have "saved [''d''] fs2 = spec_op demo_json ?op2 (saved [''d''] demo_fs)" by simp
  then have "saved [''d''] fs2 ''lat-2'' = None" by (simp add: demo_config_def)
  with dl sv(2) show ?thesis unfolding run run2 by simp
qed

text \<open>The results above and those of a test \<open>lat.2\<close>.\<close>

definition dotted_fs :: fsys where
  "dotted_fs = demo_fs\<lparr>fs_names := fs_names demo_fs @ [([''d'', ''lat.2.1''], 3)], fs_next := 4\<rparr>"

theorem dotted_id_deleted_too_witness:
  "saved [''d''] dotted_fs ''lat.2'' = Some []
    \<and> saved [''d''] (fst (deleteTestsFromDisk (\<lambda>_. None) ''/d/'' 0 (id_signal ''lat'') dotted_fs demo_net)) ''lat.2'' = None
    \<and> saved [''d''] (fst (deleteTestsFromDisk (\<lambda>_. None) ''/d/'' 0 (id_signal ''lat'') dotted_fs demo_net)) ''lat-2'' = Some []"
proof -
  have ready: "store_ready ''/d/'' [''d''] dotted_fs" by code_simp
  have s: "sig_id (id_signal ''lat'') = ''lat''" by (simp add: sig_id_def)
  have "saved [''d''] dotted_fs ''lat.2'' = Some []" "saved [''d''] dotted_fs ''lat-2'' = Some []"
    by (rule saved_lines; simp add: content_def demo_fs_def dotted_fs_def)+
  then show ?thesis
    using dotted_id_deleted_too [OF ready, of "id_signal ''lat''" "\<lambda>_. None" demo_net 0] plain_id_demo demo_live
    by (simp add: s)
qed

end
