(* ===== verification/SharedSorting.thy ===== *)
theory SharedSorting
  imports SharedTypes
begin

text \<open>
  \<open>shared/sorting.go\<close>: the host filter and the sorting of data points. \<open>slices.SortFunc\<close> sorts with
  an unstable algorithm whose order of equal elements is unspecified, so the functions that sort take
  it as the argument \<open>srt\<close>. The locale \<open>sort_func\<close> states what its documentation promises: the
  result is a permutation of the argument, ascending for a comparison that is negative exactly on the
  pairs with a smaller key. It is interpreted on the insertion sort that the library runs on slices
  of at most twelve elements.
\<close>

section \<open>Sort types and comparisons\<close>

definition SortDefault :: string where "SortDefault = ''RMSH''"
definition SortRMSH :: string where "SortRMSH = ''RMSH''"
definition SortTTFBH :: string where "SortTTFBH = ''TTFBH''"

definition cmp_RMSH :: "DP \<Rightarrow> DP \<Rightarrow> int" where
  "cmp_RMSH a b = (if sint (dp_RMSH a) < sint (dp_RMSH b) then - 1 else 1)"

definition cmp_TTFBH :: "DP \<Rightarrow> DP \<Rightarrow> int" where
  "cmp_TTFBH a b = (if sint (dp_TTFBH a) < sint (dp_TTFBH b) then - 1 else 1)"

text \<open>The comparison of two data points or errors by creation time, from \<open>client.DownloadTest\<close>.\<close>

definition cmp_Created :: "('a \<Rightarrow> time) \<Rightarrow> 'a \<Rightarrow> 'a \<Rightarrow> int" where
  "cmp_Created created a b = (if created a < created b then - 1 else 1)"

section \<open>Operations\<close>

fun HostFilter :: "string \<Rightarrow> DP list \<Rightarrow> DP list" where
  "HostFilter host [] = []"
| "HostFilter host (v # dps) =
     (if Contains (dp_Local v) host then v # HostFilter host dps
      else if Contains (dp_Remote v) host then v # HostFilter host dps
      else HostFilter host dps)"

definition SortDataPointRMSH :: "((DP \<Rightarrow> DP \<Rightarrow> int) \<Rightarrow> DP list \<Rightarrow> DP list) \<Rightarrow> DP list \<Rightarrow> DP list" where
  "SortDataPointRMSH srt dps = srt cmp_RMSH dps"

definition SortDataPointTTFBH :: "((DP \<Rightarrow> DP \<Rightarrow> int) \<Rightarrow> DP list \<Rightarrow> DP list) \<Rightarrow> DP list \<Rightarrow> DP list" where
  "SortDataPointTTFBH srt dps = srt cmp_TTFBH dps"

text \<open>
  The configuration is passed by value: the assignment of the default case to \<open>c.Sort\<close> has no
  effect on the caller.
\<close>

definition SortDataPoints ::
  "((DP \<Rightarrow> DP \<Rightarrow> int) \<Rightarrow> DP list \<Rightarrow> DP list) \<Rightarrow> DP list \<Rightarrow> Config \<Rightarrow> DP list" where
  "SortDataPoints srt dps c =
     (if c_Sort c = SortRMSH then SortDataPointRMSH srt dps
      else if c_Sort c = SortTTFBH then SortDataPointTTFBH srt dps
      else SortDataPointRMSH srt dps)"

text \<open>The key that a configuration sorts and measures by.\<close>

definition sort_key :: "Config \<Rightarrow> DP \<Rightarrow> i64" where
  "sort_key c dp = (if c_Sort c = SortTTFBH then dp_TTFBH dp else dp_RMSH dp)"

section \<open>The contract of the library's sort\<close>

definition key_cmp :: "('a \<Rightarrow> int) \<Rightarrow> ('a \<Rightarrow> 'a \<Rightarrow> int) \<Rightarrow> bool" where
  "key_cmp key cmp \<longleftrightarrow> (\<forall>a b. cmp a b < 0 \<longleftrightarrow> key a < key b)"

lemma key_cmp_RMSH: "key_cmp (\<lambda>dp. sint (dp_RMSH dp)) cmp_RMSH"
  by (simp add: key_cmp_def cmp_RMSH_def)

lemma key_cmp_TTFBH: "key_cmp (\<lambda>dp. sint (dp_TTFBH dp)) cmp_TTFBH"
  by (simp add: key_cmp_def cmp_TTFBH_def)

lemma key_cmp_Created: "key_cmp created (cmp_Created created)"
  by (simp add: key_cmp_def cmp_Created_def)

locale sort_func =
  fixes srt :: "('a \<Rightarrow> 'a \<Rightarrow> int) \<Rightarrow> 'a list \<Rightarrow> 'a list"
  assumes srt_mset: "mset (srt cmp xs) = mset xs"
    and srt_sorted: "key_cmp key cmp \<Longrightarrow> sorted (map key (srt cmp xs))"
begin

lemma srt_set [simp]: "set (srt cmp xs) = set xs"
  by (rule mset_eq_setD) (rule srt_mset)

lemma srt_length [simp]: "length (srt cmp xs) = length xs"
  by (rule mset_eq_length) (rule srt_mset)

text \<open>The sequence of keys of the result does not depend on how ties are ordered.\<close>

lemma srt_keys: "key_cmp key cmp \<Longrightarrow> map key (srt cmp xs) = sort (map key xs)"
  by (rule properties_for_sort [symmetric]) (simp_all add: srt_mset srt_sorted)

end

section \<open>The insertion sort of package slices\<close>

text \<open>
  \<open>insertionSortCmpFunc\<close>: every element is moved left past the larger elements before it. The sorted
  prefix is kept in reverse, so that the element is compared with its neighbour first.
\<close>

fun sink :: "('a \<Rightarrow> 'a \<Rightarrow> int) \<Rightarrow> 'a \<Rightarrow> 'a list \<Rightarrow> 'a list" where
  "sink cmp x [] = [x]"
| "sink cmp x (y # ys) = (if cmp x y < 0 then y # sink cmp x ys else x # y # ys)"

definition insertion_sort :: "('a \<Rightarrow> 'a \<Rightarrow> int) \<Rightarrow> 'a list \<Rightarrow> 'a list" where
  "insertion_sort cmp xs = rev (fold (sink cmp) xs [])"

lemma mset_sink: "mset (sink cmp x ys) = add_mset x (mset ys)"
  by (induction ys) auto

lemma set_sink: "set (sink cmp x ys) = insert x (set ys)"
  by (induction ys) auto

lemma sorted_sink:
  assumes "key_cmp key cmp" and "sorted_wrt (\<lambda>a b. key b \<le> key a) ys"
  shows "sorted_wrt (\<lambda>a b. key b \<le> key a) (sink cmp x ys)"
  using assms(2)
proof (induction ys)
  case (Cons y ys)
  then show ?case using assms(1) by (fastforce simp: key_cmp_def set_sink)
qed simp

lemma fold_sink:
  assumes "key_cmp key cmp" and "sorted_wrt (\<lambda>a b. key b \<le> key a) ys"
  shows "sorted_wrt (\<lambda>a b. key b \<le> key a) (fold (sink cmp) xs ys)"
  using assms(2) by (induction xs arbitrary: ys) (auto intro: sorted_sink [OF assms(1)])

lemma mset_fold_sink: "mset (fold (sink cmp) xs ys) = mset xs + mset ys"
  by (induction xs arbitrary: ys) (auto simp: mset_sink)

interpretation ins: sort_func insertion_sort
proof unfold_locales
  fix cmp :: "'a \<Rightarrow> 'a \<Rightarrow> int" and xs :: "'a list" and key :: "'a \<Rightarrow> int"
  show "mset (insertion_sort cmp xs) = mset xs"
    by (simp add: insertion_sort_def mset_fold_sink)
  assume "key_cmp key cmp"
  then have "sorted_wrt (\<lambda>a b. key b \<le> key a) (fold (sink cmp) xs [])"
    by (intro fold_sink) auto
  then show "sorted (map key (insertion_sort cmp xs))"
    by (simp add: insertion_sort_def sorted_wrt_rev sorted_map)
qed

section \<open>Properties\<close>

lemma HostFilter_eq_filter:
  "HostFilter host dps = filter (\<lambda>v. Contains (dp_Local v) host \<or> Contains (dp_Remote v) host) dps"
  by (induction dps) auto

lemma SortDataPoints_keys:
  assumes "sort_func srt"
  shows "map (\<lambda>dp. sint (sort_key c dp)) (SortDataPoints srt dps c)
    = sort (map (\<lambda>dp. sint (sort_key c dp)) dps)"
  using sort_func.srt_keys [OF assms key_cmp_RMSH] sort_func.srt_keys [OF assms key_cmp_TTFBH]
  by (auto simp: SortDataPoints_def SortDataPointRMSH_def SortDataPointTTFBH_def sort_key_def
      SortRMSH_def SortTTFBH_def)

lemma SortDataPoints_mset:
  assumes "sort_func srt"
  shows "mset (SortDataPoints srt dps c) = mset dps"
  using sort_func.srt_mset [OF assms]
  by (simp add: SortDataPoints_def SortDataPointRMSH_def SortDataPointTTFBH_def)

text \<open>
  For every sort that keeps the promise of the library, the sorted data points are a permutation
  of the input, ascending in the timing that the configuration selects, and their sequence of timings
  is the same for all such sorts: what is computed from the timings does not depend on the order of ties.
\<close>

theorem SortDataPoints_sorts:
  assumes "sort_func srt" and "sort_func srt'"
  shows "mset (SortDataPoints srt dps c) = mset dps
    \<and> sorted (map (\<lambda>dp. sint (sort_key c dp)) (SortDataPoints srt dps c))
    \<and> map (sort_key c) (SortDataPoints srt dps c) = map (sort_key c) (SortDataPoints srt' dps c)"
proof -
  have "map sint (map (sort_key c) (SortDataPoints srt dps c))
      = map sint (map (sort_key c) (SortDataPoints srt' dps c))"
    using SortDataPoints_keys [OF assms(1)] SortDataPoints_keys [OF assms(2)] by (simp add: comp_def)
  then have "map (sort_key c) (SortDataPoints srt dps c) = map (sort_key c) (SortDataPoints srt' dps c)"
    by (rule map_injective) (auto intro: injI i64_eqI)
  then show ?thesis
    by (simp add: SortDataPoints_mset [OF assms(1)] SortDataPoints_keys [OF assms(1)])
qed

theorem SortDataPoints_sorts_witness:
  "map (\<lambda>dp. sint (dp_RMSH dp)) (SortDataPoints insertion_sort
     [zero_dp\<lparr>dp_RMSH := 7\<rparr>, zero_dp\<lparr>dp_RMSH := 2\<rparr>, zero_dp\<lparr>dp_RMSH := 4\<rparr>] zero_config) = [2, 4, 7]
   \<and> sorted (map (\<lambda>dp. sint (sort_key zero_config dp)) (SortDataPoints insertion_sort
     [zero_dp\<lparr>dp_RMSH := 7\<rparr>, zero_dp\<lparr>dp_RMSH := 2\<rparr>, zero_dp\<lparr>dp_RMSH := 4\<rparr>] zero_config))"
proof
  show "sorted (map (\<lambda>dp. sint (sort_key zero_config dp)) (SortDataPoints insertion_sort
     [zero_dp\<lparr>dp_RMSH := 7\<rparr>, zero_dp\<lparr>dp_RMSH := 2\<rparr>, zero_dp\<lparr>dp_RMSH := 4\<rparr>] zero_config))"
    using SortDataPoints_sorts [OF ins.sort_func_axioms ins.sort_func_axioms] by blast
qed (code_simp)

end
