(* ===== verification/SharedFormat.thy ===== *)
theory SharedFormat
  imports SharedTypes
begin

text \<open>
  \<open>BToString\<close> and \<open>BWToString\<close> of \<open>shared/shared.go\<close>: amounts of bytes and rates with a decimal unit
  and two decimals. The value is converted to a \<open>float64\<close> and divided there, so the model computes
  it with the rounding of \<open>GoFloat\<close>.
\<close>

definition BToString :: "u64 \<Rightarrow> string" where
  "BToString b =
     (let n = int (unat b); intF = float_of_int n in
      if n \<le> 999 then Itoa n @ '' B''
      else if n \<le> 999999 then fmt_2f (fdiv intF (float_of_int 1000)) @ '' KB''
      else if n \<le> 999999999 then fmt_2f (fdiv intF (float_of_int 1000000)) @ '' MB''
      else if n \<le> 999999999999 then fmt_2f (fdiv intF (float_of_int 1000000000)) @ '' GB''
      else if n \<le> 999999999999999 then fmt_2f (fdiv intF (float_of_int 1000000000000)) @ '' TB''
      else ''???'')"

definition BWToString :: "u64 \<Rightarrow> string" where
  "BWToString b =
     (let n = int (unat b); intF = float_of_int n in
      if n \<le> 999 then Itoa n @ '' B/s''
      else if n \<le> 999999 then fmt_2f (fdiv intF (float_of_int 1000)) @ '' KB/s''
      else if n \<le> 999999999 then fmt_2f (fdiv intF (float_of_int 1000000)) @ '' MB/s''
      else if n \<le> 999999999999 then fmt_2f (fdiv intF (float_of_int 1000000000)) @ '' GB/s''
      else if n \<le> 999999999999999 then fmt_2f (fdiv intF (float_of_int 1000000000000)) @ '' TB/s''
      else ''???'')"

lemma BWToString_BToString:
  "BWToString b = (if 999999999999999 < unat b then ''???'' else BToString b @ ''/s'')"
proof -
  have "999999999999999 < unat b \<longleftrightarrow> (999999999999999 :: int) < int (unat b)" by linarith
  then show ?thesis by (simp add: BWToString_def BToString_def Let_def)
qed

section \<open>Accuracy\<close>

lemma fmt_2f_quotient:
  assumes "u \<le> n" and "0 < u" and "n < 2 ^ 53"
  shows "\<exists>h. fmt_2f (fdiv (float_of_int (int n)) (float_of_int (int u))) =
      nat_digits (h div 100) @ ''.'' @ two_digits (h mod 100)
    \<and> \<bar>of_nat h / 100 - of_nat n / of_nat u\<bar> \<le> 1 / 200 + of_nat n / of_nat u * pow2 (- 53)"
proof -
  let ?q = "of_nat n / of_nat u :: rat"
  have fl: "float_of_int (int n) = Fin (of_nat n)" "float_of_int (int u) = Fin (of_nat u)"
    using assms by (simp_all add: float_of_int_nat)
  have q1: "1 \<le> ?q" using assms by simp
  have "?q \<le> of_nat n / 1" using assms by (intro divide_left_mono) auto
  also have "\<dots> < of_nat (2 ^ 53)" using assms(3) by (simp only: div_by_1 of_nat_less_iff)
  also have "\<dots> < pow2 64" by (simp add: pow2_def)
  finally have q2: "?q \<le> pow2 64" by simp
  have "pow2 (- 1022) \<le> ?q" using q1 by (intro order_trans [OF _ q1]) (simp add: pow2_def)
  then obtain y where y: "round64 ?q = Fin y" "\<bar>y - ?q\<bar> \<le> ?q * pow2 (- 53)"
    using round64_error q2 by blast
  have "?q * pow2 (- 53) \<le> ?q * 1" using q1 by (intro mult_left_mono) (simp_all add: pow2_def)
  then have y0: "0 \<le> y" using y(2) by linarith
  let ?h = "nat (rne (\<bar>y\<bar> * 100))"
  have h0: "of_nat ?h = (of_int (rne (y * 100)) :: rat)"
    using y0 rne_nonneg [of "y * 100"] by simp
  have "\<bar>of_nat ?h / 100 - y\<bar> = \<bar>of_int (rne (y * 100)) - y * 100\<bar> / 100"
    unfolding h0 by (simp add: field_simps abs_if)
  also have "\<dots> \<le> 1 / 200" using rne_error [of "y * 100"] by simp
  finally have "\<bar>of_nat ?h / 100 - ?q\<bar> \<le> 1 / 200 + ?q * pow2 (- 53)" using y(2) by linarith
  moreover have "fmt_2f (fdiv (float_of_int (int n)) (float_of_int (int u))) =
      nat_digits (?h div 100) @ ''.'' @ two_digits (?h mod 100)"
    using y0 assms(2) by (simp add: fl y(1) Let_def)
  ultimately show ?thesis by blast
qed

fun unit_of :: "nat \<Rightarrow> nat \<times> string" where
  "unit_of n =
     (if n \<le> 999999 then (1000, '' KB'') else if n \<le> 999999999 then (1000000, '' MB'')
      else if n \<le> 999999999999 then (1000000000, '' GB'') else (1000000000000, '' TB''))"

lemma BToString_unit:
  assumes "1000 \<le> unat b" and "unat b \<le> 999999999999999"
  shows "BToString b = fmt_2f (fdiv (float_of_int (int (unat b)))
      (float_of_int (int (fst (unit_of (unat b)))))) @ snd (unit_of (unat b))"
proof -
  obtain m where m: "unat b = m" by blast
  have "1000 \<le> m" "m \<le> 999999999999999" using assms by (simp_all only: m)
  then have "\<not> m \<le> 999" "1000 \<le> m" "m \<le> 999999999999999" by simp_all
  then show ?thesis
    unfolding BToString_def Let_def m by (simp split del: if_split) (simp split: if_split)
qed

text \<open>
  C40: An amount from 1000 bytes to just below a petabyte is printed in the largest unit that does not
  exceed it, with two decimals, and the printed number differs from the exact quotient by at most half
  a hundredth and the rounding of one \<open>float64\<close> division; a rate is printed as the same text with
  \<open>/s\<close>.
\<close>

theorem BToString_accurate:
  assumes "1000 \<le> unat b" and "unat b \<le> 999999999999999"
  shows "\<exists>h. BToString b = nat_digits (h div 100) @ ''.'' @ two_digits (h mod 100) @ snd (unit_of (unat b))
    \<and> \<bar>of_nat h / 100 - of_nat (unat b) / of_nat (fst (unit_of (unat b)))\<bar>
      \<le> 1 / 200 + of_nat (unat b) / of_nat (fst (unit_of (unat b))) * pow2 (- 53)
    \<and> fst (unit_of (unat b)) \<le> unat b \<and> unat b < 1000 * fst (unit_of (unat b))
    \<and> BWToString b = BToString b @ ''/s''"
proof -
  let ?n = "unat b" and ?u = "fst (unit_of (unat b))"
  have u: "0 < ?u" "?u \<le> ?n" "?n < 1000 * ?u" "?n < 2 ^ 53" using assms by auto
  obtain h where h: "fmt_2f (fdiv (float_of_int (int ?n)) (float_of_int (int ?u))) =
      nat_digits (h div 100) @ ''.'' @ two_digits (h mod 100)"
    "\<bar>of_nat h / 100 - of_nat ?n / of_nat ?u\<bar> \<le> 1 / 200 + of_nat ?n / of_nat ?u * pow2 (- 53)"
    using fmt_2f_quotient [OF u(2,1,4)] by blast
  have "BToString b = fmt_2f (fdiv (float_of_int (int ?n)) (float_of_int (int ?u))) @ snd (unit_of ?n)"
    by (rule BToString_unit [OF assms])
  then have "BToString b = nat_digits (h div 100) @ ''.'' @ two_digits (h mod 100) @ snd (unit_of ?n)"
    by (simp only: h(1) append_assoc)
  moreover have "BWToString b = BToString b @ ''/s''"
    using assms(2) by (simp add: BWToString_BToString)
  ultimately show ?thesis using h(2) u by blast
qed

theorem BToString_accurate_witness:
  "BToString 1536 = ''1.54 KB'' \<and> BToString 999999 = ''1000.00 KB''
    \<and> BWToString 999999 = BToString 999999 @ ''/s''"
proof (intro conjI)
  have q: "fdiv (float_of_int 1536) (float_of_int 1000) = Fin (3458764513820541 / 2251799813685248)"
    "fdiv (float_of_int 999999) (float_of_int 1000) = Fin (4398042113057489 / 4398046511104)"
    by code_simp+
  have r: "rne (\<bar>3458764513820541 / 2251799813685248\<bar> * 100) = 154"
    "rne (\<bar>4398042113057489 / 4398046511104\<bar> * 100) = 100000" by code_simp+
  have "fmt_2f (fdiv (float_of_int 1536) (float_of_int 1000)) = ''1.54''"
    "fmt_2f (fdiv (float_of_int 999999) (float_of_int 1000)) = ''1000.00''"
    unfolding q fmt_2f.simps r
    by (simp_all add: nat_digits.simps digit_char_def two_digits_def) (code_simp+)
  then show "BToString 1536 = ''1.54 KB''" "BToString 999999 = ''1000.00 KB''"
    by (simp_all add: BToString_def)
  have "1000 \<le> unat (999999 :: u64)" "unat (999999 :: u64) \<le> 999999999999999" by simp_all
  then show "BWToString 999999 = BToString 999999 @ ''/s''" using BToString_accurate by blast
qed

end
