(* ===== verification/GoTime.thy ===== *)
theory GoTime
  imports GoFloat
begin

text \<open>
  The layouts of \<open>time.Time.Format\<close> that the client prints. An instant is its number of nanoseconds
  since 1970; \<open>zone\<close> gives the offset from UTC, in seconds, of the location that an instant carries,
  which the instant itself does not hold in this model.
\<close>

section \<open>Calendar\<close>

text \<open>
  The proleptic Gregorian date of a day counted from 1970-01-01. Years are counted from March, so that
  the leap day ends one.
\<close>

definition civil_of_days :: "int \<Rightarrow> int \<times> int \<times> int" where
  "civil_of_days n =
     (let z = n + 719468; era = z div 146097; doe = z mod 146097;
          yoe = (doe - doe div 1460 + doe div 36524 - doe div 146096) div 365;
          doy = doe - (365 * yoe + yoe div 4 - yoe div 100);
          mp = (5 * doy + 2) div 153;
          m = (if mp < 10 then mp + 3 else mp - 9)
      in (yoe + era * 400 + (if m \<le> 2 then 1 else 0), m, doy - (153 * mp + 2) div 5 + 1))"

definition local_seconds :: "(time \<Rightarrow> int) \<Rightarrow> time \<Rightarrow> int" where
  "local_seconds zone t = t div 1000000000 + zone t"

definition second_of_day :: "(time \<Rightarrow> int) \<Rightarrow> time \<Rightarrow> nat" where
  "second_of_day zone t = nat (local_seconds zone t mod 86400)"

section \<open>Layouts\<close>

text \<open>Layout \<open>15:04:05\<close>.\<close>

definition Format_clock :: "(time \<Rightarrow> int) \<Rightarrow> time \<Rightarrow> string" where
  "Format_clock zone t =
     (let s = second_of_day zone t
      in two_digits (s div 3600) @ '':'' @ two_digits (s div 60 mod 60) @ '':'' @ two_digits (s mod 60))"

definition four_digits :: "int \<Rightarrow> string" where
  "four_digits y =
     (let n = nat \<bar>y\<bar> in (if y < 0 then ''-'' else []) @
        (if n < 10000 then two_digits (n div 100) @ two_digits (n mod 100) else nat_digits n))"

text \<open>Layout \<open>time.RFC3339\<close>.\<close>

definition Format_rfc3339 :: "(time \<Rightarrow> int) \<Rightarrow> time \<Rightarrow> string" where
  "Format_rfc3339 zone t =
     (let (y, m, d) = civil_of_days (local_seconds zone t div 86400); z = zone t; a = nat (\<bar>z\<bar> div 60)
      in four_digits y @ ''-'' @ two_digits (nat m) @ ''-'' @ two_digits (nat d) @ ''T'' @ Format_clock zone t @
         (if z = 0 then ''Z''
          else (if z < 0 then ''-'' else ''+'') @ two_digits (a div 60) @ '':'' @ two_digits (a mod 60)))"

text \<open>Layout \<open>02/01/2006 3:04 PM\<close>.\<close>

definition Format_list :: "(time \<Rightarrow> int) \<Rightarrow> time \<Rightarrow> string" where
  "Format_list zone t =
     (let (y, m, d) = civil_of_days (local_seconds zone t div 86400);
          s = second_of_day zone t; h = s div 3600; h12 = (if h mod 12 = 0 then 12 else h mod 12)
      in two_digits (nat d) @ ''/'' @ two_digits (nat m) @ ''/'' @ four_digits y @ '' '' @ nat_digits h12 @ '':'' @
         two_digits (s div 60 mod 60) @ '' '' @ (if h < 12 then ''AM'' else ''PM''))"

lemma length_two_digits [simp]: "length (two_digits n) = 2"
  by (simp add: two_digits_def)

lemma length_Format_clock [simp]: "length (Format_clock zone t) = 8"
  by (simp add: Format_clock_def Let_def)

end
