(* ===== verification/ClientTable.thy ===== *)
theory ClientTable
  imports SharedFormat GoTime
begin

text \<open>
  The tables of \<open>client/table.go\<close>. A printed line is either plain text or the arguments that a
  \<open>lipgloss\<close> style renders, which adds colours and is not modelled. The width of a text is its number
  of runes, as \<open>fmt\<close> pads it; texts are valid UTF-8. \<open>headerSlice\<close> is a global that the first
  header printed initialises, so it is part of the state of the screen.
\<close>

section \<open>Headers\<close>

datatype HeaderField =
    IntNumber | Created | Local | Remote | RMSH | RMSL | TTFBH | TTFBL | TX | TXH | TXL | TXT | TXCount
  | ErrCount | DroppedPackets | MemoryUsage | MemoryHigh | MemoryLow | CPUUsage | CPUHigh | CPULow | ID
  | HumanTime

definition field_list :: "HeaderField list" where
  "field_list = [IntNumber, Created, Local, Remote, RMSH, RMSL, TTFBH, TTFBL, TX, TXH, TXL, TXT, TXCount,
     ErrCount, DroppedPackets, MemoryUsage, MemoryHigh, MemoryLow, CPUUsage, CPUHigh, CPULow, ID, HumanTime]"

text \<open>The value that \<open>iota\<close> gives a field: its place in the declaration.\<close>

fun field_num :: "HeaderField \<Rightarrow> nat" where
  "field_num IntNumber = 0" | "field_num Created = 1" | "field_num Local = 2" | "field_num Remote = 3"
| "field_num RMSH = 4" | "field_num RMSL = 5" | "field_num TTFBH = 6" | "field_num TTFBL = 7"
| "field_num TX = 8" | "field_num TXH = 9" | "field_num TXL = 10" | "field_num TXT = 11"
| "field_num TXCount = 12" | "field_num ErrCount = 13" | "field_num DroppedPackets = 14"
| "field_num MemoryUsage = 15" | "field_num MemoryHigh = 16" | "field_num MemoryLow = 17"
| "field_num CPUUsage = 18" | "field_num CPUHigh = 19" | "field_num CPULow = 20" | "field_num ID = 21"
| "field_num HumanTime = 22"

definition header_length :: nat where
  "header_length = 23"

record header =
  h_label :: string
  h_width :: nat

record column =
  col_value :: string
  col_width :: nat

definition headerSlice0 :: "header list" where
  "headerSlice0 = replicate header_length \<lparr>h_label = [], h_width = 0\<rparr>"

definition set_header :: "HeaderField \<times> string \<times> nat \<Rightarrow> header list \<Rightarrow> header list" where
  "set_header x hs = hs[field_num (fst x) := \<lparr>h_label = fst (snd x), h_width = snd (snd x)\<rparr>]"

definition initHeaders :: "header list \<Rightarrow> header list" where
  "initHeaders hs = fold set_header
     [(IntNumber, ''#'', 5), (Created, ''Created'', 8), (Local, ''Local'', 15), (Remote, ''Remote'', 15),
      (RMSH, ''RMS(high)'', 9), (RMSL, ''RMS(low)'', 9), (TTFBH, ''TTFB(high)'', 9), (TTFBL, ''TTFB(low)'', 9),
      (TX, ''TX'', 10), (TXL, ''TX(low)'', 10), (TXH, ''TX(high)'', 10), (TXT, ''TX(total)'', 15),
      (TXCount, ''#TX'', 10), (ErrCount, ''#ERR'', 6), (DroppedPackets, ''#Dropped'', 9),
      (MemoryUsage, ''Mem(used)'', 9), (MemoryHigh, ''Mem(high)'', 9), (MemoryLow, ''Mem(low)'', 9),
      (CPUUsage, ''CPU(used)'', 9), (CPUHigh, ''CPU(high)'', 9), (CPULow, ''CPU(low)'', 9), (ID, ''ID'', 30),
      (HumanTime, ''Time'', 30)] hs"

definition ListHeaders :: "HeaderField list" where
  "ListHeaders = [IntNumber, ID, HumanTime]"

definition BandwidthHeaders :: "HeaderField list" where
  "BandwidthHeaders = [Created, Local, Remote, TX, ErrCount, DroppedPackets, MemoryUsage, CPUUsage]"

definition LatencyHeaders :: "HeaderField list" where
  "LatencyHeaders = [Created, Local, Remote, RMSH, RMSL, TTFBH, TTFBL, TX, TXCount, ErrCount, DroppedPackets,
     MemoryUsage, CPUUsage]"

definition FullDataPointHeaders :: "HeaderField list" where
  "FullDataPointHeaders = [Created, Local, Remote, RMSH, RMSL, TTFBH, TTFBL, TX, TXCount, ErrCount,
     DroppedPackets, MemoryUsage, CPUUsage]"

definition RealTimeBandwidthHeaders :: "HeaderField list" where
  "RealTimeBandwidthHeaders = [ErrCount, TXCount, TXH, TXL, TXT, DroppedPackets, MemoryHigh, MemoryLow,
     CPUHigh, CPULow]"

definition RealTimeLatencyHeaders :: "HeaderField list" where
  "RealTimeLatencyHeaders = [ErrCount, TXCount, TXH, TXL, TXT, RMSH, RMSL, TTFBH, TTFBL, DroppedPackets,
     MemoryHigh, MemoryLow, CPUHigh, CPULow]"

section \<open>Formatting\<close>

fun GenerateFormatString :: "nat \<Rightarrow> string" where
  "GenerateFormatString 0 = []"
| "GenerateFormatString (Suc n) = GenerateFormatString n @ ''%-*s ''"

definition rune_count :: "string \<Rightarrow> nat" where
  "rune_count s = length (filter (\<lambda>c. \<not> (128 \<le> (of_char c :: nat) \<and> (of_char c :: nat) < 192)) s)"

definition pad :: "column \<Rightarrow> string" where
  "pad c = col_value c @ replicate (col_width c - rune_count (col_value c)) (CHR '' '')"

text \<open>
  \<open>fmt.Sprintf\<close> for a format whose only verb is \<open>%-*s\<close>, which takes a width and a text: padded on the
  right. What is missing or left over is marked in the result.
\<close>

fun Sprintf :: "string \<Rightarrow> column list \<Rightarrow> string" where
  "Sprintf [] [] = []"
| "Sprintf [] (c # cs) = ''%!(EXTRA)''"
| "Sprintf (x # fs) [] =
     (if HasPrefix (x # fs) ''%-*s'' then ''%!(BADWIDTH)%!s(MISSING)'' @ Sprintf (drop 3 fs) []
      else x # Sprintf fs [])"
| "Sprintf (x # fs) (c # cs) =
     (if HasPrefix (x # fs) ''%-*s'' then pad c @ Sprintf (drop 3 fs) cs else x # Sprintf fs (c # cs))"

definition formatInt :: "i64 \<Rightarrow> string" where
  "formatInt v = Itoa (sint v)"

definition formatUint :: "u64 \<Rightarrow> string" where
  "formatUint v = Itoa (int (unat v))"

section \<open>The screen\<close>

datatype style = HeaderStyle | BaseStyle | SuccessStyle | WarningStyle | ErrorStyle | NewStyle

datatype line = Styled style "string list" | Plain string

record screen =
  headerSlice :: "header list"
  printed :: "line list"

definition init_screen :: screen where
  "init_screen = \<lparr>headerSlice = headerSlice0, printed = []\<rparr>"

definition Println :: "line \<Rightarrow> screen \<Rightarrow> screen" where
  "Println l sc = sc\<lparr>printed := printed sc @ [l]\<rparr>"

definition width :: "screen \<Rightarrow> HeaderField \<Rightarrow> nat" where
  "width sc f = h_width (headerSlice sc ! field_num f)"

definition header_columns :: "screen \<Rightarrow> HeaderField list \<Rightarrow> column list" where
  "header_columns sc hf =
     map (\<lambda>f. let h = headerSlice sc ! field_num f in \<lparr>col_value = h_label h, col_width = h_width h\<rparr>) hf"

definition printHeader :: "HeaderField list \<Rightarrow> screen \<Rightarrow> screen" where
  "printHeader hf sc =
     (let sc1 = (if h_width (headerSlice sc ! 0) = 0 then sc\<lparr>headerSlice := initHeaders (headerSlice sc)\<rparr> else sc)
      in Println (Styled HeaderStyle
           [Sprintf (GenerateFormatString (length hf)) (header_columns sc1 hf)]) sc1)"

definition PrintColumns :: "style \<Rightarrow> column list \<Rightarrow> screen \<Rightarrow> screen" where
  "PrintColumns st columns sc =
     Println (Styled st [Sprintf (GenerateFormatString (length columns)) columns]) sc"

section \<open>Percentiles\<close>

definition PrintPercentilesHeader :: "style \<Rightarrow> string \<Rightarrow> screen \<Rightarrow> screen" where
  "PrintPercentilesHeader st tag sc =
     Println (Styled st [Sprintf (GenerateFormatString 6)
       [\<lparr>col_value = tag, col_width = 4\<rparr>, \<lparr>col_value = ''count'', col_width = 10\<rparr>,
        \<lparr>col_value = ''sum'', col_width = 10\<rparr>, \<lparr>col_value = ''min'', col_width = 10\<rparr>,
        \<lparr>col_value = ''avg'', col_width = 10\<rparr>, \<lparr>col_value = ''max'', col_width = 10\<rparr>]]) sc"

definition percentile_columns :: "i64 list \<Rightarrow> Config \<Rightarrow> column list" where
  "percentile_columns dps c =
     (let show = (\<lambda>i. formatInt (if c_Micro c then dps ! i else go_div (dps ! i) 1000))
      in [\<lparr>col_value = [], col_width = 4\<rparr>, \<lparr>col_value = formatInt (dps ! 0), col_width = 10\<rparr>,
          \<lparr>col_value = show 1, col_width = 10\<rparr>, \<lparr>col_value = show 2, col_width = 10\<rparr>,
          \<lparr>col_value = show 3, col_width = 10\<rparr>, \<lparr>col_value = show 4, col_width = 10\<rparr>])"

definition PrintPercentiles :: "style \<Rightarrow> string \<Rightarrow> i64 list \<Rightarrow> Config \<Rightarrow> screen \<Rightarrow> screen" where
  "PrintPercentiles st tag dps c sc =
     Println (Styled BaseStyle [Sprintf (GenerateFormatString 6) (percentile_columns dps c)])
       (PrintPercentilesHeader st tag sc)"

section \<open>Data points\<close>

definition data_point_headers :: "TestType \<Rightarrow> HeaderField list" where
  "data_point_headers t =
     (case t of StreamTest \<Rightarrow> BandwidthHeaders | RequestTest \<Rightarrow> LatencyHeaders | _ \<Rightarrow> FullDataPointHeaders)"

definition printDataPointHeaders :: "TestType \<Rightarrow> screen \<Rightarrow> screen" where
  "printDataPointHeaders t = printHeader (data_point_headers t)"

definition row_columns :: "(time \<Rightarrow> int) \<Rightarrow> DP \<Rightarrow> TestType \<Rightarrow> screen \<Rightarrow> column list" where
  "row_columns zone e t sc =
     (let col = (\<lambda>s f. \<lparr>col_value = s, col_width = width sc f\<rparr>); num = (\<lambda>n. formatInt (word_of_int n));
          host = (\<lambda>s. hd (Split (CHR '':'') s))
      in case t of
           StreamTest \<Rightarrow>
             [col (Format_clock zone (dp_Created e)) Created, col (host (dp_Local e)) Local,
              col (host (dp_Remote e)) Remote, col (BWToString (dp_TX e)) TX,
              col (num (dp_ErrCount e)) ErrCount, col (num (dp_DroppedPackets e)) DroppedPackets,
              col (num (dp_MemoryUsedPercent e)) MemoryUsage, col (num (dp_CPUUsedPercent e)) CPUUsage]
         | RequestTest \<Rightarrow>
             [col (Format_clock zone (dp_Created e)) Created, col (host (dp_Local e)) Local,
              col (host (dp_Remote e)) Remote, col (formatInt (dp_RMSH e)) RMSH,
              col (formatInt (dp_RMSL e)) RMSL, col (formatInt (dp_TTFBH e)) TTFBH,
              col (formatInt (dp_TTFBL e)) TTFBH, col (BWToString (dp_TX e)) TX,
              col (formatUint (dp_TXCount e)) TXCount, col (num (dp_ErrCount e)) ErrCount,
              col (num (dp_DroppedPackets e)) DroppedPackets,
              col (num (dp_MemoryUsedPercent e)) MemoryUsage, col (num (dp_CPUUsedPercent e)) CPUUsage]
         | _ \<Rightarrow> [])"

definition printTableRow :: "(time \<Rightarrow> int) \<Rightarrow> style \<Rightarrow> DP \<Rightarrow> TestType \<Rightarrow> screen \<Rightarrow> screen" where
  "printTableRow zone st e t sc =
     (if t \<in> {StreamTest, RequestTest} then PrintColumns st (row_columns zone e t sc) sc else sc)"

section \<open>The running totals of a test\<close>

definition real_time_headers :: "TestType \<Rightarrow> HeaderField list option" where
  "real_time_headers t =
     (case t of StreamTest \<Rightarrow> Some RealTimeBandwidthHeaders | RequestTest \<Rightarrow> Some RealTimeLatencyHeaders
      | _ \<Rightarrow> None)"

definition printRealTimeHeaders :: "TestType \<Rightarrow> screen \<Rightarrow> screen" where
  "printRealTimeHeaders t sc = (case real_time_headers t of None \<Rightarrow> sc | Some fs \<Rightarrow> printHeader fs sc)"

definition real_time_columns :: "TestOutput \<Rightarrow> TestType \<Rightarrow> screen \<Rightarrow> column list" where
  "real_time_columns e t sc =
     (let col = (\<lambda>s f. \<lparr>col_value = s, col_width = width sc f\<rparr>); num = (\<lambda>n. formatInt (word_of_int n));
          start = [col (num (to_ErrCount e)) ErrCount, col (formatUint (to_TXC e)) TXCount,
            col (BWToString (to_TXH e)) TXH, col (BWToString (to_TXL e)) TXL, col (BToString (to_TXT e)) TXT];
          timings = [col (formatInt (to_RMSH e)) RMSH, col (formatInt (to_RMSL e)) RMSL,
            col (formatInt (to_TTFBH e)) TTFBH, col (formatInt (to_TTFBL e)) TTFBL];
          end = [col (num (to_DP e)) DroppedPackets, col (num (to_MH e)) MemoryHigh,
            col (num (to_ML e)) MemoryLow, col (num (to_CH e)) CPUHigh, col (num (to_CL e)) CPULow]
      in case t of StreamTest \<Rightarrow> start @ end | RequestTest \<Rightarrow> start @ timings @ end | _ \<Rightarrow> [])"

definition printRealTimeRow :: "style \<Rightarrow> TestOutput \<Rightarrow> TestType \<Rightarrow> screen \<Rightarrow> screen" where
  "printRealTimeRow st e t sc =
     (if t \<in> {StreamTest, RequestTest} then PrintColumns st (real_time_columns e t sc) sc else sc)"

section \<open>Errors\<close>

definition PrintTError :: "(time \<Rightarrow> int) \<Rightarrow> TError \<Rightarrow> screen \<Rightarrow> screen" where
  "PrintTError zone e = Println (Styled ErrorStyle [Format_rfc3339 zone (te_Created e), '' - '', te_Error e])"

definition PrintErrorString :: "string \<Rightarrow> screen \<Rightarrow> screen" where
  "PrintErrorString e = Println (Styled ErrorStyle [e])"

definition PrintError :: "string option \<Rightarrow> screen \<Rightarrow> screen" where
  "PrintError err sc = (case err of None \<Rightarrow> sc | Some e \<Rightarrow> Println (Styled ErrorStyle [''ERROR: '', e]) sc)"

section \<open>Lemmas\<close>

lemma rune_count_simps [simp]:
  "rune_count [] = 0" "rune_count (s @ t) = rune_count s + rune_count t"
  "rune_count (replicate n (CHR '' '')) = n"
  by (simp_all add: rune_count_def)

lemma rune_count_space [simp]: "rune_count (CHR '' '' # s) = Suc (rune_count s)"
  by (simp add: rune_count_def)

text \<open>The text of a row, and where its columns start on the screen.\<close>

definition table_text :: "column list \<Rightarrow> string" where
  "table_text cols = concat (map (\<lambda>c. pad c @ '' '') cols)"

definition starts :: "column list \<Rightarrow> nat \<Rightarrow> nat" where
  "starts cols k = rune_count (table_text (take k cols))"

definition fits :: "column list \<Rightarrow> bool" where
  "fits cols \<longleftrightarrow> list_all (\<lambda>c. rune_count (col_value c) \<le> col_width c) cols"

lemma Sprintf_verb: "Sprintf (''%-*s '' @ fs) (c # cs) = pad c @ '' '' @ Sprintf fs cs"
  by (cases cs) simp_all

lemma GenerateFormatString_front: "GenerateFormatString (Suc n) = ''%-*s '' @ GenerateFormatString n"
  by (induction n) simp_all

lemma Sprintf_columns [simp]: "Sprintf (GenerateFormatString (length cols)) cols = table_text cols"
proof (induction cols)
  case (Cons c cols)
  have "Sprintf (GenerateFormatString (length (c # cols))) (c # cols)
      = Sprintf (''%-*s '' @ GenerateFormatString (length cols)) (c # cols)"
    by (simp only: length_Cons GenerateFormatString_front)
  then show ?case by (simp only: Sprintf_verb Cons.IH) (simp add: table_text_def)
qed (simp add: table_text_def)

lemma rune_count_pad: "rune_count (pad c) = max (rune_count (col_value c)) (col_width c)"
  by (simp add: pad_def max_def)

lemma starts_eq:
  "starts cols k = (\<Sum>c\<leftarrow>take k cols. Suc (max (rune_count (col_value c)) (col_width c)))"
  unfolding starts_def table_text_def by (induction cols arbitrary: k) (auto simp: take_Cons rune_count_pad split: nat.split)

lemma starts_fits:
  assumes "fits cols"
  shows "starts cols k = (\<Sum>w\<leftarrow>take k (map col_width cols). Suc w)"
proof -
  have "map (\<lambda>c. Suc (max (rune_count (col_value c)) (col_width c))) (take k cols) = map Suc (take k (map col_width cols))"
    using assms by (auto simp: fits_def list_all_iff take_map dest: in_set_takeD)
  then show ?thesis by (simp only: starts_eq)
qed

text \<open>The headers are not initialised or complete; printing a header completes them.\<close>

definition full_headers :: "header list" where
  "full_headers = initHeaders headerSlice0"

definition screen_ok :: "screen \<Rightarrow> bool" where
  "screen_ok sc \<longleftrightarrow> headerSlice sc = headerSlice0 \<or> headerSlice sc = full_headers"

lemma full_headers_eq: "full_headers =
   [\<lparr>h_label = ''#'', h_width = 5\<rparr>, \<lparr>h_label = ''Created'', h_width = 8\<rparr>,
    \<lparr>h_label = ''Local'', h_width = 15\<rparr>, \<lparr>h_label = ''Remote'', h_width = 15\<rparr>,
    \<lparr>h_label = ''RMS(high)'', h_width = 9\<rparr>, \<lparr>h_label = ''RMS(low)'', h_width = 9\<rparr>,
    \<lparr>h_label = ''TTFB(high)'', h_width = 9\<rparr>, \<lparr>h_label = ''TTFB(low)'', h_width = 9\<rparr>,
    \<lparr>h_label = ''TX'', h_width = 10\<rparr>, \<lparr>h_label = ''TX(high)'', h_width = 10\<rparr>,
    \<lparr>h_label = ''TX(low)'', h_width = 10\<rparr>, \<lparr>h_label = ''TX(total)'', h_width = 15\<rparr>,
    \<lparr>h_label = ''#TX'', h_width = 10\<rparr>, \<lparr>h_label = ''#ERR'', h_width = 6\<rparr>,
    \<lparr>h_label = ''#Dropped'', h_width = 9\<rparr>, \<lparr>h_label = ''Mem(used)'', h_width = 9\<rparr>,
    \<lparr>h_label = ''Mem(high)'', h_width = 9\<rparr>, \<lparr>h_label = ''Mem(low)'', h_width = 9\<rparr>,
    \<lparr>h_label = ''CPU(used)'', h_width = 9\<rparr>, \<lparr>h_label = ''CPU(high)'', h_width = 9\<rparr>,
    \<lparr>h_label = ''CPU(low)'', h_width = 9\<rparr>, \<lparr>h_label = ''ID'', h_width = 30\<rparr>,
    \<lparr>h_label = ''Time'', h_width = 30\<rparr>]"
  by code_simp

lemma printHeader_ok:
  assumes "screen_ok sc"
  shows "printHeader hf sc =
    \<lparr>headerSlice = full_headers,
     printed = printed sc @ [Styled HeaderStyle [table_text (header_columns (sc\<lparr>headerSlice := full_headers\<rparr>) hf)]]\<rparr>"
proof -
  have l: "length (header_columns s hf) = length hf" for s by (simp add: header_columns_def)
  have w: "h_width (full_headers ! 0) \<noteq> 0" "h_width (headerSlice0 ! 0) = 0"
    by (simp add: full_headers_eq) (simp add: headerSlice0_def header_length_def)
  have t: "Sprintf (GenerateFormatString (length hf)) (header_columns s hf) = table_text (header_columns s hf)" for s
    using Sprintf_columns [of "header_columns s hf"] by (simp only: l)
  have eq: "(if h_width (headerSlice sc ! 0) = 0 then sc\<lparr>headerSlice := initHeaders (headerSlice sc)\<rparr> else sc)
      = sc\<lparr>headerSlice := full_headers\<rparr>"
    using assms w by (cases sc) (auto simp: screen_ok_def full_headers_def)
  show ?thesis unfolding printHeader_def Let_def eq by (cases sc) (simp add: Println_def t)
qed

lemma screen_ok_print [simp]:
  "screen_ok (Println l sc) = screen_ok sc" "screen_ok (PrintColumns st cols sc) = screen_ok sc"
  "screen_ok (printTableRow zone st e t sc) = screen_ok sc" "screen_ok (printRealTimeRow st out t sc) = screen_ok sc"
  "screen_ok (PrintError err sc) = screen_ok sc" "screen_ok (PrintErrorString x sc) = screen_ok sc"
  "screen_ok init_screen"
  by (simp_all add: screen_ok_def Println_def PrintColumns_def printTableRow_def printRealTimeRow_def PrintError_def
      PrintErrorString_def init_screen_def split: option.split)

lemma width_full: "headerSlice sc = full_headers \<Longrightarrow> width sc f = h_width (full_headers ! field_num f)"
  by (simp add: width_def)

section \<open>Properties\<close>

lemma row_widths:
  assumes "headerSlice sc = full_headers" and "t = StreamTest \<or> t = RequestTest"
  shows "map col_width (row_columns zone e t sc) = map col_width (header_columns sc (data_point_headers t))"
    and "length (row_columns zone e t sc) = length (data_point_headers t)"
  using assms by (auto simp: row_columns_def Let_def header_columns_def data_point_headers_def BandwidthHeaders_def
      LatencyHeaders_def width_full full_headers_eq)

lemma header_starts:
  assumes "headerSlice sc = full_headers" and "t = StreamTest \<or> t = RequestTest" and "k \<le> length (data_point_headers t)"
  shows "starts (header_columns sc (data_point_headers t)) k =
    (\<Sum>w\<leftarrow>take k (map col_width (header_columns sc (data_point_headers t))). Suc w) + (if t = RequestTest \<and> 5 < k then 1 else 0)"
proof -
  have "\<forall>t \<in> {StreamTest, RequestTest}. list_all (\<lambda>k.
      starts (header_columns \<lparr>headerSlice = full_headers, printed = []\<rparr> (data_point_headers t)) k =
      (\<Sum>w\<leftarrow>take k (map col_width (header_columns \<lparr>headerSlice = full_headers, printed = []\<rparr> (data_point_headers t))). Suc w)
        + (if t = RequestTest \<and> 5 < k then 1 else 0)) [0 ..< Suc (length (data_point_headers t))]"
    by code_simp
  moreover have "header_columns sc hf = header_columns \<lparr>headerSlice = full_headers, printed = []\<rparr> hf" for hf
    using assms(1) by (simp add: header_columns_def)
  moreover have "k \<in> set [0 ..< Suc (length (data_point_headers t))]" using assms(3) by (simp del: upt_Suc add: less_Suc_eq_le)
  ultimately show ?thesis using assms(2) by (auto simp only: list_all_iff)
qed

text \<open>
  C30: A data point is printed below its header: both lines have the same columns with the same widths,
  and when the values fit, every column of the row starts where its header does. The one exception is
  the label \<open>TTFB(high)\<close> of a latency test, one character wider than its column: what follows it in the
  header is shifted by one.
\<close>

theorem data_point_rows_line_up:
  fixes zone :: "time \<Rightarrow> int" and e :: DP
  assumes "screen_ok sc" and "t = StreamTest \<or> t = RequestTest"
  defines "sc1 \<equiv> printDataPointHeaders t sc"
  defines "hc \<equiv> header_columns sc1 (data_point_headers t)" and "rc \<equiv> row_columns zone e t sc1"
  shows "printed (printTableRow zone st e t sc1) =
      printed sc @ [Styled HeaderStyle [table_text hc], Styled st [table_text rc]]
    \<and> map col_width hc = map col_width rc
    \<and> (fits rc \<longrightarrow> (\<forall>k \<le> length rc. starts hc k = starts rc k + (if t = RequestTest \<and> 5 < k then 1 else 0)))"
proof -
  have h: "headerSlice sc1 = full_headers" "printed sc1 = printed sc @ [Styled HeaderStyle [table_text hc]]"
    by (simp_all add: sc1_def hc_def printDataPointHeaders_def printHeader_ok [OF assms(1)] header_columns_def)
  note w = row_widths [OF h(1) assms(2), of zone e]
  have "starts hc k = starts rc k + (if t = RequestTest \<and> 5 < k then 1 else 0)" if "fits rc" "k \<le> length rc" for k
    using header_starts [OF h(1) assms(2), of k] that w starts_fits [OF that(1)] by (simp add: hc_def rc_def)
  moreover have "printed (printTableRow zone st e t sc1) = printed sc1 @ [Styled st [table_text rc]]"
    using assms(2) by (auto simp: printTableRow_def PrintColumns_def Println_def rc_def)
  ultimately show ?thesis using w(1) h(2) by (simp add: hc_def rc_def)
qed

lemma real_time_widths:
  assumes "headerSlice sc = full_headers" and "t = StreamTest \<or> t = RequestTest"
  shows "map col_width (real_time_columns out t sc) = map col_width (header_columns sc (the (real_time_headers t)))"
    and "length (real_time_columns out t sc) = length (the (real_time_headers t))"
  using assms by (auto simp: real_time_columns_def Let_def header_columns_def real_time_headers_def
      RealTimeBandwidthHeaders_def RealTimeLatencyHeaders_def width_full full_headers_eq)

lemma real_time_header_starts:
  assumes "headerSlice sc = full_headers" and "t = StreamTest \<or> t = RequestTest"
    and "k \<le> length (the (real_time_headers t))"
  shows "starts (header_columns sc (the (real_time_headers t))) k =
    (\<Sum>w\<leftarrow>take k (map col_width (header_columns sc (the (real_time_headers t)))). Suc w)
      + (if t = RequestTest \<and> 7 < k then 1 else 0)"
proof -
  have "\<forall>t \<in> {StreamTest, RequestTest}. list_all (\<lambda>k.
      starts (header_columns \<lparr>headerSlice = full_headers, printed = []\<rparr> (the (real_time_headers t))) k =
      (\<Sum>w\<leftarrow>take k (map col_width (header_columns \<lparr>headerSlice = full_headers, printed = []\<rparr> (the (real_time_headers t)))). Suc w)
        + (if t = RequestTest \<and> 7 < k then 1 else 0)) [0 ..< Suc (length (the (real_time_headers t)))]"
    by code_simp
  moreover have "header_columns sc hf = header_columns \<lparr>headerSlice = full_headers, printed = []\<rparr> hf" for hf
    using assms(1) by (simp add: header_columns_def)
  moreover have "k \<in> set [0 ..< Suc (length (the (real_time_headers t)))]"
    using assms(3) by (simp del: upt_Suc add: less_Suc_eq_le)
  ultimately show ?thesis using assms(2) by (auto simp only: list_all_iff)
qed

text \<open>
  The running totals of a test are printed below their header in the same sense: same columns, same
  widths, and for values that fit the same starts, shifted by one in the header after \<open>TTFB(high)\<close>.
\<close>

theorem real_time_rows_line_up:
  fixes out :: TestOutput
  assumes "screen_ok sc" and "t = StreamTest \<or> t = RequestTest"
  defines "sc1 \<equiv> printRealTimeHeaders t sc"
  defines "hc \<equiv> header_columns sc1 (the (real_time_headers t))" and "rc \<equiv> real_time_columns out t sc1"
  shows "printed (printRealTimeRow st out t sc1) =
      printed sc @ [Styled HeaderStyle [table_text hc], Styled st [table_text rc]]
    \<and> map col_width hc = map col_width rc
    \<and> (fits rc \<longrightarrow> (\<forall>k \<le> length rc. starts hc k = starts rc k + (if t = RequestTest \<and> 7 < k then 1 else 0)))"
proof -
  obtain hf where hf: "real_time_headers t = Some hf"
    using assms(2) by (auto simp: real_time_headers_def)
  have h: "headerSlice sc1 = full_headers" "printed sc1 = printed sc @ [Styled HeaderStyle [table_text hc]]"
    by (simp_all add: sc1_def hc_def printRealTimeHeaders_def hf printHeader_ok [OF assms(1)] header_columns_def)
  note w = real_time_widths [OF h(1) assms(2), of out]
  have "starts hc k = starts rc k + (if t = RequestTest \<and> 7 < k then 1 else 0)" if "fits rc" "k \<le> length rc" for k
    using real_time_header_starts [OF h(1) assms(2), of k] that w starts_fits [OF that(1)] by (simp add: hc_def rc_def)
  moreover have "printed (printRealTimeRow st out t sc1) = printed sc1 @ [Styled st [table_text rc]]"
    using assms(2) by (auto simp: printRealTimeRow_def PrintColumns_def Println_def rc_def)
  ultimately show ?thesis using w(1) h(2) by (simp add: hc_def rc_def)
qed

section \<open>Rates in their column\<close>

lemma rune_count_ascii: "list_all (\<lambda>c. (of_char c :: nat) < 128) s \<Longrightarrow> rune_count s = length s"
  by (induction s) (auto simp: rune_count_def)

lemma ascii_digits: "list_all (\<lambda>c. (of_char c :: nat) < 128) (nat_digits n)"
proof -
  have "(of_char c :: nat) < 128" if "is_digit c" for c
    using that by (auto simp: is_digit_def char_digit_def Let_def split: if_splits)
  then show ?thesis using nat_digits_are_digits by (auto simp: list_all_iff)
qed

lemma ascii_two_digits: "n < 100 \<Longrightarrow> list_all (\<lambda>c. (of_char c :: nat) < 128) (two_digits n)"
  by (simp add: two_digits_def digit_char_def of_char_of) linarith

lemma length_nat_digits: "length (nat_digits n) = (if n < 10 then 1 else Suc (length (nat_digits (n div 10))))"
  by (subst nat_digits.simps) simp

lemma length_nat_digits_100: "length (nat_digits n) \<le> 2 \<longleftrightarrow> n < 100"
proof -
  have "1 \<le> length (nat_digits m)" for m by (simp add: Suc_le_eq)
  moreover have "n div 10 < 10 \<longleftrightarrow> n < 100" by linarith
  ultimately show ?thesis
    using length_nat_digits [of n] length_nat_digits [of "n div 10"] by (cases "n < 10") auto
qed

text \<open>
  A rate in the column of ten characters: it fits up to 99.99 of its unit, and from 100 of a unit on
  it does not, so that a rate of 125 MB/s shifts the rest of its row.
\<close>

theorem rate_fits_column:
  assumes "1000 \<le> unat b" and "unat b \<le> 999999999999999"
  defines "u \<equiv> fst (unit_of (unat b))"
  shows "(100 * unat b \<le> 9999 * u \<longrightarrow> rune_count (BWToString b) \<le> 10)
    \<and> (100 * u \<le> unat b \<longrightarrow> 10 < rune_count (BWToString b))"
proof -
  let ?n = "unat b" and ?q = "of_nat (unat b) / of_nat u :: rat"
  have u: "0 < u" "u \<le> ?n" "?n < 1000 * u" "?n < 2 ^ 53" using assms(1,2) by (auto simp: u_def)
  obtain h where h: "fmt_2f (fdiv (float_of_int (int ?n)) (float_of_int (int u))) =
      nat_digits (h div 100) @ ''.'' @ two_digits (h mod 100)"
    "\<bar>of_nat h / 100 - ?q\<bar> \<le> 1 / 200 + ?q * pow2 (- 53)"
    using fmt_2f_quotient [OF u(2,1,4)] by blast
  have "snd (unit_of ?n) \<in> {'' KB'', '' MB'', '' GB'', '' TB''}" by simp
  then have "rune_count (snd (unit_of ?n) @ ''/s'') = 5" by (auto simp: rune_count_def)
  moreover have "BWToString b = nat_digits (h div 100) @ ''.'' @ two_digits (h mod 100) @ snd (unit_of ?n) @ ''/s''"
    using BToString_unit [OF assms(1,2)] h(1) assms(2) by (simp add: BWToString_BToString u_def)
  ultimately have len: "rune_count (BWToString b) = length (nat_digits (h div 100)) + 8"
    using ascii_two_digits [of "h mod 100"] by (simp add: rune_count_ascii ascii_digits)
  have "(of_nat ?n :: rat) < of_nat (1000 * u)" using u(3) by (simp only: of_nat_less_iff)
  then have q: "?q < 1000" using u(1) by (simp add: field_simps)
  have e: "?q * pow2 (- 53) \<le> 1 / 1000000"
    using q by (simp add: pow2_def)
  have "h div 100 < 100" if "100 * ?n \<le> 9999 * u"
  proof -
    have "of_nat (100 * ?n) \<le> (of_nat (9999 * u) :: rat)" using that by (simp only: of_nat_le_iff)
    then have "?q \<le> 9999 / 100" using u(1) by (simp add: field_simps)
    then have "of_nat h < (10000 :: rat)" using h(2) e by linarith
    then show ?thesis by simp
  qed
  moreover have "\<not> h div 100 < 100" if "100 * u \<le> ?n"
  proof -
    have "of_nat (100 * u) \<le> (of_nat ?n :: rat)" using that by (simp only: of_nat_le_iff)
    then have "100 \<le> ?q" using u(1) by (simp add: field_simps)
    then have "(9999 :: rat) < of_nat h" using h(2) e by linarith
    then show ?thesis by simp
  qed
  ultimately show ?thesis using length_nat_digits_100 [of "h div 100"] len by fastforce
qed

section \<open>Witnesses\<close>

definition demo_dp :: DP where
  "demo_dp = zero_dp\<lparr>dp_Type := RequestTest, dp_Local := ''10.0.0.1:9010'', dp_Remote := ''10.0.0.2:9010'',
     dp_RMSH := 1200, dp_RMSL := 300, dp_TTFBH := 700, dp_TTFBL := 90, dp_TX := 512, dp_TXCount := 3\<rparr>"

theorem data_point_rows_line_up_witness:
  "starts (header_columns (printDataPointHeaders RequestTest init_screen) LatencyHeaders) 6
    = starts (row_columns (\<lambda>_. 0) demo_dp RequestTest (printDataPointHeaders RequestTest init_screen)) 6 + 1"
proof -
  let ?sc = "printDataPointHeaders RequestTest init_screen"
  have "fits (row_columns (\<lambda>_. 0) demo_dp RequestTest ?sc)"
    and "6 \<le> length (row_columns (\<lambda>_. 0) demo_dp RequestTest ?sc)" by code_simp+
  moreover have "data_point_headers RequestTest = LatencyHeaders" by (simp add: data_point_headers_def)
  ultimately show ?thesis
    using data_point_rows_line_up [of init_screen RequestTest, where zone = "\<lambda>_. 0" and e = demo_dp] by auto
qed

theorem real_time_rows_line_up_witness:
  "starts (header_columns (printRealTimeHeaders StreamTest init_screen) RealTimeBandwidthHeaders) 9
    = starts (real_time_columns zero_output StreamTest (printRealTimeHeaders StreamTest init_screen)) 9"
proof -
  let ?sc = "printRealTimeHeaders StreamTest init_screen"
  have "fits (real_time_columns zero_output StreamTest ?sc)"
    and "9 \<le> length (real_time_columns zero_output StreamTest ?sc)" by code_simp+
  moreover have "the (real_time_headers StreamTest) = RealTimeBandwidthHeaders" by (simp add: real_time_headers_def)
  ultimately show ?thesis
    using real_time_rows_line_up [of init_screen StreamTest, where out = zero_output] by auto
qed

theorem rate_fits_column_witness:
  "10 < rune_count (BWToString 125000000) \<and> rune_count (BWToString 99990000) \<le> 10"
  using rate_fits_column [of 125000000] rate_fits_column [of 99990000] by simp

end
