(* ===== verification/ClientCollect.thy ===== *)
theory ClientCollect
  imports ServerFiles SharedSorting ClientTable
begin

text \<open>
  What a client collects (\<open>client/client.go\<close>, \<open>client/table.go\<close>): the data points and errors that the
  servers send, live or from their files, the list of tests, and the file that a download writes.
  \<open>json.Unmarshal\<close> is the argument record \<open>uj\<close>; its result distinguishes the JSON \<open>null\<close>, which
  leaves a pointer nil in one place and a struct unchanged in another.
\<close>

section \<open>State\<close>

record unjson =
  uj_dp :: "bytes \<Rightarrow> string + DP option"
  uj_err :: "bytes \<Rightarrow> string + TError option"

record collected =
  k_DPS :: "DP list"
  k_ERR :: "TError list"
  k_screen :: screen

definition no_data :: collected where
  "no_data = \<lparr>k_DPS = [], k_ERR = [], k_screen = init_screen\<rparr>"

definition on_screen :: "(screen \<Rightarrow> screen) \<Rightarrow> collected \<Rightarrow> collected" where
  "on_screen f k = k\<lparr>k_screen := f (k_screen k)\<rparr>"

section \<open>Receiving\<close>

text \<open>One line of a test file, as the server sends it: the byte before the JSON text tells its kind.\<close>

definition receiveJSONDataPoint :: "unjson \<Rightarrow> bytes \<Rightarrow> collected \<Rightarrow> collected outcome" where
  "receiveJSONDataPoint uj dat k =
     (if HasPrefix dat (FilePrefix_String ErrorPoint) then
        (case uj_err uj (drop 1 dat) of
           Inl e \<Rightarrow> Return (on_screen (PrintError (Some e)) k)
         | Inr None \<Rightarrow> Panic ''nil pointer dereference''
         | Inr (Some x) \<Rightarrow> Return (k\<lparr>k_ERR := k_ERR k @ [x]\<rparr>))
      else if HasPrefix dat (FilePrefix_String DataPoint) then
        (case uj_dp uj (drop 1 dat) of
           Inl e \<Rightarrow> Return (on_screen (PrintError (Some e)) k)
         | Inr None \<Rightarrow> Panic ''nil pointer dereference''
         | Inr (Some d) \<Rightarrow> Return (k\<lparr>k_DPS := k_DPS k @ [d]\<rparr>))
      else Return (on_screen (PrintError (Some (''Uknown data point: '' @ dat))) k))"

text \<open>A signal of statistics.\<close>

definition collectDataPointv2 :: "DataReponseToClient option \<Rightarrow> collected \<Rightarrow> collected" where
  "collectDataPointv2 r k =
     (case r of
        None \<Rightarrow> k
      | Some r \<Rightarrow> k\<lparr>k_DPS := k_DPS k @ dr_DPS r, k_ERR := k_ERR k @ dr_Errors r\<rparr>)"

text \<open>
  \<open>praseDataPoint\<close>, which nothing calls: it prints what it receives. \<open>now n\<close> is the instant of its \<open>n\<close>th
  call of \<open>time.Now\<close>; the test type of the configuration is assigned through its pointer.
\<close>

fun print_received :: "(time \<Rightarrow> int) \<Rightarrow> (nat \<Rightarrow> time) \<Rightarrow> nat \<Rightarrow> DP list \<Rightarrow> screen \<Rightarrow> DP list \<times> screen" where
  "print_received zone now n [] sc = ([], sc)"
| "print_received zone now n (d # ds) sc =
     (let d1 = d\<lparr>dp_Received := now n\<rparr>;
          (ds1, sc1) = print_received zone now (Suc n) ds (printTableRow zone BaseStyle d1 (dp_Type d1) sc)
      in (d1 # ds1, sc1))"

definition praseDataPoint ::
  "(time \<Rightarrow> int) \<Rightarrow> (nat \<Rightarrow> time) \<Rightarrow> DataReponseToClient option \<Rightarrow> Config \<Rightarrow> collected \<Rightarrow> Config \<times> collected" where
  "praseDataPoint zone now r c k =
     (case r of
        None \<Rightarrow> (c, k)
      | Some r \<Rightarrow>
          (let c1 = (case dr_DPS r of [] \<Rightarrow> c | d # _ \<Rightarrow> c\<lparr>c_TestType := dp_Type d\<rparr>);
               hd_due = (if k_DPS k \<noteq> [] then length (k_DPS k) mod 10 = 0 else dr_DPS r \<noteq> []);
               sc1 = (if hd_due then printDataPointHeaders (c_TestType c1) (k_screen k) else k_screen k);
               (ds, sc2) = print_received zone now 0 (dr_DPS r) sc1;
               sc3 = fold (PrintTError zone) (dr_Errors r) sc2
           in (c1, \<lparr>k_DPS = k_DPS k @ ds, k_ERR = k_ERR k @ dr_Errors r, k_screen = sc3\<rparr>)))"

text \<open>The first information about a test wins.\<close>

fun parseTestList :: "TestInfo list \<Rightarrow> (string \<rightharpoonup> TestInfo) \<Rightarrow> (string \<rightharpoonup> TestInfo)" where
  "parseTestList [] m = m"
| "parseTestList (i # is) m =
     parseTestList is (case m (ti_ID i) of None \<Rightarrow> m(ti_ID i \<mapsto> i) | Some _ \<Rightarrow> m)"

fun receive_all :: "unjson \<Rightarrow> bytes list \<Rightarrow> collected \<Rightarrow> collected outcome" where
  "receive_all uj [] k = Return k"
| "receive_all uj (b # bs) k = bind_outcome (receiveJSONDataPoint uj b k) (receive_all uj bs)"

section \<open>Writing a download\<close>

text \<open>
  \<open>WriteStructAndNewLineToFile\<close> of \<open>shared/shared.go\<close>; a write to an open file does not fail here.
\<close>

definition WriteStructAndNewLineToFile ::
  "time \<Rightarrow> handle \<Rightarrow> FilePrefix \<Rightarrow> string + bytes \<Rightarrow> fsys \<Rightarrow> fsys \<times> string option" where
  "WriteStructAndNewLineToFile now h f marshalled fs =
     (case marshalled of
        Inl e \<Rightarrow> (fs, Some e)
      | Inr outb \<Rightarrow>
          (Write now (Some h) [CHR 0x0A] (Write now (Some h) outb (Write now (Some h) (FilePrefix_String f) fs)), None))"

fun write_structs ::
  "time \<Rightarrow> handle \<Rightarrow> FilePrefix \<Rightarrow> ('a \<Rightarrow> string + bytes) \<Rightarrow> 'a list \<Rightarrow> fsys \<Rightarrow> fsys \<times> string option" where
  "write_structs now h f enc [] fs = (fs, None)"
| "write_structs now h f enc (x # xs) fs =
     (case WriteStructAndNewLineToFile now h f (enc x) fs of
        (fs1, Some e) \<Rightarrow> (fs1, Some e)
      | (fs1, None) \<Rightarrow> write_structs now h f enc xs fs1)"

text \<open>
  The part of \<open>DownloadTest\<close> after the hosts have answered: errors and data points sorted by their
  creation time, data points written first.
\<close>

definition DownloadTest ::
  "((DP \<Rightarrow> DP \<Rightarrow> int) \<Rightarrow> DP list \<Rightarrow> DP list) \<Rightarrow> ((TError \<Rightarrow> TError \<Rightarrow> int) \<Rightarrow> TError list \<Rightarrow> TError list) \<Rightarrow>
   (DP \<Rightarrow> string + bytes) \<Rightarrow> (TError \<Rightarrow> string + bytes) \<Rightarrow> time \<Rightarrow> Config \<Rightarrow> collected \<Rightarrow> fsys \<Rightarrow>
   collected \<times> fsys \<times> string option" where
  "DownloadTest srt_dp srt_err enc_dp enc_err now c k fs =
     (let k1 = k\<lparr>k_ERR := srt_err (cmp_Created te_Created) (k_ERR k)\<rparr>;
          k2 = k1\<lparr>k_DPS := srt_dp (cmp_Created dp_Created) (k_DPS k1)\<rparr>
      in case Create now (c_File c) fs of
           (fs1, Inl e) \<Rightarrow> (k2, fs1, Some e)
         | (fs1, Inr h) \<Rightarrow>
             (case write_structs now h DataPoint enc_dp (k_DPS k2) fs1 of
                (fs2, Some e) \<Rightarrow> (k2, fs2, Some e)
              | (fs2, None) \<Rightarrow>
                  (let (fs3, er) = write_structs now h ErrorPoint enc_err (k_ERR k2) fs2
                   in (k2, fs3, er))))"

section \<open>Reading a file for analysis\<close>

text \<open>
  The loop of \<open>AnalyzeTest\<close>. The test for an error looks behind the first byte of the line, and the
  whole line is parsed; an empty line panics on the slice expression. A JSON \<open>null\<close> leaves the zero
  struct.
\<close>

definition zero_terror :: TError where
  "zero_terror = \<lparr>te_Error = [], te_Created = zero_time\<rparr>"

fun analyze_lines ::
  "unjson \<Rightarrow> bytes list \<Rightarrow> DP list \<Rightarrow> TError list \<Rightarrow> (DP list \<times> TError list) outcome" where
  "analyze_lines uj [] dps errs = Return (dps, errs)"
| "analyze_lines uj (b # bs) dps errs =
     (if b = [] then Panic ''slice bounds out of range''
      else if HasPrefix (drop 1 b) (FilePrefix_String ErrorPoint) then
        (case uj_err uj b of
           Inl e \<Rightarrow> Error e
         | Inr x \<Rightarrow> analyze_lines uj bs dps (errs @ [case x of None \<Rightarrow> zero_terror | Some y \<Rightarrow> y]))
      else if HasPrefix b (FilePrefix_String DataPoint) then
        (case uj_dp uj (drop 1 b) of
           Inl e \<Rightarrow> Error e
         | Inr x \<Rightarrow> analyze_lines uj bs (dps @ [case x of None \<Rightarrow> zero_dp | Some d \<Rightarrow> d]) errs)
      else analyze_lines uj bs dps errs)"

definition read_for_analysis :: "unjson \<Rightarrow> Config \<Rightarrow> bytes option \<Rightarrow> (DP list \<times> TError list) outcome" where
  "read_for_analysis uj c file =
     (case file of
        None \<Rightarrow> Error ''open: no such file or directory''
      | Some d \<Rightarrow>
          bind_outcome (analyze_lines uj (fst (scan_lines d)) [] [])
            (\<lambda>(dps, errs). Return (if c_HostFilter c \<noteq> [] then HostFilter (c_HostFilter c) dps else dps, errs)))"

section \<open>Lemmas\<close>

lemma parseTestList_eq:
  "parseTestList l m i =
    (case m i of Some x \<Rightarrow> Some x | None \<Rightarrow> find (\<lambda>x. ti_ID x = i) l)"
  by (induction l arbitrary: m) (auto split: option.split)

text \<open>A codec: what one side writes the other reads back, on one line.\<close>

definition codec :: "(DP \<Rightarrow> string + bytes) \<Rightarrow> (TError \<Rightarrow> string + bytes) \<Rightarrow> unjson \<Rightarrow> DP set \<Rightarrow> TError set \<Rightarrow> bool" where
  "codec enc_dp enc_err uj D E \<longleftrightarrow>
     (\<forall>d \<in> D. \<exists>b. enc_dp d = Inr (CHR ''{'' # b) \<and> uj_dp uj (CHR ''{'' # b) = Inr (Some d) \<and> plain_line (CHR ''0'' # CHR ''{'' # b))
     \<and> (\<forall>x \<in> E. \<exists>b. enc_err x = Inr (CHR ''{'' # b) \<and> uj_err uj (CHR ''{'' # b) = Inr (Some x) \<and> plain_line (CHR ''1'' # CHR ''{'' # b))"

definition line_of :: "('a \<Rightarrow> string + bytes) \<Rightarrow> FilePrefix \<Rightarrow> 'a \<Rightarrow> bytes" where
  "line_of enc f x = FilePrefix_String f @ (case enc x of Inr b \<Rightarrow> b | Inl _ \<Rightarrow> [])"

lemma receive_data_lines:
  assumes "codec enc_dp enc_err uj D E" and "set ds \<subseteq> D"
  shows "receive_all uj (map (line_of enc_dp DataPoint) ds @ rest) k =
    receive_all uj rest (k\<lparr>k_DPS := k_DPS k @ ds\<rparr>)"
  using assms(2)
proof (induction ds arbitrary: k)
  case (Cons d ds)
  then obtain b where "enc_dp d = Inr (CHR ''{'' # b)" "uj_dp uj (CHR ''{'' # b) = Inr (Some d)"
    using assms(1) by (force simp: codec_def)
  then show ?case
    using Cons by (simp add: line_of_def receiveJSONDataPoint_def)
qed simp

lemma receive_error_lines:
  assumes "codec enc_dp enc_err uj D E" and "set es \<subseteq> E"
  shows "receive_all uj (map (line_of enc_err ErrorPoint) es @ rest) k =
    receive_all uj rest (k\<lparr>k_ERR := k_ERR k @ es\<rparr>)"
  using assms(2)
proof (induction es arbitrary: k)
  case (Cons x es)
  then obtain b where "enc_err x = Inr (CHR ''{'' # b)" "uj_err uj (CHR ''{'' # b) = Inr (Some x)"
    using assms(1) by (force simp: codec_def)
  then show ?case
    using Cons by (simp add: line_of_def receiveJSONDataPoint_def)
qed simp

lemma analyze_data_lines:
  assumes "codec enc_dp enc_err uj D E" and "set ds \<subseteq> D"
  shows "analyze_lines uj (map (line_of enc_dp DataPoint) ds @ rest) dps errs =
    analyze_lines uj rest (dps @ ds) errs"
  using assms(2)
proof (induction ds arbitrary: dps)
  case (Cons d ds)
  then obtain b where "enc_dp d = Inr (CHR ''{'' # b)" "uj_dp uj (CHR ''{'' # b) = Inr (Some d)"
    using assms(1) by (force simp: codec_def)
  then show ?case
    using Cons by (simp add: line_of_def)
qed simp

lemma analyze_error_lines:
  assumes "codec enc_dp enc_err uj D E" and "set es \<subseteq> E"
  shows "analyze_lines uj (map (line_of enc_err ErrorPoint) es @ rest) dps errs =
    analyze_lines uj rest dps errs"
  using assms(2)
proof (induction es)
  case (Cons x es)
  then obtain b where "enc_err x = Inr (CHR ''{'' # b)"
    using assms(1) by (force simp: codec_def)
  then show ?case
    using Cons by (simp add: line_of_def)
qed simp

text \<open>A blank line of the file ends the analysis with a panic.\<close>

lemma analyze_blank_line:
  assumes "codec enc_dp enc_err uj D E" and "set ds \<subseteq> D"
  shows "analyze_lines uj (map (line_of enc_dp DataPoint) ds @ [] # rest) dps errs = Panic ''slice bounds out of range''"
  using analyze_data_lines [OF assms] by simp

section \<open>The downloaded file\<close>

lemma write_structs_lines:
  assumes "\<forall>x \<in> set xs. \<exists>b. enc x = Inr b"
  shows "write_structs now h f enc xs fs = (write_lines now (Some h) (map (line_of enc f) xs) fs, None)"
  using assms
proof (induction xs arbitrary: fs)
  case (Cons x xs)
  then obtain b where "enc x = Inr b" by auto
  with Cons show ?case
    by (simp add: WriteStructAndNewLineToFile_def line_of_def Write_append write_lines_def del: Write.simps)
qed (simp add: write_lines_def)

lemma codec_encodes:
  assumes "codec enc_dp enc_err uj D E"
  shows "d \<in> D \<Longrightarrow> \<exists>b. enc_dp d = Inr b" and "x \<in> E \<Longrightarrow> \<exists>b. enc_err x = Inr b"
    and "d \<in> D \<Longrightarrow> plain_line (line_of enc_dp DataPoint d)" and "x \<in> E \<Longrightarrow> plain_line (line_of enc_err ErrorPoint x)"
  using assms by (force simp: codec_def line_of_def)+

text \<open>The lines of a download in their order.\<close>

definition download_lines ::
  "(DP \<Rightarrow> string + bytes) \<Rightarrow> (TError \<Rightarrow> string + bytes) \<Rightarrow> DP list \<Rightarrow> TError list \<Rightarrow> bytes list" where
  "download_lines enc_dp enc_err ds es = map (line_of enc_dp DataPoint) ds @ map (line_of enc_err ErrorPoint) es"

lemma DownloadTest_file:
  assumes "codec enc_dp enc_err uj D E" and "set (k_DPS k) \<subseteq> D" and "set (k_ERR k) \<subseteq> E"
    and "sort_func srt_dp" and "sort_func srt_err"
    and "fs_ok fs" and "walk (fs_dirs fs) [] (Split (CHR ''/'') (c_File c)) = Some q" and "q \<notin> set (fs_dirs fs)"
  defines "ds \<equiv> srt_dp (cmp_Created dp_Created) (k_DPS k)" and "es \<equiv> srt_err (cmp_Created te_Created) (k_ERR k)"
  shows "\<exists>fs'. DownloadTest srt_dp srt_err enc_dp enc_err now c k fs = (k\<lparr>k_DPS := ds, k_ERR := es\<rparr>, fs', None)
    \<and> fs_ok fs' \<and> content fs' p = (if p = q then Some (join_lines (download_lines enc_dp enc_err ds es)) else content fs p)"
proof -
  have sub: "set ds \<subseteq> D" "set es \<subseteq> E"
    using assms(2,3) sort_func.srt_set [OF assms(4)] sort_func.srt_set [OF assms(5)] by (simp_all add: ds_def es_def)
  obtain fs1 i where fs1: "Create now (c_File c) fs = (fs1, Inr (Open i))" "fs_ok fs1"
    "map_of (fs_names fs1) q = Some i" "fs_data fs1 i = []" "\<And>r. r \<noteq> q \<Longrightarrow> content fs1 r = content fs r"
    using Create_empty [OF assms(6-8)] by metis
  let ?fs2 = "write_lines now (Some (Open i)) (map (line_of enc_dp DataPoint) ds) fs1"
  let ?fs3 = "write_lines now (Some (Open i)) (map (line_of enc_err ErrorPoint) es) ?fs2"
  note w2 = write_lines_spec [OF fs1(2,3), where now = now and ls = "map (line_of enc_dp DataPoint) ds"]
  have nm: "map_of (fs_names ?fs2) q = Some i" using w2 fs1(3) by simp
  note w3 = write_lines_spec [OF conjunct1 [OF w2] nm, where now = now and ls = "map (line_of enc_err ErrorPoint) es"]
  have d2: "fs_data ?fs2 i = join_lines (map (line_of enc_dp DataPoint) ds)"
    using w2 [of q] nm fs1(4) by (simp add: content_def)
  have "write_structs now (Open i) DataPoint enc_dp ds fs1 = (?fs2, None)"
    using sub(1) by (intro write_structs_lines) (blast intro: codec_encodes(1) [OF assms(1)])
  moreover have "write_structs now (Open i) ErrorPoint enc_err es ?fs2 = (?fs3, None)"
    using sub(2) by (intro write_structs_lines) (blast intro: codec_encodes(2) [OF assms(1)])
  ultimately have "DownloadTest srt_dp srt_err enc_dp enc_err now c k fs = (k\<lparr>k_DPS := ds, k_ERR := es\<rparr>, ?fs3, None)"
    by (simp add: DownloadTest_def fs1(1) Let_def ds_def es_def)
  moreover have "content ?fs3 p = (if p = q then Some (join_lines (download_lines enc_dp enc_err ds es)) else content fs p)"
    using w3 [of p] w2 [of p] fs1(5) [of p] d2 by (auto simp: download_lines_def)
  ultimately show ?thesis using w3 by blast
qed

lemma scan_download:
  assumes "codec enc_dp enc_err uj D E" and "set ds \<subseteq> D" and "set es \<subseteq> E"
  shows "scan_lines (join_lines (download_lines enc_dp enc_err ds es)) = (download_lines enc_dp enc_err ds es, False)"
  using assms(2,3) by (intro scan_lines_join) (auto simp: download_lines_def intro: codec_encodes(3,4) [OF assms(1)])

lemma read_download:
  assumes "codec enc_dp enc_err uj D E" and "set ds \<subseteq> D" and "set es \<subseteq> E"
  shows "read_for_analysis uj c (Some (join_lines (download_lines enc_dp enc_err ds es)))
    = Return (if c_HostFilter c \<noteq> [] then HostFilter (c_HostFilter c) ds else ds, [])"
proof -
  have "analyze_lines uj (download_lines enc_dp enc_err ds es) [] [] = Return (ds, [])"
    using analyze_data_lines [OF assms(1,2), of "map (line_of enc_err ErrorPoint) es" "[]" "[]"]
      analyze_error_lines [OF assms(1,3), of "[]" ds "[]"] by (simp add: download_lines_def)
  then show ?thesis by (simp add: read_for_analysis_def scan_download [OF assms])
qed

section \<open>Properties\<close>

text \<open>
  A download creates or replaces its file and touches no other: the file holds one line per collected
  data point, oldest first, then one per error, oldest first; nothing is lost or written twice.
\<close>

theorem download_file_content:
  assumes "codec enc_dp enc_err uj D E" and "set (k_DPS k) \<subseteq> D" and "set (k_ERR k) \<subseteq> E"
    and "sort_func srt_dp" and "sort_func srt_err"
    and "fs_ok fs" and "walk (fs_dirs fs) [] (Split (CHR ''/'') (c_File c)) = Some q" and "q \<notin> set (fs_dirs fs)"
  shows "case DownloadTest srt_dp srt_err enc_dp enc_err now c k fs of (k', fs', er) \<Rightarrow>
      er = None \<and> mset (k_DPS k') = mset (k_DPS k) \<and> sorted (map dp_Created (k_DPS k'))
    \<and> mset (k_ERR k') = mset (k_ERR k) \<and> sorted (map te_Created (k_ERR k'))
    \<and> content fs' p = (if p = q then Some (join_lines (download_lines enc_dp enc_err (k_DPS k') (k_ERR k'))) else content fs p)"
proof -
  note s = sort_func.srt_mset [OF assms(4)] sort_func.srt_mset [OF assms(5)]
    sort_func.srt_sorted [OF assms(4) key_cmp_Created] sort_func.srt_sorted [OF assms(5) key_cmp_Created]
  show ?thesis using DownloadTest_file [OF assms, of now p] by (auto simp: s)
qed


section \<open>Witnesses\<close>

text \<open>Two data points, one error and a codec for them.\<close>

definition old_dp :: DP where
  "old_dp = demo_dp\<lparr>dp_Created := 5\<rparr>"

definition new_dp :: DP where
  "new_dp = demo_dp\<lparr>dp_Created := 9\<rparr>"

definition demo_terror :: TError where
  "demo_terror = \<lparr>te_Error = ''network-error'', te_Created = 7\<rparr>"

definition demo_enc_dp :: "DP \<Rightarrow> string + bytes" where
  "demo_enc_dp d = Inr (if dp_Created d = 5 then ''{old}'' else ''{new}'')"

definition demo_enc_err :: "TError \<Rightarrow> string + bytes" where
  "demo_enc_err x = Inr ''{err}''"

definition demo_unjson :: unjson where
  "demo_unjson =
     \<lparr>uj_dp = (\<lambda>b. if b = ''{old}'' then Inr (Some old_dp) else if b = ''{new}'' then Inr (Some new_dp)
        else Inl ''invalid character''),
      uj_err = (\<lambda>b. if b = ''{err}'' then Inr (Some demo_terror) else Inl ''invalid character'')\<rparr>"

definition demo_collected :: collected where
  "demo_collected = no_data\<lparr>k_DPS := [new_dp, old_dp], k_ERR := [demo_terror]\<rparr>"

lemma demo_codec: "codec demo_enc_dp demo_enc_err demo_unjson {old_dp, new_dp} {demo_terror}"
  by (simp add: codec_def demo_enc_dp_def demo_enc_err_def demo_unjson_def plain_line_def max_token_def old_dp_def new_dp_def)

lemma demo_data:
  "set (k_DPS demo_collected) \<subseteq> {old_dp, new_dp}" "set (k_ERR demo_collected) \<subseteq> {demo_terror}"
  by (simp_all add: demo_collected_def)

lemma demo_target:
  "fs_ok demo_fs" "walk (fs_dirs demo_fs) [] (Split (CHR ''/'') (c_File (zero_config\<lparr>c_File := ''/d/out''\<rparr>))) = Some [''d'', ''out'']"
  "[''d'', ''out''] \<notin> set (fs_dirs demo_fs)"
  by code_simp+

theorem download_file_content_witness:
  "\<exists>fs'. DownloadTest insertion_sort insertion_sort demo_enc_dp demo_enc_err 0 (zero_config\<lparr>c_File := ''/d/out''\<rparr>)
      demo_collected demo_fs = (demo_collected\<lparr>k_DPS := [old_dp, new_dp]\<rparr>, fs', None)
    \<and> content fs' [''d'', ''out''] = Some (join_lines [''0{old}'', ''0{new}'', ''1{err}''])"
proof -
  have eq: "fst (DownloadTest insertion_sort insertion_sort demo_enc_dp demo_enc_err 0 (zero_config\<lparr>c_File := ''/d/out''\<rparr>)
      demo_collected demo_fs) = demo_collected\<lparr>k_DPS := [old_dp, new_dp]\<rparr>" by code_simp
  have dl: "download_lines demo_enc_dp demo_enc_err [old_dp, new_dp] [demo_terror] = [''0{old}'', ''0{new}'', ''1{err}'']"
    by code_simp
  have "k_ERR demo_collected = [demo_terror]" by (simp add: demo_collected_def)
  then show ?thesis
    using download_file_content [OF demo_codec demo_data ins.sort_func_axioms ins.sort_func_axioms demo_target,
        where now = 0 and p = "[''d'', ''out'']"] eq dl
    by (auto split: prod.splits)
qed


end
