(* ===== verification/SharedStats.thy ===== *)
theory SharedStats
  imports SharedSorting
begin

text \<open>
  \<open>shared/stats.go\<close>: the running statistics of a percentile, a slice of five \<open>int64\<close>: count, sum,
  lowest, average and highest value. An index out of range would panic; the program only passes
  slices of length five, and every operation keeps the length.
\<close>

section \<open>Operations\<close>

text \<open>The body of both functions, for the timing \<open>v\<close> that they read from the data point.\<close>

definition update_stats :: "i64 list \<Rightarrow> i64 \<Rightarrow> i64 list" where
  "update_stats b0 v =
     (let b1 = b0[0 := b0 ! 0 + 1];
          b2 = b1[1 := b1 ! 1 + v];
          b3 = (if sint v < sint (b2 ! 2) then b2[2 := v] else b2);
          b4 = b3[3 := go_div (b3 ! 1) (b3 ! 0)]
      in if sint (b4 ! 4) < sint v then b4[4 := v] else b4)"

definition UpdatePSStatsRMHS :: "i64 list \<Rightarrow> DP \<Rightarrow> i64 list" where
  "UpdatePSStatsRMHS b dp = update_stats b (dp_RMSH dp)"

definition UpdatePSStatsTTFBH :: "i64 list \<Rightarrow> DP \<Rightarrow> i64 list" where
  "UpdatePSStatsTTFBH b dp = update_stats b (dp_TTFBH dp)"

definition UpdatePSStats :: "i64 list \<Rightarrow> DP \<Rightarrow> Config \<Rightarrow> i64 list" where
  "UpdatePSStats b dp c =
     (if c_Sort c = SortRMSH then UpdatePSStatsRMHS b dp
      else if c_Sort c = SortTTFBH then UpdatePSStatsTTFBH b dp
      else UpdatePSStatsRMHS b dp)"

definition init_stats :: "i64 list" where
  "init_stats = [0, 0, max_i64, 0, 0]"

section \<open>Closed form\<close>

definition imin :: "i64 \<Rightarrow> i64 \<Rightarrow> i64" where
  "imin a b = (if sint b < sint a then b else a)"

definition imax :: "i64 \<Rightarrow> i64 \<Rightarrow> i64" where
  "imax a b = (if sint a < sint b then b else a)"

lemma sint_imin [simp]: "sint (imin a b) = min (sint a) (sint b)"
  by (simp add: imin_def)

lemma sint_imax [simp]: "sint (imax a b) = max (sint a) (sint b)"
  by (simp add: imax_def)

lemma update_stats_eq:
  "update_stats [n, s, lo, av, hi] v =
     [n + 1, s + v, imin lo v, go_div (s + v) (n + 1), imax hi v]"
  by (simp add: update_stats_def imin_def imax_def)

lemma UpdatePSStats_eq: "UpdatePSStats b dp c = update_stats b (sort_key c dp)"
  by (auto simp: UpdatePSStats_def UpdatePSStatsRMHS_def UpdatePSStatsTTFBH_def sort_key_def
      SortRMSH_def SortTTFBH_def)

text \<open>The statistics of a list of timings, as the loop of \<open>analyzeLatencyTest\<close> accumulates them.\<close>

definition stats_of :: "i64 list \<Rightarrow> i64 list" where
  "stats_of vs = fold (\<lambda>v b. update_stats b v) vs init_stats"

lemma stats_of_snoc: "stats_of (vs @ [v]) = update_stats (stats_of vs) v"
  by (simp add: stats_of_def)

lemma stats_of_closed:
  "stats_of vs =
     [of_nat (length vs), sum_list vs, fold (\<lambda>v m. imin m v) vs max_i64,
      if vs = [] then 0 else go_div (sum_list vs) (of_nat (length vs)),
      fold (\<lambda>v m. imax m v) vs 0]"
  by (induction vs rule: rev_induct)
    (simp_all add: stats_of_snoc update_stats_eq add.commute, simp add: stats_of_def init_stats_def)

lemma sint_fold_imin: "sint (fold (\<lambda>v m. imin m v) vs a) = Min (insert (sint a) (sint ` set vs))"
proof (induction vs arbitrary: a)
  case (Cons v vs)
  show ?case
    by (cases "vs = []") (simp_all add: Cons.IH insert_commute min.commute min.left_commute)
qed simp

lemma sint_fold_imax: "sint (fold (\<lambda>v m. imax m v) vs a) = Max (insert (sint a) (sint ` set vs))"
proof (induction vs arbitrary: a)
  case (Cons v vs)
  show ?case
    by (cases "vs = []") (simp_all add: Cons.IH insert_commute max.commute max.left_commute)
qed simp

text \<open>The statistics depend on the timings as a multiset only.\<close>

lemma stats_of_mset:
  assumes "mset vs = mset ws"
  shows "stats_of vs = stats_of ws"
proof -
  have "sum_list vs = sum_list ws" "length vs = length ws" "set vs = set ws" "vs = [] \<longleftrightarrow> ws = []"
    using assms by (auto simp flip: sum_mset_sum_list dest: mset_eq_length mset_eq_setD)
  moreover have "fold (\<lambda>v m. imin m v) vs max_i64 = fold (\<lambda>v m. imin m v) ws max_i64"
    and "fold (\<lambda>v m. imax m v) vs 0 = fold (\<lambda>v m. imax m v) ws (0 :: i64)"
    using \<open>set vs = set ws\<close>
    by (auto simp: sint_fold_imin sint_fold_imax intro!: i64_eqI)
  ultimately show ?thesis by (simp add: stats_of_closed)
qed

lemma length_update_stats [simp]: "length (update_stats b v) = length b"
  by (simp add: update_stats_def Let_def)

section \<open>Meaning of the statistics\<close>

lemma sint_sum_list:
  fixes vs :: "i64 list"
  assumes "\<forall>v \<in> set vs. 0 \<le> sint v" and "(\<Sum>v\<leftarrow>vs. sint v) < 2 ^ 63"
  shows "sint (sum_list vs) = (\<Sum>v\<leftarrow>vs. sint v)"
  using assms
proof (induction vs)
  case (Cons v vs)
  have nn: "0 \<le> (\<Sum>v\<leftarrow>vs. sint v)" using Cons.prems(1) by (simp add: sum_list_map_nonneg)
  have IH: "sint (sum_list vs) = (\<Sum>v\<leftarrow>vs. sint v)"
    using Cons.prems nn by (intro Cons.IH) auto
  have "sint (v + sum_list vs) = sint (word_of_int (sint v + sint (sum_list vs)) :: i64)"
    by simp
  also have "\<dots> = sint v + sint (sum_list vs)"
    using Cons.prems nn by (intro sint_word_of_int_i64) (auto simp: IH)
  finally show ?case by (simp add: IH)
qed simp

text \<open>The loop over data points, for the key that the configuration selects.\<close>

lemma fold_UpdatePSStats:
  "fold (\<lambda>d b. UpdatePSStats b d c) dps init_stats = stats_of (map (sort_key c) dps)"
proof -
  have "fold (\<lambda>d b. UpdatePSStats b d c) dps b = fold (\<lambda>v b. update_stats b v) (map (sort_key c) dps) b" for b
    by (induction dps arbitrary: b) (auto simp: UpdatePSStats_eq)
  then show ?thesis by (simp add: stats_of_def)
qed

lemma int_div_le: "0 \<le> (a :: int) \<Longrightarrow> 0 < b \<Longrightarrow> a div b \<le> a"
  by (metis div_by_1 zdiv_mono2 zero_less_one int_one_le_iff_zero_less)

lemma Min_insert_ge: "finite A \<Longrightarrow> A \<noteq> {} \<Longrightarrow> \<forall>x \<in> A. x \<le> a \<Longrightarrow> Min (insert a A) = Min (A :: int set)"
  by (auto simp: min_absorb2)

lemma Max_insert_le: "finite A \<Longrightarrow> A \<noteq> {} \<Longrightarrow> \<forall>x \<in> A. a \<le> x \<Longrightarrow> Max (insert a A) = Max (A :: int set)"
  by (auto simp: max_absorb2)

lemma sint_go_div:
  assumes "0 \<le> sint a" and "0 < sint b"
  shows "sint (go_div a b) = sint a div sint b"
proof -
  have "sint a sdiv sint b = sint a div sint b"
    using assms by (auto simp: signed_divide_int_def sgn_if)
  moreover have "0 \<le> sint a div sint b" "sint a div sint b \<le> sint a"
    using assms by (auto simp: pos_imp_zdiv_nonneg_iff int_div_le)
  moreover have "sint a < 2 ^ 63" using sint_lt [of a] by simp
  ultimately show ?thesis
    unfolding go_div_def by (simp add: sint_word_of_int_i64)
qed

text \<open>
  The five numbers kept for a percentile are what their comment says. For non-negative timings
  whose sum fits an \<open>int64\<close>, after the loop over any non-empty list of data points they are the count,
  the sum, the lowest timing, the average rounded down and the highest timing of the selected field.
\<close>

theorem UpdatePSStats_summary:
  assumes "dps \<noteq> []" and "\<forall>d \<in> set dps. 0 \<le> sint (sort_key c d)"
    and "(\<Sum>d\<leftarrow>dps. sint (sort_key c d)) < 2 ^ 63" and "length dps < 2 ^ 63"
  shows "map sint (fold (\<lambda>d b. UpdatePSStats b d c) dps init_stats) =
    [int (length dps), \<Sum>d\<leftarrow>dps. sint (sort_key c d),
     Min ((\<lambda>d. sint (sort_key c d)) ` set dps),
     (\<Sum>d\<leftarrow>dps. sint (sort_key c d)) div int (length dps),
     Max ((\<lambda>d. sint (sort_key c d)) ` set dps)]"
proof -
  let ?vs = "map (sort_key c) dps" and ?K = "(\<lambda>d. sint (sort_key c d)) ` set dps"
  have img: "sint ` sort_key c ` set dps = ?K" by (simp add: image_image)
  have s: "sint (sum_list ?vs) = (\<Sum>d\<leftarrow>dps. sint (sort_key c d))"
    using sint_sum_list [of ?vs] assms(2,3) by (simp add: comp_def)
  have "int (length dps) < 2 ^ 63" using assms(4) by (metis of_nat_less_numeral_power_cancel_iff)
  then have n: "sint (of_nat (length dps) :: i64) = int (length dps)"
    using sint_word_of_int_i64 [of "int (length dps)"] by simp
  have av: "sint (go_div (sum_list ?vs) (of_nat (length dps))) =
      (\<Sum>d\<leftarrow>dps. sint (sort_key c d)) div int (length dps)"
    using sint_go_div [of "sum_list ?vs" "of_nat (length dps)"] s n assms(1,2)
    by (simp add: sum_list_map_nonneg)
  have fin: "finite ?K" "?K \<noteq> {}" using assms(1) by auto
  have "Min (insert (sint max_i64) ?K) = Min ?K"
    by (intro Min_insert_ge [OF fin]) auto
  moreover have "Max (insert 0 ?K) = Max ?K"
    using assms(2) by (intro Max_insert_le [OF fin]) auto
  ultimately have lo: "sint (fold (\<lambda>v m. imin m v) ?vs max_i64) = Min ?K"
    and hi: "sint (fold (\<lambda>v m. imax m v) ?vs 0) = Max ?K"
    by (simp_all only: sint_fold_imin sint_fold_imax set_map img sint_max_i64 sint_0)
  have ne: "(?vs = []) = False" using assms(1) by simp
  show ?thesis
    by (simp only: fold_UpdatePSStats stats_of_closed list.map ne if_False length_map s n av lo hi)
qed

theorem UpdatePSStats_summary_witness:
  "map sint (fold (\<lambda>d b. UpdatePSStats b d zero_config)
      [zero_dp\<lparr>dp_RMSH := 7\<rparr>, zero_dp\<lparr>dp_RMSH := 2\<rparr>, zero_dp\<lparr>dp_RMSH := 4\<rparr>] init_stats) = [3, 13, 2, 4, 7]"
proof -
  let ?dps = "[zero_dp\<lparr>dp_RMSH := 7\<rparr>, zero_dp\<lparr>dp_RMSH := 2\<rparr>, zero_dp\<lparr>dp_RMSH := 4\<rparr>]"
  have s: "sint (7 :: i64) = 7" "sint (2 :: i64) = 2" "sint (4 :: i64) = 4" by code_simp+
  have k: "sort_key zero_config d = dp_RMSH d" for d
    by (simp add: sort_key_def zero_config_def SortTTFBH_def)
  have "?dps \<noteq> []" "\<forall>d \<in> set ?dps. 0 \<le> sint (sort_key zero_config d)"
    "(\<Sum>d\<leftarrow>?dps. sint (sort_key zero_config d)) < 2 ^ 63" "length ?dps < 2 ^ 63"
    by (simp_all add: k s)
  from UpdatePSStats_summary [OF this] show ?thesis by (simp add: k s)
qed

end
