(* ===== verification/GoCsv.thy ===== *)
theory GoCsv
  imports Prelude
begin

text \<open>
  The writer of Go's \<open>encoding/csv\<close> package with its default options, and a reader of RFC 4180 as a
  reference: an automaton over the bytes that fails on what the format does not allow.
\<close>

section \<open>The writer\<close>

text \<open>
  White space at the start of a field: the ASCII characters, and the UTF-8 texts of the others that
  \<open>unicode.IsSpace\<close> accepts.
\<close>

definition wide_spaces :: "string list" where
  "wide_spaces =
     [[CHR 0xC2, CHR 0x85], [CHR 0xC2, CHR 0xA0], [CHR 0xE1, CHR 0x9A, CHR 0x80],
      [CHR 0xE2, CHR 0x80, CHR 0xA8], [CHR 0xE2, CHR 0x80, CHR 0xA9], [CHR 0xE2, CHR 0x80, CHR 0xAF],
      [CHR 0xE2, CHR 0x81, CHR 0x9F], [CHR 0xE3, CHR 0x80, CHR 0x80]]
     @ map (\<lambda>n. [CHR 0xE2, CHR 0x80, char_of (n :: nat)]) [128 ..< 139]"

definition fieldNeedsQuotes :: "string \<Rightarrow> bool" where
  "fieldNeedsQuotes f \<longleftrightarrow>
     f \<noteq> [] \<and>
     (f = [CHR 0x5C, CHR ''.''] \<or> CHR '','' \<in> set f \<or> CHR 0x22 \<in> set f \<or> CHR 0x0D \<in> set f \<or> CHR 0x0A \<in> set f
      \<or> is_space (hd f) \<or> list_ex (HasPrefix f) wide_spaces)"

fun double_quotes :: "string \<Rightarrow> string" where
  "double_quotes [] = []"
| "double_quotes (c # s) = (if c = CHR 0x22 then CHR 0x22 # CHR 0x22 # double_quotes s else c # double_quotes s)"

definition csv_field :: "string \<Rightarrow> string" where
  "csv_field f = (if fieldNeedsQuotes f then CHR 0x22 # double_quotes f @ [CHR 0x22] else f)"

definition csv_record :: "string list \<Rightarrow> bytes" where
  "csv_record fs = Join (CHR '','') (map csv_field fs) @ [CHR 0x0A]"

section \<open>The reference reader\<close>

datatype csv_mode = AtStart | Bare | Quoted | AfterQuote

fun csv_read :: "csv_mode \<Rightarrow> string \<Rightarrow> string list \<Rightarrow> bytes \<Rightarrow> string list list option" where
  "csv_read m f r [] = (if m = AtStart \<and> r = [] then Some [] else None)"
| "csv_read m f r (c # s) =
     (if m = Quoted then (if c = CHR 0x22 then csv_read AfterQuote f r s else csv_read Quoted (f @ [c]) r s)
      else if c = CHR '','' then csv_read AtStart [] (r @ [f]) s
      else if c = CHR 0x0A then map_option ((#) (r @ [f])) (csv_read AtStart [] [] s)
      else if m = AtStart \<and> c = CHR 0x22 then csv_read Quoted [] r s
      else if m = AfterQuote \<and> c = CHR 0x22 then csv_read Quoted (f @ [c]) r s
      else if m = AfterQuote \<or> c = CHR 0x22 then None
      else csv_read Bare (f @ [c]) r s)"

definition parse_csv :: "bytes \<Rightarrow> string list list option" where
  "parse_csv d = csv_read AtStart [] [] d"

section \<open>The reader inverts the writer\<close>

lemma csv_read_quoted:
  "csv_read Quoted f r (double_quotes g @ CHR 0x22 # s) = csv_read AfterQuote (f @ g) r s"
  by (induction g arbitrary: f) auto

lemma csv_read_bare:
  assumes "\<forall>c \<in> set g. c \<noteq> CHR '','' \<and> c \<noteq> CHR 0x22 \<and> c \<noteq> CHR 0x0A"
  shows "csv_read Bare f r (g @ s) = csv_read Bare (f @ g) r s"
  using assms by (induction g arbitrary: f) auto

lemma csv_read_end:
  assumes "m \<noteq> Quoted"
  shows "csv_read m f r (CHR '','' # s) = csv_read AtStart [] (r @ [f]) s"
    and "csv_read m f r (CHR 0x0A # s) = map_option ((#) (r @ [f])) (csv_read AtStart [] [] s)"
  using assms by simp_all

lemma csv_read_field:
  obtains m where "m \<noteq> Quoted" and "\<And>s. csv_read AtStart [] r (csv_field f @ s) = csv_read m f r s"
proof (cases "fieldNeedsQuotes f")
  case True
  have "csv_read AtStart [] r (csv_field f @ s) = csv_read AfterQuote f r s" for s
    using csv_read_quoted [of "[]" r f s] True by (simp add: csv_field_def)
  then show ?thesis by (intro that [of AfterQuote]) auto
next
  case False
  show ?thesis
  proof (cases f)
    case Nil
    then show ?thesis by (intro that [of AtStart]) (auto simp: csv_field_def fieldNeedsQuotes_def)
  next
    case (Cons c g)
    then have "\<forall>c \<in> set f. c \<noteq> CHR '','' \<and> c \<noteq> CHR 0x22 \<and> c \<noteq> CHR 0x0A"
      using False by (auto simp: fieldNeedsQuotes_def)
    then have "csv_read AtStart [] r (csv_field f @ s) = csv_read Bare f r s" for s
      using csv_read_bare [of g "[c]" r s] False Cons by (simp add: csv_field_def)
    then show ?thesis by (intro that [of Bare]) auto
  qed
qed

lemma csv_read_record:
  assumes "fs \<noteq> []"
  shows "csv_read AtStart [] r (csv_record fs @ s) = map_option ((#) (r @ fs)) (csv_read AtStart [] [] s)"
  using assms
proof (induction fs arbitrary: r rule: list_nonempty_induct)
  case (single f)
  obtain m where "m \<noteq> Quoted" "\<And>s. csv_read AtStart [] r (csv_field f @ s) = csv_read m f r s"
    using csv_read_field [of r f] by metis
  then show ?case by (simp add: csv_record_def csv_read_end)
next
  case (cons f fs)
  obtain m where m: "m \<noteq> Quoted" "\<And>s. csv_read AtStart [] r (csv_field f @ s) = csv_read m f r s"
    using csv_read_field [of r f] by metis
  have "csv_record (f # fs) @ s = csv_field f @ CHR '','' # csv_record fs @ s"
    using cons.hyps by (cases fs) (simp_all add: csv_record_def)
  then show ?case using cons.IH [of "r @ [f]"] m by (simp add: csv_read_end)
qed

text \<open>What the writer writes, the reader returns, whatever the fields contain.\<close>

lemma parse_csv_records: "\<forall>fs \<in> set recs. fs \<noteq> [] \<Longrightarrow> parse_csv (concat (map csv_record recs)) = Some recs"
  unfolding parse_csv_def by (induction recs) (simp_all add: csv_read_record)

end
