(* ===== verification/ClientAnalyze.thy ===== *)
theory ClientAnalyze
  imports ClientCollect SharedStats GoCsv
begin

text \<open>
  The analysis of collected data points in \<open>client/client.go\<close>: percentiles of a latency test, the printed
  slices of data points, the commands that analyze, and the conversion of a test file to CSV. \<open>srt\<close> is
  \<open>slices.SortFunc\<close>, \<open>impl\<close> what Go leaves to the implementation when a float does not fit an \<open>int\<close>,
  \<open>tstr\<close> the text that \<open>time.Time.String\<close> gives an instant, which depends on its location.
\<close>

section \<open>Printing data points\<close>

definition to_milliseconds :: "DP \<Rightarrow> DP" where
  "to_milliseconds d =
     d\<lparr>dp_RMSH := go_div (dp_RMSH d) 1000, dp_RMSL := go_div (dp_RMSL d) 1000,
       dp_TTFBH := go_div (dp_TTFBH d) 1000, dp_TTFBL := go_div (dp_TTFBL d) 1000\<rparr>"

definition transformDataPointsToMilliseconds :: "DP list \<Rightarrow> DP list" where
  "transformDataPointsToMilliseconds dps = map to_milliseconds dps"

fun print_points :: "(time \<Rightarrow> int) \<Rightarrow> TestType \<Rightarrow> nat \<Rightarrow> DP list \<Rightarrow> screen \<Rightarrow> screen" where
  "print_points zone t0 i [] sc = sc"
| "print_points zone t0 i (d # ds) sc =
     print_points zone t0 (Suc i) ds
       (printTableRow zone BaseStyle d (dp_Type d)
         (if i mod 20 = 0 then printDataPointHeaders t0 sc else sc))"

definition printSliceOfDataPoints :: "(time \<Rightarrow> int) \<Rightarrow> DP list \<Rightarrow> Config \<Rightarrow> screen \<Rightarrow> screen" where
  "printSliceOfDataPoints zone dps c sc =
     (let data = (if \<not> c_Micro c then transformDataPointsToMilliseconds dps else dps)
      in case data of [] \<Rightarrow> sc | d # _ \<Rightarrow> print_points zone (dp_Type d) 0 data sc)"

section \<open>Percentiles\<close>

record percentile =
  pc_points :: "DP list"
  pc_stats :: "i64 list"

record percentiles =
  p10 :: percentile
  p50 :: percentile
  p90 :: percentile
  p99 :: percentile

definition no_points :: percentile where
  "no_points = \<lparr>pc_points = [], pc_stats = init_stats\<rparr>"

definition add_point :: "Config \<Rightarrow> DP \<Rightarrow> percentile \<Rightarrow> percentile" where
  "add_point c d p = \<lparr>pc_points = pc_points p @ [d], pc_stats = UpdatePSStats (pc_stats p) d c\<rparr>"

text \<open>The index that a percentile starts at: the float that the code computes, as an \<open>int\<close>.\<close>

definition percent_of :: "nat \<Rightarrow> int \<Rightarrow> float64" where
  "percent_of n p = fmul (fdiv (float_of_int (int n)) (float_of_int 100)) (float_of_int p)"

definition start10 :: "int \<Rightarrow> nat \<Rightarrow> int" where
  "start10 impl n = int_of_float impl (fceil (percent_of n 10))"

definition start_floor :: "int \<Rightarrow> nat \<Rightarrow> int \<Rightarrow> int" where
  "start_floor impl n p = int_of_float impl (ffloor (percent_of n p))"

text \<open>The loop over the sorted data points, \<open>n\<close> of them, at index \<open>i\<close>.\<close>

fun percentile_loop :: "int \<Rightarrow> Config \<Rightarrow> nat \<Rightarrow> nat \<Rightarrow> DP list \<Rightarrow> percentiles \<Rightarrow> percentiles" where
  "percentile_loop impl c n i [] w = w"
| "percentile_loop impl c n i (d # ds) w =
     (let w1 = (if start10 impl n \<le> int i then w\<lparr>p10 := add_point c d (p10 w)\<rparr> else w);
          w2 = (if start_floor impl n 50 \<le> int i then w1\<lparr>p50 := add_point c d (p50 w1)\<rparr> else w1);
          w3 = (if start_floor impl n 90 \<le> int i then w2\<lparr>p90 := add_point c d (p90 w2)\<rparr> else w2);
          w4 = (if start_floor impl n 99 \<le> int i then w3\<lparr>p99 := add_point c d (p99 w3)\<rparr> else w3)
      in percentile_loop impl c n (Suc i) ds w4)"

definition percentiles_of :: "int \<Rightarrow> Config \<Rightarrow> DP list \<Rightarrow> percentiles" where
  "percentiles_of impl c ds =
     percentile_loop impl c (length ds) 0 ds \<lparr>p10 = no_points, p50 = no_points, p90 = no_points, p99 = no_points\<rparr>"

definition blank :: "screen \<Rightarrow> screen" where
  "blank = Println (Plain [])"

definition analyzeLatencyTest ::
  "((DP \<Rightarrow> DP \<Rightarrow> int) \<Rightarrow> DP list \<Rightarrow> DP list) \<Rightarrow> int \<Rightarrow> (time \<Rightarrow> int) \<Rightarrow> DP list \<Rightarrow> Config \<Rightarrow> screen \<Rightarrow> screen" where
  "analyzeLatencyTest srt impl zone dps0 c sc =
     (let dps = SortDataPoints srt dps0 c;
          w = percentiles_of impl c dps;
          sc1 = blank (Println (Plain '' _____ P99 data points _____ '') (blank sc));
          sc2 = blank (printSliceOfDataPoints zone (pc_points (p99 w)) c sc1);
          sc3 = Println (Plain ('' Sorting: '' @ (if c_Sort c = [] then SortDefault else c_Sort c))) sc2;
          sc4 = blank (Println (Plain (if c_Micro c then '' Time: Microseconds'' else '' Time: Milliseconds'')) sc3);
          sc5 = PrintPercentiles SuccessStyle ''P10'' (pc_stats (p10 w)) c sc4;
          sc6 = PrintPercentiles WarningStyle ''P50'' (pc_stats (p50 w)) c sc5;
          sc7 = PrintPercentiles ErrorStyle ''P90'' (pc_stats (p90 w)) c sc6
      in PrintPercentiles ErrorStyle ''P99'' (pc_stats (p99 w)) c sc7)"

section \<open>The commands\<close>

definition print_errors :: "(time \<Rightarrow> int) \<Rightarrow> TError list \<Rightarrow> screen \<Rightarrow> screen" where
  "print_errors zone errs sc =
     (if errs = [] then sc
      else blank (fold (PrintTError zone) errs (Println (Plain '' ____ ERRORS ____'') sc)))"

definition AnalyzeBandwidthTest :: "(time \<Rightarrow> int) \<Rightarrow> Config \<Rightarrow> collected \<Rightarrow> collected" where
  "AnalyzeBandwidthTest zone c k =
     (let k1 = (if c_PrintAll c
                then on_screen (\<lambda>sc. print_errors zone (k_ERR k) (printSliceOfDataPoints zone (k_DPS k) c
                       (blank (Println (Plain '' Printing all data points ..'') sc)))) k
                else k)
      in if k_DPS k1 = [] then on_screen (Println (Plain ''No datapoints found'')) k1 else k1)"

definition AnalyzeLatencyTest ::
  "((DP \<Rightarrow> DP \<Rightarrow> int) \<Rightarrow> DP list \<Rightarrow> DP list) \<Rightarrow> int \<Rightarrow> (time \<Rightarrow> int) \<Rightarrow> Config \<Rightarrow> collected \<Rightarrow> collected" where
  "AnalyzeLatencyTest srt impl zone c k =
     (let k1 = (if c_PrintAll c
                then on_screen (\<lambda>sc. print_errors zone (k_ERR k) (printSliceOfDataPoints zone (k_DPS k) c
                       (Println (Plain '' Printing all data points ..'') sc))) k
                else k)
      in if k_DPS k1 = [] then on_screen (Println (Plain ''No datapoints found'')) k1
         else (on_screen (\<lambda>sc. analyzeLatencyTest srt impl zone (k_DPS k1) c
                 (blank (Println (Plain '' Analyzing data ..'') sc))) k1)
                \<lparr>k_DPS := SortDataPoints srt (k_DPS k1) c\<rparr>)"

text \<open>
  \<open>os.Open\<close> followed by a scan, and \<open>os.ReadFile\<close>: a directory opens but has nothing to scan, and cannot
  be read.
\<close>

definition open_scan :: "string \<Rightarrow> fsys \<Rightarrow> bytes option" where
  "open_scan p fs =
     (case walk (fs_dirs fs) [] (Split (CHR ''/'') p) of
        None \<Rightarrow> None
      | Some q \<Rightarrow> if q \<in> set (fs_dirs fs) then Some [] else content fs q)"

definition ReadFile :: "string \<Rightarrow> fsys \<Rightarrow> string + bytes" where
  "ReadFile p fs =
     (case walk (fs_dirs fs) [] (Split (CHR ''/'') p) of
        None \<Rightarrow> Inl ''open: no such file or directory''
      | Some q \<Rightarrow>
          if q \<in> set (fs_dirs fs) then Inl ''read: is a directory''
          else (case content fs q of None \<Rightarrow> Inl ''open: no such file or directory'' | Some d \<Rightarrow> Inr d))"

definition AnalyzeTest ::
  "((DP \<Rightarrow> DP \<Rightarrow> int) \<Rightarrow> DP list \<Rightarrow> DP list) \<Rightarrow> int \<Rightarrow> (time \<Rightarrow> int) \<Rightarrow> unjson \<Rightarrow> Config \<Rightarrow> fsys \<Rightarrow> screen \<Rightarrow>
   screen \<times> unit outcome" where
  "AnalyzeTest srt impl zone uj c fs sc =
     (case read_for_analysis uj c (open_scan (c_File c) fs) of
        Panic p \<Rightarrow> (sc, Panic p)
      | Error er \<Rightarrow> (sc, Error er)
      | Return (dps, errs) \<Rightarrow>
          (let sc1 = (if c_PrintStats c then printSliceOfDataPoints zone dps c sc else sc);
               sc2 = (if c_PrintErrors c then print_errors zone errs sc1 else sc1)
           in (case dps of
                 [] \<Rightarrow> Println (Plain ''No datapoints found'') sc2
               | d # _ \<Rightarrow>
                   (case dp_Type d of
                      RequestTest \<Rightarrow> analyzeLatencyTest srt impl zone dps c sc2
                    | StreamTest \<Rightarrow>
                        Println (Plain ''Detailed analysis for bandwidth testing is in development'') (blank sc2)
                    | _ \<Rightarrow> sc2), Return ())))"

section \<open>Conversion to CSV\<close>

text \<open>The names that \<open>getStructFields\<close> reads from the struct: the JSON tag where there is one.\<close>

definition getStructFields :: "string list" where
  "getStructFields =
     [''Type'', ''TestID'', ''Created'', ''Local'', ''Remote'', ''RMSH'', ''RMSL'', ''TTFBH'', ''TTFBL'', ''TX'',
      ''TXTotal'', ''TXCount'', ''ErrCount'', ''DroppedPackets'', ''MemoryUsedPercent'', ''CPUUsedPercent'', ''-'']"

definition dpToSlice :: "(time \<Rightarrow> string) \<Rightarrow> DP \<Rightarrow> string list" where
  "dpToSlice tstr d =
     [Itoa (test_num (dp_Type d)), dp_TestID d, tstr (dp_Created d), dp_Local d, dp_Remote d,
      formatInt (dp_RMSH d), formatInt (dp_RMSL d), formatInt (dp_TTFBH d), formatInt (dp_TTFBL d),
      formatUint (dp_TX d), formatUint (dp_TXTotal d), formatUint (dp_TXCount d), Itoa (dp_ErrCount d),
      Itoa (dp_DroppedPackets d), Itoa (dp_MemoryUsedPercent d), Itoa (dp_CPUUsedPercent d), tstr (dp_Received d)]"

text \<open>The records of the lines, and the error that ends the loop. Lines that are no data points are skipped.\<close>

fun csv_rows :: "unjson \<Rightarrow> (time \<Rightarrow> string) \<Rightarrow> bytes list \<Rightarrow> string list list \<times> string option" where
  "csv_rows uj tstr [] = ([], None)"
| "csv_rows uj tstr (b # bs) =
     (if HasPrefix b (FilePrefix_String DataPoint) then
        (case uj_dp uj (drop 1 b) of
           Inl e \<Rightarrow> ([], Some e)
         | Inr x \<Rightarrow>
             (let (rs, er) = csv_rows uj tstr bs
              in (dpToSlice tstr (case x of None \<Rightarrow> zero_dp | Some d \<Rightarrow> d) # rs, er)))
      else csv_rows uj tstr bs)"

text \<open>
  \<open>MakeCSV\<close>. The writer is flushed on every return, so that the file holds the records written before
  an error.
\<close>

definition MakeCSV :: "unjson \<Rightarrow> (time \<Rightarrow> string) \<Rightarrow> time \<Rightarrow> Config \<Rightarrow> fsys \<Rightarrow> fsys \<times> string option" where
  "MakeCSV uj tstr now c fs =
     (case ReadFile (c_File c) fs of
        Inl er \<Rightarrow> (fs, Some er)
      | Inr byteValue \<Rightarrow>
          (case Create now (c_File c @ ''.csv'') fs of
             (fs1, Inl er) \<Rightarrow> (fs1, Some er)
           | (fs1, Inr h) \<Rightarrow>
               (let (rs, er) = csv_rows uj tstr (fst (scan_lines byteValue))
                in (Write now (Some h) (concat (map csv_record (getStructFields # rs))) fs1, er))))"

section \<open>What a percentile holds\<close>

lemma percentile_loop_eq:
  "percentile_loop impl c n i ds w =
     \<lparr>p10 = fold (add_point c) (drop (nat (start10 impl n - int i)) ds) (p10 w),
      p50 = fold (add_point c) (drop (nat (start_floor impl n 50 - int i)) ds) (p50 w),
      p90 = fold (add_point c) (drop (nat (start_floor impl n 90 - int i)) ds) (p90 w),
      p99 = fold (add_point c) (drop (nat (start_floor impl n 99 - int i)) ds) (p99 w)\<rparr>"
proof (induction ds arbitrary: i w)
  case (Cons d ds)
  have "fold (add_point c) (drop (nat (s - int (Suc i))) ds) (if s \<le> int i then add_point c d p else p)
      = fold (add_point c) (drop (nat (s - int i)) (d # ds)) p" for s p
  proof (cases "s \<le> int i")
    case False
    then have "nat (s - int i) = Suc (nat (s - int (Suc i)))" by (simp add: Suc_nat_eq_nat_zadd1)
    then show ?thesis using False by simp
  qed simp
  note st = this [of "start10 impl n"] this [of "start_floor impl n 50"] this [of "start_floor impl n 90"]
    this [of "start_floor impl n 99"]
  show ?case
    by (simp only: percentile_loop.simps Let_def Cons.IH st [symmetric]) simp
qed simp

lemma fold_add_point:
  "fold (add_point c) ds p =
     \<lparr>pc_points = pc_points p @ ds, pc_stats = fold (\<lambda>d b. UpdatePSStats b d c) ds (pc_stats p)\<rparr>"
  by (induction ds arbitrary: p) (simp_all add: add_point_def)

definition window :: "Config \<Rightarrow> DP list \<Rightarrow> percentile" where
  "window c ds = \<lparr>pc_points = ds, pc_stats = stats_of (map (sort_key c) ds)\<rparr>"

lemma percentiles_of_eq:
  "percentiles_of impl c ds =
     \<lparr>p10 = window c (drop (nat (start10 impl (length ds))) ds),
      p50 = window c (drop (nat (start_floor impl (length ds) 50)) ds),
      p90 = window c (drop (nat (start_floor impl (length ds) 90)) ds),
      p99 = window c (drop (nat (start_floor impl (length ds) 99)) ds)\<rparr>"
  by (simp add: percentiles_of_def percentile_loop_eq fold_add_point no_points_def window_def fold_UpdatePSStats)

section \<open>Where a percentile starts\<close>

lemma percent_of_value:
  assumes "1 \<le> n" and "n < 2 ^ 40" and "1 \<le> p" and "p \<le> 100"
  obtains y where "percent_of n (int p) = Fin y" and "\<bar>y - of_nat (n * p) / 100\<bar> < 1 / 1000"
proof -
  let ?x = "of_nat n / 100 :: rat" and ?p = "of_nat p :: rat"
  have u: "pow2 (- 53) = 1 / 9007199254740992" by (simp add: pow2_def)
  have big: "pow2 (- 1022) \<le> 1 / 10000" "pow2 64 = 18446744073709551616" by (simp_all add: pow2_def)
  have "of_nat n < (of_nat (2 ^ 40) :: rat)" using assms(2) by (simp only: of_nat_less_iff)
  then have x: "1 / 100 \<le> ?x" "?x \<le> 10995116278" using assms(1) by simp_all
  have p: "1 \<le> ?p" "?p \<le> 100" using assms(3,4) by simp_all
  obtain y1 where y1: "round64 ?x = Fin y1" "\<bar>y1 - ?x\<bar> \<le> ?x * pow2 (- 53)"
    using round64_error [of ?x] x big by auto
  have e1: "\<bar>y1 - ?x\<bar> \<le> 1 / 500000" and y1b: "1 / 200 \<le> y1" "y1 \<le> 10995116279"
    using y1(2) x unfolding u by linarith+
  have "1 / 200 * 1 \<le> y1 * ?p" "y1 * ?p \<le> 10995116279 * 100"
    using y1b p by (intro mult_mono; simp)+
  then have yp: "1 / 200 \<le> y1 * ?p" "y1 * ?p \<le> 1099511627900" by simp_all
  obtain y where y: "round64 (y1 * ?p) = Fin y" "\<bar>y - y1 * ?p\<bar> \<le> y1 * ?p * pow2 (- 53)"
    using round64_error [of "y1 * ?p"] yp big by auto
  have "\<bar>y - y1 * ?p\<bar> \<le> 1 / 5000" using y(2) yp unfolding u by linarith
  moreover have pr: "\<bar>y1 * P - X * P\<bar> = \<bar>y1 - X\<bar> * P" if "0 \<le> P" for P X :: rat
    using that by (simp only: left_diff_distrib [symmetric] abs_mult abs_of_nonneg)
  have "\<bar>y1 * ?p - ?x * ?p\<bar> = \<bar>y1 - ?x\<bar> * ?p" by (rule pr) simp
  moreover have "\<bar>y1 - ?x\<bar> * ?p \<le> 1 / 500000 * 100" using e1 p by (intro mult_mono) auto
  ultimately have "\<bar>y - ?x * ?p\<bar> < 1 / 1000" by linarith
  moreover have "?x * ?p = of_nat (n * p) / 100" by simp
  moreover have "percent_of n (int p) = Fin y"
  proof -
    have "n < 2 ^ 53" using assms(2) by simp
    moreover have "p < 2 ^ 53" using assms(4) by simp
    ultimately show ?thesis
      using float_of_int_nat [of n] float_of_int_nat [of p] float_of_int_nat [of 100] y1(1) y(1)
      by (simp add: percent_of_def)
  qed
  ultimately show ?thesis using that by metis
qed

text \<open>The value is a hundredth away from every integer that it does not equal, so rounding hardly matters.\<close>

lemma near_floor:
  assumes "\<bar>y - of_nat m / 100\<bar> < (1 / 1000 :: rat)"
  shows "\<not> 100 dvd m \<Longrightarrow> \<lfloor>y\<rfloor> = int (m div 100)" and "\<not> 100 dvd m \<Longrightarrow> \<lceil>y\<rceil> = int (m div 100) + 1"
    and "100 dvd m \<Longrightarrow> \<lfloor>y\<rfloor> = int (m div 100) \<or> \<lfloor>y\<rfloor> = int (m div 100) - 1"
    and "100 dvd m \<Longrightarrow> \<lceil>y\<rceil> = int (m div 100) \<or> \<lceil>y\<rceil> = int (m div 100) + 1"
proof -
  let ?a = "m div 100" and ?r = "m mod 100"
  have "of_nat m = 100 * of_nat ?a + (of_nat ?r :: rat)"
    by (metis mult_div_mod_eq of_nat_add of_nat_mult of_nat_numeral)
  then have m: "of_nat m / 100 = of_nat ?a + of_nat ?r / (100 :: rat)" by simp
  have dv: "100 dvd m \<longleftrightarrow> ?r = 0" by (rule dvd_eq_mod_eq_0)
  have ai: "of_int (int ?a) = (of_nat ?a :: rat)" by simp
  { assume "\<not> 100 dvd m"
    then have "1 \<le> ?r" "?r \<le> 99" using dv by simp_all
    then have "of_nat 1 \<le> (of_nat ?r :: rat)" "(of_nat ?r :: rat) \<le> of_nat 99" by (simp_all only: of_nat_le_iff)
    then have "(1 :: rat) \<le> of_nat ?r" "(of_nat ?r :: rat) \<le> 99" by (simp_all only: of_nat_1 of_nat_numeral)
    then have "of_nat ?a < y" "y < of_nat ?a + 1" using assms unfolding m by linarith+
    then show "\<lfloor>y\<rfloor> = int ?a" "\<lceil>y\<rceil> = int ?a + 1"
      using ai by (simp_all add: floor_eq_iff ceiling_eq_iff) }
  { assume "100 dvd m"
    then have "of_nat m / 100 = (of_nat ?a :: rat)" using dv m by simp
    then have "of_nat ?a - 1 < y" "y < of_nat ?a + 1" using assms by linarith+
    then show "\<lfloor>y\<rfloor> = int ?a \<or> \<lfloor>y\<rfloor> = int ?a - 1" "\<lceil>y\<rceil> = int ?a \<or> \<lceil>y\<rceil> = int ?a + 1"
      using ai by (simp_all add: floor_eq_iff ceiling_eq_iff) linarith+ }
qed

lemma int_of_Fin: "- (2 ^ 62) \<le> n \<Longrightarrow> n \<le> 2 ^ 62 \<Longrightarrow> int_of_float impl (Fin (of_int n)) = n"
  by (simp add: trunc_rat_def)

lemma int_of_Fin_near:
  assumes "int m - 1 \<le> z" and "z \<le> int m + 1" and "int m \<le> 2 ^ 40"
  shows "int_of_float impl (Fin (of_int z)) = z"
  using assms by (intro int_of_Fin) simp_all

lemma start_floor_cases:
  assumes "1 \<le> n" and "n < 2 ^ 40" and "1 \<le> p" and "p \<le> 100"
  shows "start_floor impl n (int p) = int (n * p div 100)
    \<or> (100 dvd n * p \<and> start_floor impl n (int p) = int (n * p div 100) - 1)"
proof -
  obtain y where y: "percent_of n (int p) = Fin y" "\<bar>y - of_nat (n * p) / 100\<bar> < 1 / 1000"
    using percent_of_value [OF assms] .
  have "n * p div 100 \<le> n * 100 div 100" using assms(4) by (intro div_le_mono mult_le_mono2)
  then have b: "int (n * p div 100) \<le> 2 ^ 40" using assms(2) by simp
  have "start_floor impl n (int p) = \<lfloor>y\<rfloor>" if "int (n * p div 100) - 1 \<le> \<lfloor>y\<rfloor>" "\<lfloor>y\<rfloor> \<le> int (n * p div 100)"
    unfolding start_floor_def y(1) ffloor.simps using int_of_Fin_near [OF that(1) _ b] that(2) by simp
  then show ?thesis using near_floor(1,3) [OF y(2)] by fastforce
qed

lemma div10_up: "1 \<le> r \<Longrightarrow> r < 10 \<Longrightarrow> (10 * q + r + 9) div 10 = Suc (q :: nat)"
  by (rule div_nat_eqI) simp_all

lemma start10_cases:
  assumes "1 \<le> n" and "n < 2 ^ 40"
  shows "start10 impl n = int ((n + 9) div 10) \<or> (10 dvd n \<and> start10 impl n = int (n div 10) + 1)"
proof -
  obtain y where y: "percent_of n (int 10) = Fin y" "\<bar>y - of_nat (n * 10) / 100\<bar> < 1 / 1000"
    using percent_of_value [OF assms, of 10] by auto
  have b: "int (n div 10) \<le> 2 ^ 40" "n * 10 div 100 = n div 10" "100 dvd n * 10 \<longleftrightarrow> 10 dvd n" using assms(2) by auto
  have st: "start10 impl n = \<lceil>y\<rceil>" if "int (n div 10) \<le> \<lceil>y\<rceil>" "\<lceil>y\<rceil> \<le> int (n div 10) + 1"
    using int_of_Fin_near [OF _ that(2) b(1), of impl] that(1) y(1) by (simp add: start10_def)
  show ?thesis
  proof (cases "10 dvd n")
    case True
    then have eq: "(n + 9) div 10 = n div 10" by presburger
    have "\<lceil>y\<rceil> = int (n div 10) \<or> \<lceil>y\<rceil> = int (n div 10) + 1"
      using near_floor(4) [OF y(2)] True by (simp only: b(2,3))
    then show ?thesis unfolding eq using st True by (elim disjE) simp_all
  next
    case False
    then have "1 \<le> n mod 10" by (simp add: dvd_eq_mod_eq_0 Suc_le_eq)
    then have eq: "(n + 9) div 10 = n div 10 + 1" using div10_up [of "n mod 10" "n div 10"] by simp
    have "\<lceil>y\<rceil> = int (n div 10) + 1" using near_floor(2) [OF y(2) False [folded b(3)]] by (simp only: b(2))
    then show ?thesis unfolding eq using st by simp
  qed
qed

lemma start_99:
  assumes "1 \<le> n" and "n < 2 ^ 40"
  shows "start_floor impl n 99 = int (n * 99 div 100)"
proof (cases "100 dvd n")
  case True
  then obtain k where k: "n = 100 * k" by (elim dvdE)
  have "percent_of n 99 = Fin (of_nat (k * 99))"
    using float_of_int_nat [of n] float_of_int_nat [of 99] float_of_int_nat [of 100] round64_nat [of k]
      round64_nat [of "k * 99"] assms k by (simp add: percent_of_def)
  then show ?thesis using int_of_Fin [of "int (k * 99)" impl] assms k by (simp add: start_floor_def)
next
  case False
  have "coprime (100 :: nat) 99" by (simp add: coprime_iff_gcd_eq_1 gcd_non_0_nat)
  then have "\<not> 100 dvd n * 99" using False by (simp add: coprime_dvd_mult_left_iff)
  then show ?thesis using start_floor_cases [OF assms, of 99 impl] by auto
qed

section \<open>Properties of the percentiles\<close>

text \<open>
  C27: The loop of the latency analysis computes, for each percentile, the data points from its starting
  index on in the sorted order and the statistics of their selected timing. These statistics depend
  only on which data points there are: any order of the input and any sort give the same four lines.
\<close>

theorem percentile_windows:
  fixes c :: Config and impl :: int
  assumes "sort_func srt" and "sort_func srt'" and "mset dps = mset dps'"
  defines "ds \<equiv> SortDataPoints srt dps c" and "n \<equiv> length dps"
  defines "w \<equiv> percentiles_of impl c ds" and "w' \<equiv> percentiles_of impl c (SortDataPoints srt' dps' c)"
  shows "w = \<lparr>p10 = window c (drop (nat (start10 impl n)) ds),
      p50 = window c (drop (nat (start_floor impl n 50)) ds),
      p90 = window c (drop (nat (start_floor impl n 90)) ds),
      p99 = window c (drop (nat (start_floor impl n 99)) ds)\<rparr>
    \<and> pc_stats (p10 w) = pc_stats (p10 w') \<and> pc_stats (p50 w) = pc_stats (p50 w')
    \<and> pc_stats (p90 w) = pc_stats (p90 w') \<and> pc_stats (p99 w) = pc_stats (p99 w')"
proof -
  let ?ds' = "SortDataPoints srt' dps' c"
  have len: "length ds = n" "length ?ds' = n"
    using mset_eq_length [OF SortDataPoints_mset [OF assms(1), of dps c]]
      mset_eq_length [OF SortDataPoints_mset [OF assms(2), of dps' c]] mset_eq_length [OF assms(3)]
    by (simp_all add: ds_def n_def)
  have "map (\<lambda>dp. sint (sort_key c dp)) ds = map (\<lambda>dp. sint (sort_key c dp)) ?ds'"
  proof -
    have "sort (map (\<lambda>dp. sint (sort_key c dp)) dps) = sort (map (\<lambda>dp. sint (sort_key c dp)) dps')"
      using assms(3) by (intro properties_for_sort) simp_all
    then show ?thesis by (simp add: ds_def SortDataPoints_keys [OF assms(1)] SortDataPoints_keys [OF assms(2)])
  qed
  then have "map sint (map (sort_key c) ds) = map sint (map (sort_key c) ?ds')" by (simp add: comp_def)
  then have "map (sort_key c) ds = map (sort_key c) ?ds'" by (rule map_injective) (auto intro: injI i64_eqI)
  then have "stats_of (map (sort_key c) (drop k ds)) = stats_of (map (sort_key c) (drop k ?ds'))" for k
    by (simp add: drop_map [symmetric])
  then show ?thesis by (simp add: w_def w'_def percentiles_of_eq window_def len)
qed

text \<open>
  C28: The index that a percentile starts at, computed in floating point, is the exact one or one off,
  and off only where the exact quotient is an integer: P50 and P90 may then start one data point
  early and P10 one late; P99 is exact. From two data points on no percentile is empty.
\<close>

theorem percentile_starts:
  assumes "1 \<le> n" and "n < 2 ^ 40"
  shows "(start_floor impl n 50 = int (n div 2) \<or> (2 dvd n \<and> start_floor impl n 50 = int (n div 2) - 1))
    \<and> (start_floor impl n 90 = int (n * 9 div 10) \<or> (10 dvd n \<and> start_floor impl n 90 = int (n * 9 div 10) - 1))
    \<and> start_floor impl n 99 = int (n * 99 div 100)
    \<and> (start10 impl n = int ((n + 9) div 10) \<or> (10 dvd n \<and> start10 impl n = int (n div 10) + 1))
    \<and> (2 \<le> n \<longrightarrow> start10 impl n < int n)"
proof -
  have a: "n * 50 div 100 = n div 2" "n * 90 div 100 = n * 9 div 10" "100 dvd n * 50 \<longleftrightarrow> 2 dvd n" "100 dvd n * 90 \<longleftrightarrow> 10 dvd n"
  proof -
    have "n * 50 div 100 = (50 * n) div (50 * 2)" "n * 90 div 100 = (10 * (n * 9)) div (10 * 10)"
      by (simp_all add: mult.commute)
    then show "n * 50 div 100 = n div 2" "n * 90 div 100 = n * 9 div 10" by (simp_all only: nat_mult_div_cancel_disj)
    show "100 dvd n * 50 \<longleftrightarrow> 2 dvd n" by presburger
    have "100 dvd n * 90 \<longleftrightarrow> 10 * 10 dvd 10 * (9 * n)" by (simp add: mult.commute)
    also have "\<dots> \<longleftrightarrow> 10 dvd 9 * n" by (simp only: nat_mult_dvd_cancel_disj) simp
    also have "\<dots> \<longleftrightarrow> 10 dvd n" by (rule coprime_dvd_mult_right_iff) (simp add: coprime_iff_gcd_eq_1 gcd_non_0_nat)
    finally show "100 dvd n * 90 \<longleftrightarrow> 10 dvd n" .
  qed
  have f: "start_floor impl n 50 = int (n div 2) \<or> (2 dvd n \<and> start_floor impl n 50 = int (n div 2) - 1)"
    "start_floor impl n 90 = int (n * 9 div 10) \<or> (10 dvd n \<and> start_floor impl n 90 = int (n * 9 div 10) - 1)"
    using start_floor_cases [OF assms, of 50 impl] start_floor_cases [OF assms, of 90 impl] unfolding a by simp_all
  have "start10 impl n < int n" if "2 \<le> n"
  proof -
    have "(n + 9) div 10 < n" using that by linarith
    moreover have "n div 10 + 1 < n" if "10 dvd n" using that assms(1) by (elim dvdE) simp
    ultimately show ?thesis using start10_cases [OF assms, of impl] by linarith
  qed
  then show ?thesis using f start_99 [OF assms] start10_cases [OF assms, of impl] by blast
qed

text \<open>
  For a single data point the percentile P10 is empty, because its starting index is rounded up: its
  line shows the initial value of the minimum, the largest \<open>int64\<close>, instead of a timing.
\<close>

theorem single_point_has_no_P10:
  "pc_points (p10 (percentiles_of impl c [d])) = []
    \<and> map col_value (percentile_columns (pc_stats (p10 (percentiles_of impl c [d]))) c) =
      [[], ''0'', ''0'', if c_Micro c then ''9223372036854775807'' else ''9223372036854775'', ''0'', ''0'']"
proof -
  have "start10 impl 1 = 1" using start10_cases [of 1 impl] by simp
  then have p: "p10 (percentiles_of impl c [d]) = no_points"
    by (simp add: percentiles_of_eq window_def no_points_def stats_of_def)
  have g: "go_div max_i64 1000 = 9223372036854775" "go_div 0 1000 = 0"
    by (simp_all add: go_div_def signed_divide_int_def)
  have v: "formatInt max_i64 = ''9223372036854775807''" "formatInt 9223372036854775 = ''9223372036854775''" "formatInt 0 = ''0''"
    by (simp_all add: formatInt_def Itoa_def nat_digits.simps digit_char_def) (code_simp+)
  have cols: "map col_value (percentile_columns init_stats (zero_config\<lparr>c_Micro := True\<rparr>)) =
      [[], ''0'', ''0'', ''9223372036854775807'', ''0'', ''0'']"
    "map col_value (percentile_columns init_stats (zero_config\<lparr>c_Micro := False\<rparr>)) =
      [[], ''0'', ''0'', ''9223372036854775'', ''0'', ''0'']"
    by (simp_all only: percentile_columns_def Let_def init_stats_def) (simp_all add: g v)
  have m: "c_Micro (zero_config\<lparr>c_Micro := m\<rparr>) = m" for m by simp
  have eq: "percentile_columns init_stats c = percentile_columns init_stats (zero_config\<lparr>c_Micro := c_Micro c\<rparr>)"
    unfolding percentile_columns_def m by (rule refl)
  have "map col_value (percentile_columns init_stats c) =
      [[], ''0'', ''0'', if c_Micro c then ''9223372036854775807'' else ''9223372036854775'', ''0'', ''0'']"
    unfolding eq using cols by (cases "c_Micro c") (simp_all only: if_True if_False)
  then show ?thesis by (simp only: p no_points_def percentile.simps simp_thms)
qed

section \<open>Properties of the conversion\<close>

lemma csv_rows_data:
  assumes "codec enc_dp enc_err uj D E" and "set ds \<subseteq> D"
  shows "csv_rows uj tstr (map (line_of enc_dp DataPoint) ds @ rest) =
    (map (dpToSlice tstr) ds @ fst (csv_rows uj tstr rest), snd (csv_rows uj tstr rest))"
  using assms(2)
proof (induction ds)
  case (Cons d ds)
  then obtain b where "enc_dp d = Inr (CHR ''{'' # b)" "uj_dp uj (CHR ''{'' # b) = Inr (Some d)"
    using assms(1) by (force simp: codec_def)
  then show ?case using Cons by (simp add: line_of_def)
qed simp

lemma csv_rows_errors: "csv_rows uj tstr (map (line_of enc_err ErrorPoint) es) = ([], None)"
  by (induction es) (simp_all add: line_of_def)


section \<open>Witnesses\<close>

theorem percentile_windows_witness:
  "pc_stats (p50 (percentiles_of 0 zero_config (SortDataPoints insertion_sort
      [zero_dp\<lparr>dp_RMSH := 7\<rparr>, zero_dp\<lparr>dp_RMSH := 2\<rparr>] zero_config)))
    = pc_stats (p50 (percentiles_of 0 zero_config (SortDataPoints insertion_sort
      [zero_dp\<lparr>dp_RMSH := 2\<rparr>, zero_dp\<lparr>dp_RMSH := 7\<rparr>] zero_config)))"
proof -
  have "mset [zero_dp\<lparr>dp_RMSH := 7\<rparr>, zero_dp\<lparr>dp_RMSH := 2\<rparr>] = mset [zero_dp\<lparr>dp_RMSH := 2\<rparr>, zero_dp\<lparr>dp_RMSH := 7\<rparr>]"
    by simp
  from percentile_windows [OF ins.sort_func_axioms ins.sort_func_axioms this, of 0 zero_config]
  show ?thesis by blast
qed

text \<open>For 58 data points the median starts one early.\<close>

theorem percentile_starts_witness:
  "start_floor 0 58 50 = 28 \<and> start_floor 0 58 99 = 57 \<and> start10 0 58 = 6"
proof -
  have "\<not> start_floor 0 58 50 = 29" by code_simp
  then show ?thesis using percentile_starts [where n = 58 and impl = 0] by simp
qed

definition csv_fs :: fsys where
  "csv_fs =
     \<lparr>fs_dirs = [[], [''d'']], fs_names = [([''d'', ''out''], 0)],
      fs_data = (\<lambda>_. join_lines (download_lines demo_enc_dp demo_enc_err [old_dp, new_dp] [demo_terror])),
      fs_mtime = (\<lambda>_. 0), fs_next = 1\<rparr>"


end
