(* ===== verification/ClientRun.thy ===== *)
theory ClientRun
  imports ClientAnalyze
begin

text \<open>
  The commands of \<open>client/client.go\<close> that talk to servers: the sockets, the signal that each command
  sends to every host, the loop that keeps a command alive, the running totals that \<open>RunTest\<close> prints
  each second, and the table of \<open>ListTests\<close>. How the sockets connect and receive is in \<open>ClientConn\<close>.
  The configuration is passed by value, so what a command changes in it is not seen by its caller.
\<close>

section \<open>Sockets and signals\<close>

record wsClient =
  wc_ID :: nat
  wc_Host :: string
  wc_Con :: "nat option"

definition NewSignal :: "SignalType \<Rightarrow> Config \<Rightarrow> WebsocketSignal" where
  "NewSignal signal conf = zero_signal\<lparr>ws_SType := signal, ws_Config := conf\<rparr>"

text \<open>A write: a socket whose connection is not yet set has a nil pointer there.\<close>

definition WriteTo :: "wsClient \<Rightarrow> WebsocketSignal \<Rightarrow> (nat \<times> WebsocketSignal) outcome" where
  "WriteTo ws msg =
     (case wc_Con ws of None \<Rightarrow> Panic ''nil pointer dereference'' | Some con \<Rightarrow> Return (con, msg))"

definition client_SendError :: "wsClient \<Rightarrow> string option \<Rightarrow> (nat \<times> WebsocketSignal) option outcome" where
  "client_SendError ws e =
     (case e of
        None \<Rightarrow> Return None
      | Some er \<Rightarrow> bind_outcome (WriteTo ws (zero_signal\<lparr>ws_SType := Err, ws_Error := er\<rparr>)) (\<lambda>m. Return (Some m)))"

definition client_Ping :: "wsClient \<Rightarrow> (nat \<times> WebsocketSignal) outcome" where
  "client_Ping ws = WriteTo ws (zero_signal\<lparr>ws_SType := Ping\<rparr>)"

text \<open>\<open>Remove\<close> and \<open>Close\<close>: the connection is closed, the slot of the socket emptied.\<close>

definition client_Remove :: "wsClient \<Rightarrow> wsClient option list \<Rightarrow> wsClient option list" where
  "client_Remove ws socks = socks[wc_ID ws := None]"

definition client_Close :: "wsClient \<Rightarrow> wsClient option list \<Rightarrow> wsClient option list" where
  "client_Close ws socks = client_Remove ws socks"

fun filterSelf :: "string list \<Rightarrow> string \<Rightarrow> string list" where
  "filterSelf [] self = []"
| "filterSelf (v # hosts) self = (if v = self then hosts else v # filterSelf hosts self)"

text \<open>
  \<open>itterateWebsockets\<close> with an action that writes: what was written, in order, and the panic that ended
  it. An error of a write is ignored by all callers.
\<close>

fun itterateWebsockets ::
  "(wsClient \<Rightarrow> (nat \<times> WebsocketSignal) outcome) \<Rightarrow> wsClient option list \<Rightarrow>
   (nat \<times> WebsocketSignal) list \<times> string option" where
  "itterateWebsockets action [] = ([], None)"
| "itterateWebsockets action (None # socks) = itterateWebsockets action socks"
| "itterateWebsockets action (Some ws # socks) =
     (case action ws of
        Return m \<Rightarrow> (let (ms, p) = itterateWebsockets action socks in (m # ms, p))
      | Error _ \<Rightarrow> itterateWebsockets action socks
      | Panic p \<Rightarrow> ([], Some p))"

type_synonym sender = "Config \<Rightarrow> wsClient option list \<Rightarrow> (nat \<times> WebsocketSignal) list \<times> string option"

definition Listen :: sender where
  "Listen c = itterateWebsockets (\<lambda>ws. WriteTo ws (NewSignal ListenTest c))"

definition Stop :: sender where
  "Stop c = itterateWebsockets (\<lambda>ws. WriteTo ws (NewSignal StopAllTests c))"

text \<open>Every host gets the hosts of the command without one occurrence of itself.\<close>

definition RunTest_send :: sender where
  "RunTest_send c = itterateWebsockets (\<lambda>ws.
     WriteTo ws (NewSignal RunTest (c\<lparr>c_Hosts := filterSelf (c_Hosts c) (wc_Host ws)\<rparr>)))"

definition ListTests_send :: sender where
  "ListTests_send c = itterateWebsockets (\<lambda>ws. WriteTo ws (NewSignal ListTests c))"

definition DeleteTests_send :: sender where
  "DeleteTests_send c = itterateWebsockets (\<lambda>ws. WriteTo ws (NewSignal DeleteTests c))"

definition DownloadTest_send :: sender where
  "DownloadTest_send c = itterateWebsockets (\<lambda>ws. WriteTo ws (NewSignal GetTest c))"

section \<open>keepAliveLoop\<close>

text \<open>
  What one round of the loop observes: the error of the context at the head of the loop, after the sleep
  and at the end, the time since the start after the sleep, whether the ticker function asks to stop, and
  the number of hosts doing work.
\<close>

record observation =
  ob_ctx_head :: "string option"
  ob_elapsed :: int
  ob_ctx_after :: "string option"
  ob_exit :: bool
  ob_work :: int
  ob_ctx_end :: "string option"

definition too_long :: "Config \<Rightarrow> int \<Rightarrow> bool" where
  "too_long c ns \<longleftrightarrow> fless (fadd (float_of_int (c_Duration c)) (float_of_int 20)) (Seconds ns)"

text \<open>
  The loop over the rounds it observes. The result is the error it returns, \<open>Some None\<close> for no error;
  \<open>None\<close> is a loop that is still running after these rounds.
\<close>

fun keepAliveLoop :: "Config \<Rightarrow> observation list \<Rightarrow> string option option" where
  "keepAliveLoop c [] = None"
| "keepAliveLoop c (ob # obs) =
     (if ob_ctx_head ob \<noteq> None then Some (ob_ctx_head ob)
      else if too_long c (ob_elapsed ob)
        then Some (Some ''Total duration reached 20 seconds past the configured duration'')
      else if ob_ctx_after ob \<noteq> None then Some (ob_ctx_after ob)
      else if ob_exit ob then Some (ob_ctx_end ob)
      else if ob_work ob \<le> 0 then Some (ob_ctx_end ob)
      else keepAliveLoop c obs)"

section \<open>Running totals\<close>

definition tick_init :: "DP \<Rightarrow> nat \<Rightarrow> TestOutput" where
  "tick_init d0 nerr =
     zero_output\<lparr>to_ErrCount := int nerr, to_TXL := 9223372036854775807, to_RMSL := max_i64, to_TTFBL := max_i64,
       to_ML := dp_MemoryUsedPercent d0, to_CL := dp_CPUUsedPercent d0\<rparr>"

definition tick_add :: "TestOutput \<Rightarrow> DP \<Rightarrow> TestOutput" where
  "tick_add t0 d =
     (let t1 = t0\<lparr>to_TXC := to_TXC t0 + dp_TXCount d\<rparr>;
          t2 = t1\<lparr>to_TXT := to_TXT t1 + dp_TXTotal d\<rparr>;
          t3 = (if to_DP t2 < dp_DroppedPackets d then t2\<lparr>to_DP := dp_DroppedPackets d\<rparr> else t2);
          t4 = (if unat (dp_TX d) < unat (to_TXL t3) then t3\<lparr>to_TXL := dp_TX d\<rparr> else t3);
          t5 = (if sint (dp_RMSL d) < sint (to_RMSL t4) then t4\<lparr>to_RMSL := dp_RMSL d\<rparr> else t4);
          t6 = (if sint (dp_TTFBL d) < sint (to_TTFBL t5) then t5\<lparr>to_TTFBL := dp_TTFBL d\<rparr> else t5);
          t7 = (if dp_MemoryUsedPercent d < to_ML t6 then t6\<lparr>to_ML := dp_MemoryUsedPercent d\<rparr> else t6);
          t8 = (if dp_CPUUsedPercent d < to_CL t7 then t7\<lparr>to_CL := dp_CPUUsedPercent d\<rparr> else t7);
          t9 = (if unat (to_TXH t8) < unat (dp_TX d) then t8\<lparr>to_TXH := dp_TX d\<rparr> else t8);
          t10 = (if sint (to_RMSH t9) < sint (dp_RMSH d) then t9\<lparr>to_RMSH := dp_RMSH d\<rparr> else t9);
          t11 = (if sint (to_TTFBH t10) < sint (dp_TTFBH d) then t10\<lparr>to_TTFBH := dp_TTFBH d\<rparr> else t10);
          t12 = (if to_MH t11 < dp_MemoryUsedPercent d then t11\<lparr>to_MH := dp_MemoryUsedPercent d\<rparr> else t11)
      in if to_CH t12 < dp_CPUUsedPercent d then t12\<lparr>to_CH := dp_CPUUsedPercent d\<rparr> else t12)"

definition tick_scale :: "Config \<Rightarrow> TestOutput \<Rightarrow> TestOutput" where
  "tick_scale c t =
     (if c_Micro c then t
      else t\<lparr>to_RMSL := go_div (to_RMSL t) 1000, to_RMSH := go_div (to_RMSH t) 1000,
             to_TTFBL := go_div (to_TTFBL t) 1000, to_TTFBH := go_div (to_TTFBH t) 1000\<rparr>)"

text \<open>
  The ticker function of \<open>RunTest\<close>: \<open>count\<close> is its \<open>printCount\<close>; it never asks the loop to stop. All
  errors collected so far are printed again each time.
\<close>

definition printOnTick :: "Config \<Rightarrow> nat \<times> collected \<Rightarrow> nat \<times> collected" where
  "printOnTick c st =
     (let (count, k) = st in
      case k_DPS k of
        [] \<Rightarrow> (count, k)
      | d0 # _ \<Rightarrow>
          (let count1 = count + 1;
               out = tick_scale c (foldl tick_add (tick_init d0 (length (k_ERR k))) (k_DPS k));
               sc1 = fold (\<lambda>e. PrintErrorString (te_Error e)) (k_ERR k) (k_screen k);
               sc2 = (if count1 mod 10 = 1 then printRealTimeHeaders (dp_Type d0) sc1 else sc1)
           in (count1, k\<lparr>k_screen := printRealTimeRow BaseStyle out (dp_Type d0) sc2\<rparr>)))"

section \<open>The table of tests\<close>

text \<open>
  \<open>keys\<close> is the order in which Go iterates over the map. The comparison is negative for two tests of
  the same time in both directions, and for a test with itself.
\<close>

definition cmp_tests :: "(string \<rightharpoonup> TestInfo) \<Rightarrow> string \<Rightarrow> string \<Rightarrow> int" where
  "cmp_tests m a b = (if ti_Time (the (m a)) < ti_Time (the (m b)) then 1 else - 1)"

definition test_row :: "(time \<Rightarrow> int) \<Rightarrow> (string \<rightharpoonup> TestInfo) \<Rightarrow> nat \<Rightarrow> string \<Rightarrow> screen \<Rightarrow> column list" where
  "test_row zone m i key sc =
     [\<lparr>col_value = Itoa (int i), col_width = width sc IntNumber\<rparr>, \<lparr>col_value = key, col_width = width sc ID\<rparr>,
      \<lparr>col_value = Format_list zone (ti_Time (the (m key))), col_width = width sc ID\<rparr>]"

fun print_tests :: "(time \<Rightarrow> int) \<Rightarrow> (string \<rightharpoonup> TestInfo) \<Rightarrow> nat \<Rightarrow> string list \<Rightarrow> screen \<Rightarrow> screen" where
  "print_tests zone m i [] sc = sc"
| "print_tests zone m i (key # keys) sc =
     print_tests zone m (Suc i) keys (PrintColumns NewStyle (test_row zone m i key sc) sc)"

definition ListTests_print ::
  "((string \<Rightarrow> string \<Rightarrow> int) \<Rightarrow> string list \<Rightarrow> string list) \<Rightarrow> (time \<Rightarrow> int) \<Rightarrow> string list \<Rightarrow>
   (string \<rightharpoonup> TestInfo) \<Rightarrow> screen \<Rightarrow> screen" where
  "ListTests_print srt zone keys m sc =
     print_tests zone m 0 (srt (cmp_tests m) keys) (printHeader ListHeaders sc)"

section \<open>What a command sends\<close>

lemma filterSelf_remove1: "filterSelf hosts self = remove1 self hosts"
  by (induction hosts) auto

text \<open>Sockets that are all connected.\<close>

definition connected :: "(nat \<Rightarrow> nat) \<Rightarrow> string list \<Rightarrow> wsClient option list" where
  "connected con hosts = map (\<lambda>i. Some \<lparr>wc_ID = i, wc_Host = hosts ! i, wc_Con = Some (con i)\<rparr>) [0 ..< length hosts]"

lemma itterate_connected:
  "itterateWebsockets (\<lambda>ws. WriteTo ws (f ws)) (map (\<lambda>i. Some \<lparr>wc_ID = i, wc_Host = h i, wc_Con = Some (con i)\<rparr>) is)
    = (map (\<lambda>i. (con i, f \<lparr>wc_ID = i, wc_Host = h i, wc_Con = Some (con i)\<rparr>)) is, None)"
  by (induction "is") (simp_all add: WriteTo_def)

text \<open>
  C24: \<open>RunTest\<close> on distinct hosts with all sockets connected starts exactly the tests between different
  hosts: every host gets one signal, in the order of the hosts, whose hosts are all the others and not
  itself, in their order, and whose other settings are those of the command.
\<close>

theorem run_pairs_all_hosts:
  assumes "distinct (c_Hosts c)"
  shows "RunTest_send c (connected con (c_Hosts c)) =
      (map (\<lambda>i. (con i, NewSignal RunTest (c\<lparr>c_Hosts := remove1 (c_Hosts c ! i) (c_Hosts c)\<rparr>))) [0 ..< length (c_Hosts c)], None)
    \<and> (\<Union>i < length (c_Hosts c). {c_Hosts c ! i} \<times> set (remove1 (c_Hosts c ! i) (c_Hosts c)))
      = {(a, b). a \<in> set (c_Hosts c) \<and> b \<in> set (c_Hosts c) \<and> a \<noteq> b}"
proof
  show "RunTest_send c (connected con (c_Hosts c)) =
      (map (\<lambda>i. (con i, NewSignal RunTest (c\<lparr>c_Hosts := remove1 (c_Hosts c ! i) (c_Hosts c)\<rparr>))) [0 ..< length (c_Hosts c)], None)"
    unfolding RunTest_send_def connected_def itterate_connected by (simp add: filterSelf_remove1)
  show "(\<Union>i < length (c_Hosts c). {c_Hosts c ! i} \<times> set (remove1 (c_Hosts c ! i) (c_Hosts c)))
      = {(a, b). a \<in> set (c_Hosts c) \<and> b \<in> set (c_Hosts c) \<and> a \<noteq> b}"
  proof -
    have "(a, b) \<in> (\<Union>i < length (c_Hosts c). {c_Hosts c ! i} \<times> set (remove1 (c_Hosts c ! i) (c_Hosts c)))
        \<longleftrightarrow> (\<exists>i < length (c_Hosts c). c_Hosts c ! i = a) \<and> b \<in> set (c_Hosts c) \<and> a \<noteq> b" for a b
      using assms by auto
    then have "(a, b) \<in> (\<Union>i < length (c_Hosts c). {c_Hosts c ! i} \<times> set (remove1 (c_Hosts c ! i) (c_Hosts c)))
        \<longleftrightarrow> a \<in> set (c_Hosts c) \<and> b \<in> set (c_Hosts c) \<and> a \<noteq> b" for a b
      by (simp only: in_set_conv_nth [of a])
    then show ?thesis by (intro set_eqI) (simp only: split_paired_all mem_Collect_eq case_prod_conv)
  qed
qed

section \<open>The loop ends\<close>

lemma too_long_exact:
  assumes "0 \<le> c_Duration c" and "c_Duration c \<le> 999980" and "0 \<le> ns" and "ns < 2 ^ 63"
  shows "too_long c ns \<longleftrightarrow> (c_Duration c + 20) * 1000000000 < ns"
proof -
  have f: "float_of_int n = Fin (of_int n)" if "0 \<le> n" "n \<le> 1000000" for n
    using float_of_int_nat [of "nat n"] that by (simp add: nat_less_iff)
  have "fadd (float_of_int (c_Duration c)) (float_of_int 20) = round64 (of_int (c_Duration c + 20))"
    using assms(1,2) f [of "c_Duration c"] f [of 20] by simp
  then have "fadd (float_of_int (c_Duration c)) (float_of_int 20) = float_of_int (c_Duration c + 20)"
    by (simp only: float_of_int_def)
  then show ?thesis using Seconds_exceeds [OF assms(3,4), of "c_Duration c + 20"] assms(1,2) by (simp add: too_long_def)
qed

text \<open>A round that lets the loop go on.\<close>

definition undisturbed :: "observation \<Rightarrow> bool" where
  "undisturbed ob \<longleftrightarrow> ob_ctx_head ob = None \<and> ob_ctx_after ob = None \<and> \<not> ob_exit ob \<and> 0 < ob_work ob"

lemma keepAliveLoop_first:
  "keepAliveLoop c obs =
    (case dropWhile (\<lambda>ob. undisturbed ob \<and> \<not> too_long c (ob_elapsed ob)) obs of [] \<Rightarrow> None | ob # _ \<Rightarrow> keepAliveLoop c [ob])"
  by (induction obs) (auto simp: undisturbed_def)

lemma keepAliveLoop_one:
  "\<not> (undisturbed ob \<and> \<not> too_long c (ob_elapsed ob)) \<Longrightarrow> keepAliveLoop c (ob # obs) \<noteq> None"
  by (auto simp: undisturbed_def)

text \<open>A round that is too late ends the loop, and a round before it only when it is disturbed.\<close>

lemma keepAliveLoop_ends:
  assumes "ob \<in> set obs" and "too_long c (ob_elapsed ob)"
  shows "keepAliveLoop c obs \<noteq> None"
    and "list_all undisturbed obs \<Longrightarrow>
      keepAliveLoop c obs = Some (Some ''Total duration reached 20 seconds past the configured duration'')"
proof -
  let ?go = "\<lambda>ob. undisturbed ob \<and> \<not> too_long c (ob_elapsed ob)"
  obtain o1 os where d: "dropWhile ?go obs = o1 # os" "\<not> ?go o1"
    using assms by (cases "dropWhile ?go obs") (auto simp: dropWhile_eq_Nil_conv dropWhile_eq_Cons_conv)
  have eq: "keepAliveLoop c obs = keepAliveLoop c [o1]" by (subst keepAliveLoop_first) (simp only: d list.case)
  show "keepAliveLoop c obs \<noteq> None" unfolding eq by (rule keepAliveLoop_one [OF d(2)])
  assume "list_all undisturbed obs"
  then have "undisturbed o1" using d(1) set_dropWhileD [of o1 ?go obs] by (auto simp: list_all_iff)
  then show "keepAliveLoop c obs = Some (Some ''Total duration reached 20 seconds past the configured duration'')"
    using d(2) unfolding eq by (simp add: undisturbed_def)
qed

lemma late_round:
  assumes "0 \<le> c_Duration c" and "c_Duration c \<le> 999980" and "nat (c_Duration c) + 21 \<le> length obs"
    and "\<forall>i < length obs. (int i + 1) * 1000000000 \<le> ob_elapsed (obs ! i) \<and> ob_elapsed (obs ! i) < 2 ^ 63"
  shows "obs ! (nat (c_Duration c) + 20) \<in> set (take (nat (c_Duration c) + 21) obs)"
    and "too_long c (ob_elapsed (obs ! (nat (c_Duration c) + 20)))"
proof -
  let ?n = "nat (c_Duration c) + 20"
  have n: "?n < length obs" "int ?n = c_Duration c + 20" using assms(1,3) by simp_all
  then show "obs ! ?n \<in> set (take (nat (c_Duration c) + 21) obs)" by (auto simp: in_set_conv_nth intro!: exI [of _ ?n])
  have "(int ?n + 1) * 1000000000 \<le> ob_elapsed (obs ! ?n)" "ob_elapsed (obs ! ?n) < 2 ^ 63"
    using assms(4) n(1) by blast+
  then show "too_long c (ob_elapsed (obs ! ?n))"
    using too_long_exact [OF assms(1,2), of "ob_elapsed (obs ! ?n)"] n(2) assms(1) by simp
qed

text \<open>
  C23: No command waits for ever. Since every round sleeps for a second, the loop returns within
  \<open>Duration + 21\<close> rounds whatever it observes; when nothing disturbs it, it then returns an error. A
  listener, whose duration is set to 0, is therefore cut off 20 seconds after it has started, however
  long the tests that it listens to still run.
\<close>

theorem keepAliveLoop_returns:
  assumes "0 \<le> c_Duration c" and "c_Duration c \<le> 999980" and "nat (c_Duration c) + 21 \<le> length obs"
    and "\<forall>i < length obs. (int i + 1) * 1000000000 \<le> ob_elapsed (obs ! i) \<and> ob_elapsed (obs ! i) < 2 ^ 63"
  shows "(\<exists>r. keepAliveLoop c (take (nat (c_Duration c) + 21) obs) = Some r)
    \<and> (list_all undisturbed obs \<longrightarrow> keepAliveLoop c obs = Some (Some ''Total duration reached 20 seconds past the configured duration''))"
proof -
  note late = late_round [OF assms]
  then show ?thesis
    using keepAliveLoop_ends [OF late] keepAliveLoop_ends(2) [OF in_set_takeD [OF late(1)] late(2)] by auto
qed

section \<open>Running totals, in closed form\<close>

lemma if_update:
  "(if b then t\<lparr>to_DP := i\<rparr> else t) = t\<lparr>to_DP := if b then i else to_DP t\<rparr>"
  "(if b then t\<lparr>to_TXL := u\<rparr> else t) = t\<lparr>to_TXL := if b then u else to_TXL t\<rparr>"
  "(if b then t\<lparr>to_TXH := u\<rparr> else t) = t\<lparr>to_TXH := if b then u else to_TXH t\<rparr>"
  "(if b then t\<lparr>to_RMSL := v\<rparr> else t) = t\<lparr>to_RMSL := if b then v else to_RMSL t\<rparr>"
  "(if b then t\<lparr>to_RMSH := v\<rparr> else t) = t\<lparr>to_RMSH := if b then v else to_RMSH t\<rparr>"
  "(if b then t\<lparr>to_TTFBL := v\<rparr> else t) = t\<lparr>to_TTFBL := if b then v else to_TTFBL t\<rparr>"
  "(if b then t\<lparr>to_TTFBH := v\<rparr> else t) = t\<lparr>to_TTFBH := if b then v else to_TTFBH t\<rparr>"
  "(if b then t\<lparr>to_ML := i\<rparr> else t) = t\<lparr>to_ML := if b then i else to_ML t\<rparr>"
  "(if b then t\<lparr>to_MH := i\<rparr> else t) = t\<lparr>to_MH := if b then i else to_MH t\<rparr>"
  "(if b then t\<lparr>to_CL := i\<rparr> else t) = t\<lparr>to_CL := if b then i else to_CL t\<rparr>"
  "(if b then t\<lparr>to_CH := i\<rparr> else t) = t\<lparr>to_CH := if b then i else to_CH t\<rparr>"
  by simp_all

definition umin :: "u64 \<Rightarrow> u64 \<Rightarrow> u64" where
  "umin a b = (if unat b < unat a then b else a)"

definition umax :: "u64 \<Rightarrow> u64 \<Rightarrow> u64" where
  "umax a b = (if unat a < unat b then b else a)"

lemma min_int: "min a b = (if b < a then b else a)" and max_int: "max a b = (if a < b then b else a)" for a b :: int
  by simp_all

lemma let_step: "a = b \<Longrightarrow> f b = r \<Longrightarrow> Let a f = r"
  by simp

lemma tick_add_record:
  "tick_add t d =
     \<lparr>to_ErrCount = to_ErrCount t, to_TXC = to_TXC t + dp_TXCount d, to_TXL = umin (to_TXL t) (dp_TX d),
      to_TXH = umax (to_TXH t) (dp_TX d), to_TXT = to_TXT t + dp_TXTotal d,
      to_RMSL = imin (to_RMSL t) (dp_RMSL d), to_RMSH = imax (to_RMSH t) (dp_RMSH d),
      to_TTFBL = imin (to_TTFBL t) (dp_TTFBL d), to_TTFBH = imax (to_TTFBH t) (dp_TTFBH d),
      to_DP = max (to_DP t) (dp_DroppedPackets d), to_ML = min (to_ML t) (dp_MemoryUsedPercent d),
      to_MH = max (to_MH t) (dp_MemoryUsedPercent d), to_CL = min (to_CL t) (dp_CPUUsedPercent d),
      to_CH = max (to_CH t) (dp_CPUUsedPercent d)\<rparr>"
  unfolding tick_add_def if_update
  by (cases t, (rule let_step, simp only: TestOutput.simps)+)
    (simp only: TestOutput.simps umin_def umax_def imin_def imax_def min_int max_int simp_thms)

lemma foldl_tick:
  "foldl tick_add t ds =
     \<lparr>to_ErrCount = to_ErrCount t, to_TXC = to_TXC t + sum_list (map dp_TXCount ds),
      to_TXL = fold (\<lambda>v m. umin m v) (map dp_TX ds) (to_TXL t), to_TXH = fold (\<lambda>v m. umax m v) (map dp_TX ds) (to_TXH t),
      to_TXT = to_TXT t + sum_list (map dp_TXTotal ds),
      to_RMSL = fold (\<lambda>v m. imin m v) (map dp_RMSL ds) (to_RMSL t),
      to_RMSH = fold (\<lambda>v m. imax m v) (map dp_RMSH ds) (to_RMSH t),
      to_TTFBL = fold (\<lambda>v m. imin m v) (map dp_TTFBL ds) (to_TTFBL t),
      to_TTFBH = fold (\<lambda>v m. imax m v) (map dp_TTFBH ds) (to_TTFBH t),
      to_DP = fold (\<lambda>v m. max m v) (map dp_DroppedPackets ds) (to_DP t),
      to_ML = fold (\<lambda>v m. min m v) (map dp_MemoryUsedPercent ds) (to_ML t),
      to_MH = fold (\<lambda>v m. max m v) (map dp_MemoryUsedPercent ds) (to_MH t),
      to_CL = fold (\<lambda>v m. min m v) (map dp_CPUUsedPercent ds) (to_CL t),
      to_CH = fold (\<lambda>v m. max m v) (map dp_CPUUsedPercent ds) (to_CH t)\<rparr>"
  by (induction ds arbitrary: t) (simp_all add: tick_add_record add.assoc)

lemma fold_min_Min: "fold (\<lambda>v m. min m v) xs a = Min (insert a (set xs))" for a :: int
proof (induction xs arbitrary: a)
  case (Cons x xs)
  have "fold (\<lambda>v m. min m v) (x # xs) a = Min (insert (min a x) (set xs))" using Cons.IH [of "min a x"] by simp
  also have "\<dots> = Min (insert a (set (x # xs)))"
    by (cases "xs = []") (simp_all add: insert_commute min.commute min.left_commute)
  finally show ?case .
qed simp

lemma fold_max_Max: "fold (\<lambda>v m. max m v) xs a = Max (insert a (set xs))" for a :: int
proof (induction xs arbitrary: a)
  case (Cons x xs)
  have "fold (\<lambda>v m. max m v) (x # xs) a = Max (insert (max a x) (set xs))" using Cons.IH [of "max a x"] by simp
  also have "\<dots> = Max (insert a (set (x # xs)))"
    by (cases "xs = []") (simp_all add: insert_commute max.commute max.left_commute)
  finally show ?case .
qed simp

lemma u64_eqI: "unat a = unat b \<Longrightarrow> a = (b :: u64)"
  by (rule unsigned_word_eqI)

lemma unat_fold_umin: "unat (fold (\<lambda>v m. umin m v) xs a) = Min (insert (unat a) (unat ` set xs))"
proof (induction xs arbitrary: a)
  case (Cons x xs)
  have "unat (umin a x) = min (unat a) (unat x)" by (simp add: umin_def min_def)
  then show ?case by (cases "xs = []") (simp_all add: Cons.IH insert_commute min.commute min.left_commute)
qed simp

lemma unat_fold_umax: "unat (fold (\<lambda>v m. umax m v) xs a) = Max (insert (unat a) (unat ` set xs))"
proof (induction xs arbitrary: a)
  case (Cons x xs)
  have "unat (umax a x) = max (unat a) (unat x)" by (simp add: umax_def max_def)
  then show ?case by (cases "xs = []") (simp_all add: Cons.IH insert_commute max.commute max.left_commute)
qed simp

text \<open>A bound over a list depends on its elements only.\<close>

lemma fold_int_bounds:
  assumes "set xs = set ys"
  shows "fold (\<lambda>v m. imin m v) xs a = fold (\<lambda>v m. imin m v) ys a"
    and "fold (\<lambda>v m. imax m v) xs a = fold (\<lambda>v m. imax m v) ys a"
  by (rule i64_eqI, simp only: sint_fold_imin sint_fold_imax assms)+

lemma fold_nat_bounds:
  assumes "set xs = set ys"
  shows "fold (\<lambda>v m. umin m v) xs a = fold (\<lambda>v m. umin m v) ys a"
    and "fold (\<lambda>v m. umax m v) xs a = fold (\<lambda>v m. umax m v) ys a"
  by (rule u64_eqI, simp only: unat_fold_umin unat_fold_umax assms)+


section \<open>Witnesses\<close>

theorem run_pairs_all_hosts_witness:
  "RunTest_send (zero_config\<lparr>c_Hosts := [''a'', ''b'']\<rparr>) (connected id [''a'', ''b'']) =
    ([(0, NewSignal RunTest (zero_config\<lparr>c_Hosts := [''b'']\<rparr>)), (1, NewSignal RunTest (zero_config\<lparr>c_Hosts := [''a'']\<rparr>))], None)"
proof -
  have "distinct (c_Hosts (zero_config\<lparr>c_Hosts := [''a'', ''b'']\<rparr>))" by simp
  from run_pairs_all_hosts [OF this, of id] show ?thesis by (simp add: upt_rec)
qed

definition busy_round :: "nat \<Rightarrow> observation" where
  "busy_round i = \<lparr>ob_ctx_head = None, ob_elapsed = (int i + 1) * 1000000000, ob_ctx_after = None, ob_exit = False,
     ob_work = 1, ob_ctx_end = None\<rparr>"

text \<open>A listener to a test that runs on.\<close>

theorem keepAliveLoop_returns_witness:
  "keepAliveLoop zero_config (map busy_round [0 ..< 30]) =
    Some (Some ''Total duration reached 20 seconds past the configured duration'')"
proof -
  let ?obs = "map busy_round [0 ..< 30]"
  have d: "c_Duration zero_config = 0" by (simp add: zero_config_def)
  have "\<forall>i < length ?obs. (int i + 1) * 1000000000 \<le> ob_elapsed (?obs ! i) \<and> ob_elapsed (?obs ! i) < 2 ^ 63"
    by (auto simp: busy_round_def)
  moreover have "list_all undisturbed ?obs" by (auto simp: list_all_iff busy_round_def undisturbed_def)
  ultimately show ?thesis using keepAliveLoop_returns [of zero_config ?obs] by (simp add: d del: upt_Suc)
qed


end
