(* ===== verification/ClientConn.thy ===== *)
theory ClientConn
  imports ClientRun
begin

text \<open>
  How a command of the client connects to its hosts and receives from them: \<open>initializeClient\<close>,
  \<open>handleWSConnection\<close> and the frame that all commands of \<open>client/client.go\<close> share, as a step relation.
  There is one goroutine per host, which restarts itself after an error when it is told to, the
  goroutines that handle single signals, and the main goroutine, which counts the hosts through the
  channel \<open>done\<close>, sends the signal of the command and keeps alive until no host does work.
  The network is the choice of the steps. The handshake timeout is part of a failed dial.
\<close>

section \<open>State\<close>

text \<open>
  Where a goroutine of \<open>handleWSConnection\<close> is: before its socket exists, dialing, waiting for the first
  message, announcing itself on \<open>done\<close>, reading signals, in its deferred function with or without an
  error, asleep before a restart, or ended.
\<close>

datatype conn_pc =
    Starting | Dialing | Greeting | Announcing | Reading | Leaving bool | Restarting | Gone

text \<open>A signal whose handler was started as a goroutine of its own.\<close>

datatype task = CollectTask "DataReponseToClient option" | ListTask "TestInfo list" | DataTask bytes | ErrTask string

datatype main_pc = Connecting | Connected | Working | Finished "string option"

text \<open>
  \<open>cl_done\<close> is the number of messages in the channel, \<open>cl_count\<close> is \<open>doneCount\<close>, \<open>cl_work\<close> is
  \<open>hostsDoingWork\<close>, \<open>cl_cancelled\<close> the context of the connections. No step reads \<open>cl_announced\<close>, how often
  each host has announced itself, and \<open>cl_received\<close>, the signals that were read.
\<close>

record client =
  cl_socks :: "wsClient option list"
  cl_pcs :: "conn_pc list"
  cl_done :: nat
  cl_count :: nat
  cl_work :: int
  cl_main :: main_pc
  cl_cancelled :: bool
  cl_data :: collected
  cl_tests :: "string \<rightharpoonup> TestInfo"
  cl_tasks :: "task list"
  cl_sent :: "(nat \<times> WebsocketSignal) list"
  cl_panic :: "string option"
  cl_announced :: "nat list"
  cl_received :: "WebsocketSignal list"

definition init_client :: "Config \<Rightarrow> client" where
  "init_client c =
     (let n = length (c_Hosts c) in
      \<lparr>cl_socks = replicate n None, cl_pcs = replicate n Starting, cl_done = 0, cl_count = 0, cl_work = 0,
       cl_main = Connecting, cl_cancelled = False, cl_data = no_data, cl_tests = Map.empty, cl_tasks = [],
       cl_sent = [], cl_panic = None, cl_announced = replicate n 0, cl_received = []\<rparr>)"

section \<open>One connection\<close>

definition set_pc :: "nat \<Rightarrow> conn_pc \<Rightarrow> client \<Rightarrow> client" where
  "set_pc k pc s = s\<lparr>cl_pcs := (cl_pcs s)[k := pc]\<rparr>"

definition report :: "string \<Rightarrow> client \<Rightarrow> client" where
  "report e s = s\<lparr>cl_data := on_screen (PrintError (Some e)) (cl_data s)\<rparr>"

definition open_socket :: "Config \<Rightarrow> nat \<Rightarrow> client \<Rightarrow> client" where
  "open_socket c k s =
     (let w = (case cl_socks s ! k of
                 None \<Rightarrow> \<lparr>wc_ID = k, wc_Host = [], wc_Con = None\<rparr>
               | Some w \<Rightarrow> w)
      in set_pc k Dialing (s\<lparr>cl_socks := (cl_socks s)[k := Some (w\<lparr>wc_Host := c_Hosts c ! k\<rparr>)]\<rparr>))"

definition dialed :: "nat \<Rightarrow> nat \<Rightarrow> client \<Rightarrow> client" where
  "dialed k con s =
     set_pc k Greeting
       (s\<lparr>cl_socks := (cl_socks s)[k := map_option (\<lambda>w. w\<lparr>wc_Con := Some con\<rparr>) (cl_socks s ! k)]\<rparr>)"

text \<open>The first message of a server: its code must be \<open>OK\<close>.\<close>

definition greeted :: "nat \<Rightarrow> string + WebsocketSignal \<Rightarrow> client \<Rightarrow> client" where
  "greeted k msg s =
     (case msg of
        Inl e \<Rightarrow> set_pc k (Leaving True) (report (''Unable to read message from server on first connect '' @ e) s)
      | Inr m \<Rightarrow>
          if ws_Code m \<noteq> OK
          then set_pc k (Leaving True) (report (''Received '' @ Itoa (ws_Code m) @ '' from server on connect'') s)
          else set_pc k Announcing s)"

definition announce :: "nat \<Rightarrow> client \<Rightarrow> client" where
  "announce k s =
     set_pc k Reading (s\<lparr>cl_done := cl_done s + 1, cl_announced := (cl_announced s)[k := cl_announced s ! k + 1]\<rparr>)"

text \<open>One signal read in the loop. Signals of other types are ignored.\<close>

definition task_of :: "WebsocketSignal \<Rightarrow> task list" where
  "task_of m =
     (case ws_SType m of
        Stats \<Rightarrow> [CollectTask (ws_DataPoint m)]
      | ListTests \<Rightarrow> [ListTask (ws_TestList m)]
      | GetTest \<Rightarrow> [DataTask (ws_Data m)]
      | Err \<Rightarrow> [ErrTask (ws_Error m)]
      | _ \<Rightarrow> [])"

definition read_signal :: "nat \<Rightarrow> string + WebsocketSignal \<Rightarrow> client \<Rightarrow> client" where
  "read_signal k msg s =
     (case msg of
        Inl e \<Rightarrow> set_pc k (Leaving True) (report e s)
      | Inr m \<Rightarrow>
          (let s1 = s\<lparr>cl_tasks := cl_tasks s @ task_of m, cl_received := cl_received s @ [m]\<rparr>
           in if ws_SType m = Done then set_pc k (Leaving False) s1 else s1))"

text \<open>The deferred function.\<close>

definition leave :: "Config \<Rightarrow> nat \<Rightarrow> bool \<Rightarrow> client \<Rightarrow> client" where
  "leave c k failed s =
     (if cl_cancelled s then set_pc k Gone (s\<lparr>cl_work := cl_work s - 1\<rparr>)
      else if c_RestartOnError c \<and> failed then set_pc k Restarting s
      else set_pc k Gone (s\<lparr>cl_work := cl_work s - 1\<rparr>))"

section \<open>Handlers of signals\<close>

definition run_task :: "unjson \<Rightarrow> task \<Rightarrow> client \<Rightarrow> client" where
  "run_task uj t s =
     (case t of
        CollectTask r \<Rightarrow> s\<lparr>cl_data := collectDataPointv2 r (cl_data s)\<rparr>
      | ListTask l \<Rightarrow> s\<lparr>cl_tests := parseTestList l (cl_tests s)\<rparr>
      | DataTask b \<Rightarrow>
          (case receiveJSONDataPoint uj b (cl_data s) of
             Return k \<Rightarrow> s\<lparr>cl_data := k\<rparr>
           | Error _ \<Rightarrow> s
           | Panic p \<Rightarrow> s\<lparr>cl_panic := Some p\<rparr>)
      | ErrTask e \<Rightarrow> s\<lparr>cl_data := on_screen (PrintErrorString e) (cl_data s)\<rparr>)"

section \<open>The main goroutine\<close>

text \<open>\<open>initializeClient\<close>: one message taken from \<open>done\<close>.\<close>

definition take_done :: "Config \<Rightarrow> client \<Rightarrow> client" where
  "take_done c s =
     (let s1 = s\<lparr>cl_done := cl_done s - 1, cl_count := cl_count s + 1, cl_work := cl_work s + 1\<rparr>
      in if cl_count s1 = length (c_Hosts c) then s1\<lparr>cl_main := Connected\<rparr> else s1)"

definition send_command :: "sender \<Rightarrow> Config \<Rightarrow> client \<Rightarrow> client" where
  "send_command cmd c s =
     (case cmd c (cl_socks s) of
        (ms, None) \<Rightarrow> s\<lparr>cl_main := Working, cl_sent := cl_sent s @ ms\<rparr>
      | (ms, Some p) \<Rightarrow> s\<lparr>cl_sent := cl_sent s @ ms, cl_panic := Some p\<rparr>)"

text \<open>The command returns; its deferred \<open>cancel\<close> ends the context of the connections.\<close>

definition finish :: "string option \<Rightarrow> client \<Rightarrow> client" where
  "finish r s = s\<lparr>cl_main := Finished r, cl_cancelled := True\<rparr>"

section \<open>Steps\<close>

inductive cstep :: "sender \<Rightarrow> unjson \<Rightarrow> Config \<Rightarrow> client \<Rightarrow> client \<Rightarrow> bool" for cmd uj c where
  start: "cl_panic s = None \<Longrightarrow> k < length (cl_pcs s) \<Longrightarrow> cl_pcs s ! k = Starting \<Longrightarrow>
    cstep cmd uj c s (open_socket c k s)"
| dial_fails: "cl_panic s = None \<Longrightarrow> k < length (cl_pcs s) \<Longrightarrow> cl_pcs s ! k = Dialing \<Longrightarrow>
    cstep cmd uj c s (set_pc k (Leaving True) (report e s))"
| dial: "cl_panic s = None \<Longrightarrow> k < length (cl_pcs s) \<Longrightarrow> cl_pcs s ! k = Dialing \<Longrightarrow>
    cstep cmd uj c s (dialed k con s)"
| greet: "cl_panic s = None \<Longrightarrow> k < length (cl_pcs s) \<Longrightarrow> cl_pcs s ! k = Greeting \<Longrightarrow>
    cstep cmd uj c s (greeted k msg s)"
| announce: "cl_panic s = None \<Longrightarrow> k < length (cl_pcs s) \<Longrightarrow> cl_pcs s ! k = Announcing \<Longrightarrow>
    cl_done s < length (c_Hosts c) \<Longrightarrow> cstep cmd uj c s (announce k s)"
| read: "cl_panic s = None \<Longrightarrow> k < length (cl_pcs s) \<Longrightarrow> cl_pcs s ! k = Reading \<Longrightarrow>
    cstep cmd uj c s (read_signal k msg s)"
| leave: "cl_panic s = None \<Longrightarrow> k < length (cl_pcs s) \<Longrightarrow> cl_pcs s ! k = Leaving failed \<Longrightarrow>
    cstep cmd uj c s (leave c k failed s)"
| restart: "cl_panic s = None \<Longrightarrow> k < length (cl_pcs s) \<Longrightarrow> cl_pcs s ! k = Restarting \<Longrightarrow>
    cstep cmd uj c s (set_pc k Starting s)"
| task: "cl_panic s = None \<Longrightarrow> cl_tasks s = ts @ t # us \<Longrightarrow>
    cstep cmd uj c s (run_task uj t (s\<lparr>cl_tasks := ts @ us\<rparr>))"
| take: "cl_panic s = None \<Longrightarrow> cl_main s = Connecting \<Longrightarrow> 0 < cl_done s \<Longrightarrow>
    cstep cmd uj c s (take_done c s)"
| connect_timeout: "cl_panic s = None \<Longrightarrow> cl_main s = Connecting \<Longrightarrow>
    cstep cmd uj c s (finish (Some ''Timeout when connecting to hosts'') s)"
| connect_cancelled: "cl_panic s = None \<Longrightarrow> cl_main s = Connecting \<Longrightarrow> cl_cancelled s \<Longrightarrow>
    cstep cmd uj c s (finish (Some ''Context canceled'') s)"
| send: "cl_panic s = None \<Longrightarrow> cl_main s = Connected \<Longrightarrow> cstep cmd uj c s (send_command cmd c s)"
| no_work: "cl_panic s = None \<Longrightarrow> cl_main s = Working \<Longrightarrow> cl_work s \<le> 0 \<Longrightarrow>
    cstep cmd uj c s (finish (if cl_cancelled s then Some ''context canceled'' else None) s)"
| work_cancelled: "cl_panic s = None \<Longrightarrow> cl_main s = Working \<Longrightarrow> cl_cancelled s \<Longrightarrow>
    cstep cmd uj c s (finish (Some ''context canceled'') s)"
| work_timeout: "cl_panic s = None \<Longrightarrow> cl_main s = Working \<Longrightarrow>
    cstep cmd uj c s (finish (Some ''Total duration reached 20 seconds past the configured duration'') s)"
| cancel: "cl_panic s = None \<Longrightarrow> cstep cmd uj c s (s\<lparr>cl_cancelled := True\<rparr>)"

inductive_cases cstepE: "cstep cmd uj c s s'"

section \<open>The invariant\<close>

text \<open>What holds of the socket, the program counter and the announcements of one host.\<close>

definition host_ok :: "Config \<Rightarrow> nat \<Rightarrow> wsClient option \<Rightarrow> conn_pc \<Rightarrow> nat \<Rightarrow> bool" where
  "host_ok c k so pc a \<longleftrightarrow>
     (case so of
        None \<Rightarrow> pc = Starting \<and> a = 0
      | Some w \<Rightarrow> wc_ID w = k \<and> wc_Host w = c_Hosts c ! k
          \<and> (pc \<in> {Greeting, Announcing, Reading} \<or> 0 < a \<longrightarrow> wc_Con w \<noteq> None))
     \<and> (\<not> c_RestartOnError c \<longrightarrow>
          a \<le> 1 \<and> pc \<noteq> Restarting \<and> (pc \<in> {Starting, Dialing, Greeting, Announcing} \<longrightarrow> a = 0))"

definition gone :: "client \<Rightarrow> nat" where
  "gone s = count (mset (cl_pcs s)) Gone"

definition hosts_ok :: "Config \<Rightarrow> client \<Rightarrow> bool" where
  "hosts_ok c s \<longleftrightarrow>
     length (cl_socks s) = length (c_Hosts c) \<and> length (cl_pcs s) = length (c_Hosts c)
     \<and> length (cl_announced s) = length (c_Hosts c)
     \<and> (\<forall>k < length (c_Hosts c). host_ok c k (cl_socks s ! k) (cl_pcs s ! k) (cl_announced s ! k))"

definition counts_ok :: "Config \<Rightarrow> client \<Rightarrow> bool" where
  "counts_ok c s \<longleftrightarrow>
     cl_work s = int (cl_count s) - int (gone s) \<and> cl_done s \<le> length (c_Hosts c)
     \<and> cl_count s \<le> length (c_Hosts c) \<and> cl_count s + cl_done s = sum_list (cl_announced s)
     \<and> (cl_main s = Connecting \<longrightarrow> cl_count s < length (c_Hosts c) \<or> c_Hosts c = [])
     \<and> (cl_main s \<in> {Connected, Working} \<longrightarrow> cl_count s = length (c_Hosts c))"

lemma hosts_ok_frame:
  "cl_socks s' = cl_socks s \<Longrightarrow> cl_pcs s' = cl_pcs s \<Longrightarrow> cl_announced s' = cl_announced s \<Longrightarrow> hosts_ok c s' = hosts_ok c s"
  by (simp add: hosts_ok_def)

lemma counts_ok_frame:
  "cl_work s' = cl_work s \<Longrightarrow> cl_count s' = cl_count s \<Longrightarrow> cl_pcs s' = cl_pcs s \<Longrightarrow> cl_done s' = cl_done s
   \<Longrightarrow> cl_announced s' = cl_announced s \<Longrightarrow> cl_main s' = cl_main s \<Longrightarrow> counts_ok c s' = counts_ok c s"
  by (simp add: counts_ok_def gone_def)

lemma set_pc_simps [simp]:
  "cl_pcs (set_pc k pc s) = (cl_pcs s)[k := pc]" "cl_socks (set_pc k pc s) = cl_socks s"
  "cl_announced (set_pc k pc s) = cl_announced s" "cl_work (set_pc k pc s) = cl_work s"
  "cl_done (set_pc k pc s) = cl_done s" "cl_count (set_pc k pc s) = cl_count s" "cl_main (set_pc k pc s) = cl_main s"
  "cl_data (set_pc k pc s) = cl_data s" "cl_tasks (set_pc k pc s) = cl_tasks s" "cl_received (set_pc k pc s) = cl_received s"
  by (simp_all add: set_pc_def)

lemma report_simps [simp]:
  "cl_pcs (report e s) = cl_pcs s" "cl_socks (report e s) = cl_socks s" "cl_announced (report e s) = cl_announced s"
  "cl_work (report e s) = cl_work s" "cl_done (report e s) = cl_done s" "cl_count (report e s) = cl_count s"
  "cl_main (report e s) = cl_main s" "cl_tasks (report e s) = cl_tasks s" "cl_received (report e s) = cl_received s"
  "k_DPS (cl_data (report e s)) = k_DPS (cl_data s)" "k_ERR (cl_data (report e s)) = k_ERR (cl_data s)"
  by (simp_all add: report_def on_screen_def)

lemma run_task_simps [simp]:
  "cl_pcs (run_task uj t s) = cl_pcs s" "cl_socks (run_task uj t s) = cl_socks s"
  "cl_announced (run_task uj t s) = cl_announced s" "cl_work (run_task uj t s) = cl_work s"
  "cl_done (run_task uj t s) = cl_done s" "cl_count (run_task uj t s) = cl_count s" "cl_main (run_task uj t s) = cl_main s"
  "cl_tasks (run_task uj t s) = cl_tasks s" "cl_received (run_task uj t s) = cl_received s"
  by (simp_all add: run_task_def split: task.split outcome.split)

text \<open>A step of the goroutine of one host changes the entries of that host only.\<close>

lemma hosts_ok_step:
  assumes "hosts_ok c s" and "k < length (cl_pcs s)"
    and "cl_pcs s' = (cl_pcs s)[k := pc]" and "cl_socks s' = (cl_socks s)[k := so]" and "cl_announced s' = (cl_announced s)[k := a]"
    and "host_ok c k (cl_socks s ! k) (cl_pcs s ! k) (cl_announced s ! k) \<Longrightarrow> host_ok c k so pc a"
  shows "hosts_ok c s'"
  using assms by (auto simp: hosts_ok_def nth_list_update)

lemma gone_set_pc:
  assumes "k < length (cl_pcs s)" and "cl_pcs s ! k \<noteq> Gone" and "cl_pcs s' = (cl_pcs s)[k := pc]"
  shows "gone s' = gone s + (if pc = Gone then 1 else 0)"
  using assms by (simp add: gone_def mset_update)

lemma hosts_ok_pc:
  assumes "hosts_ok c s" and "k < length (cl_pcs s)"
    and "cl_pcs s' = (cl_pcs s)[k := pc]" and "cl_socks s' = cl_socks s" and "cl_announced s' = cl_announced s"
    and "host_ok c k (cl_socks s ! k) (cl_pcs s ! k) (cl_announced s ! k)
      \<Longrightarrow> host_ok c k (cl_socks s ! k) pc (cl_announced s ! k)"
  shows "hosts_ok c s'"
  using assms by (auto simp: hosts_ok_def nth_list_update)

lemma host_ok_fails:
  "pc \<in> {Dialing, Greeting, Reading} \<Longrightarrow> host_ok c k so pc a \<Longrightarrow> host_ok c k so (Leaving b) a"
  by (auto simp: host_ok_def split: option.splits)

lemma host_ok_leaves:
  "host_ok c k so (Leaving b) a \<Longrightarrow> host_ok c k so Gone a"
  "c_RestartOnError c \<Longrightarrow> host_ok c k so (Leaving b) a \<Longrightarrow> host_ok c k so Restarting a"
  "host_ok c k so Restarting a \<Longrightarrow> host_ok c k so Starting a"
  by (auto simp: host_ok_def split: option.splits)

lemma hosts_ok_cstep:
  assumes "cstep cmd uj c s s'" and "hosts_ok c s"
  shows "hosts_ok c s'"
  using assms(1)
proof (cases rule: cstep.cases)
  case (start k)
  let ?w = "(case cl_socks s ! k of None \<Rightarrow> \<lparr>wc_ID = k, wc_Host = [], wc_Con = None\<rparr> | Some w \<Rightarrow> w)\<lparr>wc_Host := c_Hosts c ! k\<rparr>"
  show ?thesis
    by (rule hosts_ok_step [OF assms(2) start(3), where pc = Dialing and so = "Some ?w" and a = "cl_announced s ! k"])
      (auto simp: start open_socket_def Let_def host_ok_def split: option.splits)
next
  case (dial_fails k e)
  show ?thesis
    by (rule hosts_ok_pc [OF assms(2) dial_fails(3), where pc = "Leaving True"])
      (use dial_fails in \<open>auto intro: host_ok_fails\<close>)
next
  case (dial k con)
  show ?thesis
    by (rule hosts_ok_step [OF assms(2) dial(3), where pc = Greeting and a = "cl_announced s ! k"
          and so = "map_option (\<lambda>w. w\<lparr>wc_Con := Some con\<rparr>) (cl_socks s ! k)"])
      (auto simp: dial dialed_def host_ok_def split: option.splits)
next
  case (greet k msg)
  have "\<exists>pc \<in> {Leaving True, Announcing}. cl_pcs s' = (cl_pcs s)[k := pc]" and "cl_socks s' = cl_socks s"
    and "cl_announced s' = cl_announced s"
    using greet by (auto simp: greeted_def split: sum.splits)
  moreover have "host_ok c k so Greeting a \<Longrightarrow> host_ok c k so Announcing a" for so a
    by (auto simp: host_ok_def split: option.splits)
  ultimately show ?thesis
    using hosts_ok_pc [OF assms(2) greet(3)] greet(4) host_ok_fails by fastforce
next
  case (announce k)
  show ?thesis
    by (rule hosts_ok_step [OF assms(2) announce(3), where pc = Reading and a = "cl_announced s ! k + 1" and so = "cl_socks s ! k"])
      (auto simp: announce announce_def host_ok_def split: option.splits)
next
  case (read k msg)
  have "(\<exists>b. cl_pcs s' = (cl_pcs s)[k := Leaving b]) \<or> cl_pcs s' = cl_pcs s" and "cl_socks s' = cl_socks s"
    and "cl_announced s' = cl_announced s"
    using read by (auto simp: read_signal_def Let_def split: sum.splits)
  then show ?thesis
    using hosts_ok_pc [OF assms(2) read(3)] read(4) host_ok_fails hosts_ok_frame assms(2) by (metis insertCI)
next
  case (leave k failed)
  have "cl_pcs s' = (cl_pcs s)[k := Gone] \<or> (c_RestartOnError c \<and> cl_pcs s' = (cl_pcs s)[k := Restarting])"
    and "cl_socks s' = cl_socks s" and "cl_announced s' = cl_announced s"
    using leave by (auto simp: leave_def)
  then show ?thesis
    using hosts_ok_pc [OF assms(2) leave(3)] leave(4) host_ok_leaves(1,2) by metis
next
  case (restart k)
  show ?thesis
    by (rule hosts_ok_pc [OF assms(2) restart(3), where pc = Starting])
      (use restart in \<open>auto intro: host_ok_leaves\<close>)
next
  case (task ts t us)
  then show ?thesis using assms(2) by (simp add: hosts_ok_def)
qed (use assms(2) in \<open>auto simp: hosts_ok_def finish_def take_done_def send_command_def Let_def split: prod.splits option.splits\<close>)

lemma counts_ok_pc:
  assumes "counts_ok c s" and "k < length (cl_pcs s)" and "cl_pcs s ! k \<noteq> Gone" and "pc \<noteq> Gone"
    and "cl_pcs s' = (cl_pcs s)[k := pc]"
    and "cl_work s' = cl_work s" and "cl_count s' = cl_count s" and "cl_done s' = cl_done s"
    and "cl_announced s' = cl_announced s" and "cl_main s' = cl_main s"
  shows "counts_ok c s'"
  using assms(1,4,6-) gone_set_pc [OF assms(2,3,5)] by (simp add: counts_ok_def)

lemma counts_ok_cstep:
  assumes "cstep cmd uj c s s'" and "hosts_ok c s" and "counts_ok c s"
  shows "counts_ok c s'"
  using assms(1)
proof (cases rule: cstep.cases)
  case (start k)
  then show ?thesis by (intro counts_ok_pc [OF assms(3) start(3), where pc = Dialing]) (auto simp: open_socket_def Let_def)
next
  case (dial_fails k e)
  then show ?thesis by (intro counts_ok_pc [OF assms(3) dial_fails(3), where pc = "Leaving True"]) auto
next
  case (dial k con)
  then show ?thesis by (intro counts_ok_pc [OF assms(3) dial(3), where pc = Greeting]) (auto simp: dialed_def)
next
  case (greet k msg)
  then have "cl_pcs s' = (cl_pcs s)[k := Leaving True] \<or> cl_pcs s' = (cl_pcs s)[k := Announcing]"
    and fr: "cl_work s' = cl_work s" "cl_count s' = cl_count s" "cl_done s' = cl_done s"
    "cl_announced s' = cl_announced s" "cl_main s' = cl_main s"
    by (auto simp: greeted_def split: sum.splits)
  then show ?thesis
    using counts_ok_pc [OF assms(3) greet(3) _ _ _ fr] greet(4) by auto
next
  case (announce k)
  have "k < length (cl_announced s)" using announce(3) assms(2) by (simp add: hosts_ok_def)
  then have "sum_list ((cl_announced s)[k := Suc (cl_announced s ! k)]) = Suc (sum_list (cl_announced s))"
    using elem_le_sum_list [of k "cl_announced s"] by (simp add: sum_list_update)
  moreover have "gone s' = gone s" using gone_set_pc [OF announce(3), of s' Reading] announce by (simp add: announce_def)
  ultimately show ?thesis using announce assms(3) by (auto simp: counts_ok_def announce_def)
next
  case (read k msg)
  have "(\<exists>b. cl_pcs s' = (cl_pcs s)[k := Leaving b]) \<or> cl_pcs s' = cl_pcs s"
    and fr: "cl_work s' = cl_work s" "cl_count s' = cl_count s" "cl_done s' = cl_done s"
    "cl_announced s' = cl_announced s" "cl_main s' = cl_main s"
    using read by (auto simp: read_signal_def Let_def split: sum.splits)
  then show ?thesis
  proof (elim disjE exE)
    fix b assume "cl_pcs s' = (cl_pcs s)[k := Leaving b]"
    with read(4) fr show ?thesis by (intro counts_ok_pc [OF assms(3) read(3), where pc = "Leaving b"]) auto
  qed (use assms(3) fr in \<open>simp add: counts_ok_frame [of s' s]\<close>)
next
  case (leave k failed)
  show ?thesis
  proof (cases "cl_cancelled s \<or> \<not> (c_RestartOnError c \<and> failed)")
    case True
    then have eq: "s' = set_pc k Gone (s\<lparr>cl_work := cl_work s - 1\<rparr>)" using leave(1) by (auto simp: leave_def)
    have "gone s' = gone s + 1" using gone_set_pc [OF leave(3), of s' Gone] leave(4) by (simp add: eq)
    then show ?thesis using assms(3) by (simp add: counts_ok_def eq)
  next
    case False
    then show ?thesis using leave by (intro counts_ok_pc [OF assms(3) leave(3), where pc = Restarting]) (auto simp: leave_def)
  qed
next
  case (restart k)
  then show ?thesis by (intro counts_ok_pc [OF assms(3) restart(3), where pc = Starting]) auto
next
  case (task ts t us)
  then show ?thesis using assms(3) by (simp add: counts_ok_def gone_def)
next
  case take
  then show ?thesis using assms(3) by (auto simp: counts_ok_def gone_def take_done_def Let_def)
next
  case send
  then show ?thesis
    using assms(3) by (auto simp: counts_ok_def gone_def send_command_def split: prod.splits option.splits)
qed (use assms(3) in \<open>auto simp: counts_ok_def gone_def finish_def\<close>)

lemma conn_ok_init: "hosts_ok c (init_client c)" "counts_ok c (init_client c)"
proof -
  have "count (mset (replicate n Starting)) Gone = 0" "sum_list (replicate n (0 :: nat)) = 0" for n
    by (simp_all add: sum_list_replicate)
  then show "hosts_ok c (init_client c)" "counts_ok c (init_client c)"
    by (auto simp: hosts_ok_def counts_ok_def init_client_def Let_def host_ok_def gone_def)
qed

lemma conn_ok_reachable:
  assumes "(cstep cmd uj c)\<^sup>*\<^sup>* (init_client c) s"
  shows "hosts_ok c s \<and> counts_ok c s"
  using assms by (induction rule: rtranclp_induct) (auto simp: conn_ok_init intro: hosts_ok_cstep counts_ok_cstep)

section \<open>Data\<close>

text \<open>The data points and errors that the handler of a signal adds.\<close>

fun task_DPS :: "unjson \<Rightarrow> task \<Rightarrow> DP list" where
  "task_DPS uj (CollectTask (Some r)) = dr_DPS r"
| "task_DPS uj (DataTask b) =
     (if HasPrefix b ''0'' then (case uj_dp uj (drop 1 b) of Inr (Some d) \<Rightarrow> [d] | _ \<Rightarrow> []) else [])"
| "task_DPS uj _ = []"

fun task_ERR :: "unjson \<Rightarrow> task \<Rightarrow> TError list" where
  "task_ERR uj (CollectTask (Some r)) = dr_Errors r"
| "task_ERR uj (DataTask b) =
     (if HasPrefix b ''1'' then (case uj_err uj (drop 1 b) of Inr (Some x) \<Rightarrow> [x] | _ \<Rightarrow> []) else [])"
| "task_ERR uj _ = []"

definition received_tasks :: "client \<Rightarrow> task list" where
  "received_tasks s = concat (map task_of (cl_received s))"

definition data_ok :: "unjson \<Rightarrow> client \<Rightarrow> bool" where
  "data_ok uj s \<longleftrightarrow>
     mset (k_DPS (cl_data s)) + mset (concat (map (task_DPS uj) (cl_tasks s))) = mset (concat (map (task_DPS uj) (received_tasks s)))
     \<and> mset (k_ERR (cl_data s)) + mset (concat (map (task_ERR uj) (cl_tasks s))) = mset (concat (map (task_ERR uj) (received_tasks s)))"

lemma run_task_data:
  "k_DPS (cl_data (run_task uj t s)) = k_DPS (cl_data s) @ task_DPS uj t"
  "k_ERR (cl_data (run_task uj t s)) = k_ERR (cl_data s) @ task_ERR uj t"
proof -
  have "\<not> (HasPrefix b ''0'' \<and> HasPrefix b ''1'')" for b by (cases b) auto
  then show "k_DPS (cl_data (run_task uj t s)) = k_DPS (cl_data s) @ task_DPS uj t"
    "k_ERR (cl_data (run_task uj t s)) = k_ERR (cl_data s) @ task_ERR uj t"
    by (cases "(uj, t)" rule: task_DPS.cases;
        auto simp: run_task_def collectDataPointv2_def receiveJSONDataPoint_def on_screen_def
        split: sum.splits option.splits)+
qed

lemma data_ok_frame:
  "k_DPS (cl_data s') = k_DPS (cl_data s) \<Longrightarrow> k_ERR (cl_data s') = k_ERR (cl_data s) \<Longrightarrow> cl_tasks s' = cl_tasks s
   \<Longrightarrow> cl_received s' = cl_received s \<Longrightarrow> data_ok uj s' = data_ok uj s"
  by (simp add: data_ok_def received_tasks_def)

lemma data_ok_cstep:
  assumes "cstep cmd uj c s s'" and "data_ok uj s"
  shows "data_ok uj s'"
  using assms(1)
proof (cases rule: cstep.cases)
  case (read k msg)
  then show ?thesis
    using assms(2) by (auto simp: read_signal_def Let_def data_ok_def received_tasks_def split: sum.splits)
next
  case (task ts t us)
  then show ?thesis
    using assms(2) by (simp add: data_ok_def received_tasks_def run_task_data ac_simps)
next
  case (greet k msg)
  then show ?thesis
    using assms(2) by (auto simp: greeted_def data_ok_def received_tasks_def split: sum.splits)
next
  case (send)
  then show ?thesis
    using assms(2) by (auto simp: send_command_def data_ok_def received_tasks_def split: prod.splits option.splits)
qed (use assms(2) in \<open>auto simp: data_ok_def received_tasks_def open_socket_def Let_def dialed_def announce_def leave_def
    take_done_def finish_def\<close>)

lemma data_ok_reachable:
  assumes "(cstep cmd uj c)\<^sup>*\<^sup>* (init_client c) s"
  shows "data_ok uj s"
  using assms
proof (induction rule: rtranclp_induct)
  case base
  show ?case by (simp add: data_ok_def received_tasks_def init_client_def Let_def no_data_def)
qed (rule data_ok_cstep)

section \<open>Properties\<close>

lemma gone_le: "gone s \<le> length (cl_pcs s)" "gone s = length (cl_pcs s) \<longleftrightarrow> list_all ((=) Gone) (cl_pcs s)"
proof -
  have "count (mset xs) x \<le> length xs \<and> (count (mset xs) x = length xs \<longleftrightarrow> list_all ((=) x) xs)" for x :: conn_pc and xs
    by (induction xs) auto
  then show "gone s \<le> length (cl_pcs s)" "gone s = length (cl_pcs s) \<longleftrightarrow> list_all ((=) Gone) (cl_pcs s)"
    by (simp_all add: gone_def)
qed

text \<open>
  C18: The number of hosts doing work is, in every reachable state of a command, the number of hosts that
  were counted as connected less the number of goroutines that have ended, whatever fails, restarts or
  is cancelled. Once the command works, it is therefore positive exactly as long as some host has not
  ended, and the loop that waits for it stops no host short and waits for none in vain.
\<close>

theorem working_hosts_counted:
  assumes "(cstep cmd uj c)\<^sup>*\<^sup>* (init_client c) s"
  shows "cl_work s = int (cl_count s) - int (count (mset (cl_pcs s)) Gone)
    \<and> cl_count s + cl_done s = sum_list (cl_announced s) \<and> cl_count s \<le> length (c_Hosts c)
    \<and> (cl_main s = Working \<longrightarrow> (cl_work s \<le> 0 \<longleftrightarrow> list_all ((=) Gone) (cl_pcs s)))"
proof -
  note ok = conn_ok_reachable [OF assms]
  have "cl_work s \<le> 0 \<longleftrightarrow> list_all ((=) Gone) (cl_pcs s)" if "cl_main s = Working"
    using ok that gone_le [of s] by (auto simp: hosts_ok_def counts_ok_def)
  then show ?thesis using ok by (simp add: counts_ok_def gone_def)
qed

lemma sum_list_full:
  assumes "\<forall>x \<in> set xs. x \<le> (1 :: nat)" and "length xs \<le> sum_list xs"
  shows "\<forall>x \<in> set xs. x = 1"
  using assms
proof (induction xs)
  case (Cons x xs)
  have "sum_list xs \<le> length xs" using Cons.prems(1) by (induction xs) (auto simp: le_Suc_eq)
  then show ?case using Cons by (auto simp: le_Suc_eq)
qed simp



text \<open>A reconnected host is not counted again: once nobody takes from the channel, it fills up.\<close>

lemma blocked_step:
  assumes "cstep cmd uj c s s'" and "k < length (cl_pcs s)"
    and "cl_main s \<noteq> Connecting" and "cl_done s = length (c_Hosts c)" and "cl_pcs s ! k = Announcing"
  shows "k < length (cl_pcs s') \<and> cl_main s' \<noteq> Connecting \<and> cl_done s' = length (c_Hosts c) \<and> cl_pcs s' ! k = Announcing"
  using assms(1)
proof (cases rule: cstep.cases)
  case (greet j msg)
  then show ?thesis using assms by (auto simp: greeted_def nth_list_update split: sum.splits)
next
  case (read j msg)
  then show ?thesis using assms by (auto simp: read_signal_def Let_def nth_list_update split: sum.splits)
next
  case (send)
  then show ?thesis using assms by (auto simp: send_command_def split: prod.splits option.splits)
qed (use assms in \<open>auto simp: nth_list_update open_socket_def Let_def dialed_def announce_def leave_def finish_def\<close>)

text \<open>
  C22: A host that reconnects while the command works announces itself again on a channel that nobody
  reads any more. After as many reconnects as there are hosts the channel is full: from then on a host
  that reconnects never reads again and never ends, so that the command is kept waiting until its time
  is over or it is cancelled.
\<close>

theorem reconnect_blocks:
  assumes "(cstep cmd uj c)\<^sup>*\<^sup>* (init_client c) s" and "cl_main s = Working" and "cl_done s = length (c_Hosts c)"
    and "k < length (c_Hosts c)" and "cl_pcs s ! k = Announcing" and "(cstep cmd uj c)\<^sup>*\<^sup>* s s'"
  shows "cl_pcs s' ! k = Announcing \<and> (cl_main s' = Working \<longrightarrow> 0 < cl_work s')"
proof -
  have k: "k < length (cl_pcs s)" using conn_ok_reachable [OF assms(1)] assms(4) by (simp add: hosts_ok_def)
  have "k < length (cl_pcs s') \<and> cl_main s' \<noteq> Connecting \<and> cl_done s' = length (c_Hosts c) \<and> cl_pcs s' ! k = Announcing"
    using assms(6) by (induction rule: rtranclp_induct) (use assms(2,3,5) k in \<open>auto dest: blocked_step\<close>)
  moreover have "hosts_ok c s' \<and> counts_ok c s'"
    using conn_ok_reachable [OF rtranclp_trans [OF assms(1,6)]] .
  moreover have "\<not> list_all ((=) Gone) (cl_pcs s')" if "k < length (cl_pcs s')" "cl_pcs s' ! k = Announcing"
    using that by (auto simp: list_all_length)
  ultimately show ?thesis using gone_le [of s'] by (auto simp: hosts_ok_def counts_ok_def)
qed

section \<open>Runs\<close>

text \<open>Steps by name, and the run of a list of them: an executable way to reach states.\<close>

datatype action =
    AStart nat | ADial nat nat | AGreet nat "string + WebsocketSignal" | AAnnounce nat
  | ARead nat "string + WebsocketSignal" | ALeave nat | ARestart nat | ATask | ATake | ASend

fun act :: "sender \<Rightarrow> unjson \<Rightarrow> Config \<Rightarrow> action \<Rightarrow> client \<Rightarrow> client option" where
  "act cmd uj c (AStart k) s =
     (if k < length (cl_pcs s) \<and> cl_pcs s ! k = Starting then Some (open_socket c k s) else None)"
| "act cmd uj c (ADial k con) s =
     (if k < length (cl_pcs s) \<and> cl_pcs s ! k = Dialing then Some (dialed k con s) else None)"
| "act cmd uj c (AGreet k msg) s =
     (if k < length (cl_pcs s) \<and> cl_pcs s ! k = Greeting then Some (greeted k msg s) else None)"
| "act cmd uj c (AAnnounce k) s =
     (if k < length (cl_pcs s) \<and> cl_pcs s ! k = Announcing \<and> cl_done s < length (c_Hosts c) then Some (announce k s) else None)"
| "act cmd uj c (ARead k msg) s =
     (if k < length (cl_pcs s) \<and> cl_pcs s ! k = Reading then Some (read_signal k msg s) else None)"
| "act cmd uj c (ALeave k) s =
     (if k < length (cl_pcs s) then
        (case cl_pcs s ! k of Leaving failed \<Rightarrow> Some (leave c k failed s) | _ \<Rightarrow> None)
      else None)"
| "act cmd uj c (ARestart k) s =
     (if k < length (cl_pcs s) \<and> cl_pcs s ! k = Restarting then Some (set_pc k Starting s) else None)"
| "act cmd uj c ATask s =
     (case cl_tasks s of [] \<Rightarrow> None | t # ts \<Rightarrow> Some (run_task uj t (s\<lparr>cl_tasks := ts\<rparr>)))"
| "act cmd uj c ATake s = (if cl_main s = Connecting \<and> 0 < cl_done s then Some (take_done c s) else None)"
| "act cmd uj c ASend s = (if cl_main s = Connected then Some (send_command cmd c s) else None)"

fun acts :: "sender \<Rightarrow> unjson \<Rightarrow> Config \<Rightarrow> action list \<Rightarrow> client \<Rightarrow> client option" where
  "acts cmd uj c [] s = Some s"
| "acts cmd uj c (a # as) s =
     (if cl_panic s \<noteq> None then None
      else case act cmd uj c a s of None \<Rightarrow> None | Some s1 \<Rightarrow> acts cmd uj c as s1)"

lemma act_step: "act cmd uj c a s = Some s' \<Longrightarrow> cl_panic s = None \<Longrightarrow> cstep cmd uj c s s'"
  by (cases a) (auto intro: cstep.intros cstep.task [where ts = "[]", simplified] split: if_splits conn_pc.splits list.splits)

lemma acts_steps: "acts cmd uj c as s = Some s' \<Longrightarrow> (cstep cmd uj c)\<^sup>*\<^sup>* s s'"
proof (induction "as" arbitrary: s)
  case (Cons a "as")
  then obtain s1 where "cl_panic s = None" "act cmd uj c a s = Some s1" "acts cmd uj c as s1 = Some s'"
    by (auto split: if_splits option.splits)
  then show ?case using Cons.IH act_step by (meson converse_rtranclp_into_rtranclp)
qed simp

section \<open>A host too few\<close>

definition ping_ok :: "string + WebsocketSignal" where
  "ping_ok = Inr (zero_signal\<lparr>ws_SType := Ping, ws_Code := OK\<rparr>)"

definition connect_host :: "nat \<Rightarrow> nat \<Rightarrow> action list" where
  "connect_host k con = [AStart k, ADial k con, AGreet k ping_ok, AAnnounce k]"

definition relapse :: "nat \<Rightarrow> action list" where
  "relapse k = [ARead k (Inl ''EOF''), ALeave k, ARestart k]"

definition conn_config :: "string list \<Rightarrow> bool \<Rightarrow> Config" where
  "conn_config hosts restart = zero_config\<lparr>c_Hosts := hosts, c_RestartOnError := restart\<rparr>"

abbreviation run_from_start :: "Config \<Rightarrow> action list \<Rightarrow> client option" where
  "run_from_start c as \<equiv> acts RunTest_send demo_unjson c as (init_client c)"

lemma reached:
  assumes "run_from_start c as \<noteq> None"
  shows "(cstep RunTest_send demo_unjson c)\<^sup>*\<^sup>* (init_client c) (the (run_from_start c as))"
  using acts_steps assms by fastforce

text \<open>The first of two hosts connects, breaks and connects again, while the second is still dialing.\<close>

definition flapping :: "action list" where
  "flapping = connect_host 0 7 @ [ATake] @ relapse 0 @ connect_host 0 8 @ [ATake, AStart 1]"


section \<open>Witnesses\<close>

definition done_signal :: "string + WebsocketSignal" where
  "done_signal = Inr (zero_signal\<lparr>ws_SType := Done, ws_Code := OK\<rparr>)"

definition stats_of_old :: "string + WebsocketSignal" where
  "stats_of_old = Inr (zero_signal\<lparr>ws_SType := Stats, ws_DataPoint := Some \<lparr>dr_DPS = [old_dp], dr_Errors = []\<rparr>\<rparr>)"

definition two_hosts :: "action list" where
  "two_hosts = connect_host 0 7 @ connect_host 1 8 @ [ATake, ATake]"

definition one_ended :: "action list" where
  "one_ended = two_hosts @ [ASend, ARead 0 stats_of_old, ARead 1 stats_of_old, ATask, ARead 0 done_signal, ALeave 0]"

theorem working_hosts_counted_witness:
  "cl_work (the (run_from_start (conn_config [''a'', ''b''] False) one_ended)) = 1
    \<and> \<not> list_all ((=) Gone) (cl_pcs (the (run_from_start (conn_config [''a'', ''b''] False) one_ended)))"
proof -
  let ?s = "the (run_from_start (conn_config [''a'', ''b''] False) one_ended)"
  have "run_from_start (conn_config [''a'', ''b''] False) one_ended \<noteq> None" by code_simp
  from working_hosts_counted [OF reached [OF this]]
  have w: "cl_main ?s = Working \<longrightarrow> (cl_work ?s \<le> 0 \<longleftrightarrow> list_all ((=) Gone) (cl_pcs ?s))" by blast
  have "cl_work ?s = 1" "cl_main ?s = Working" by code_simp+
  with w show ?thesis by simp
qed



definition reconnecting :: "action list" where
  "reconnecting = connect_host 0 7 @ [ATake, ASend] @ relapse 0 @ connect_host 0 8 @ relapse 0
     @ [AStart 0, ADial 0 9, AGreet 0 ping_ok]"

theorem reconnect_blocks_witness:
  "cl_work (the (run_from_start (conn_config [''a''] True) reconnecting)) = 1
    \<and> {s'. (cstep RunTest_send demo_unjson (conn_config [''a''] True))\<^sup>*\<^sup>*
        (the (run_from_start (conn_config [''a''] True) reconnecting)) s'} \<subseteq> {s'. cl_pcs s' ! 0 = Announcing}"
proof -
  let ?c = "conn_config [''a''] True" let ?s = "the (run_from_start ?c reconnecting)"
  have "run_from_start ?c reconnecting \<noteq> None" by code_simp
  moreover have "cl_main ?s = Working" "cl_done ?s = length (c_Hosts ?c)" "0 < length (c_Hosts ?c)" "cl_pcs ?s ! 0 = Announcing"
    by code_simp+
  ultimately have "cl_pcs s' ! 0 = Announcing" if "(cstep RunTest_send demo_unjson ?c)\<^sup>*\<^sup>* ?s s'" for s'
    using reconnect_blocks [OF reached _ _ _ _ that] by blast
  moreover have "cl_work ?s = 1" by code_simp
  ultimately show ?thesis by blast
qed

end
