(* ===== verification/ClientCommands.thy ===== *)
theory ClientCommands
  imports ClientConn
begin

text \<open>
  The commands of \<open>client/client.go\<close> as their callers see them: connect, send the signal of the command to
  every host, keep alive until the hosts are done, and what the command does afterwards. How
  connecting ended is the argument \<open>init\<close>, an error or none; \<open>socks\<close> are the sockets then; the rounds
  of the loop are observations, and \<open>k\<close> is what the handlers have collected when it ends.
\<close>

section \<open>The shared frame\<close>

text \<open>
  How a command ends: it returns an error or none, or it is still running after the observed rounds,
  or writing to a socket without a connection has ended the client.
\<close>

datatype ending = Returned "string option" | Running | Crashed string

definition ending_of :: "string option option \<Rightarrow> ending" where
  "ending_of r = (case r of None \<Rightarrow> Running | Some e \<Rightarrow> Returned e)"

type_synonym sent = "(nat \<times> WebsocketSignal) list"

definition client_command ::
  "sender \<Rightarrow> Config \<Rightarrow> string option \<Rightarrow> wsClient option list \<Rightarrow> observation list \<Rightarrow> sent \<times> ending" where
  "client_command send c init socks obs =
     (case init of
        Some e \<Rightarrow> ([], Returned (Some e))
      | None \<Rightarrow>
          (case send c socks of
             (ms, Some p) \<Rightarrow> (ms, Crashed p)
           | (ms, None) \<Rightarrow> (ms, ending_of (keepAliveLoop c obs))))"

section \<open>The commands\<close>

definition Listen_command :: "Config \<Rightarrow> string option \<Rightarrow> wsClient option list \<Rightarrow> observation list \<Rightarrow> sent \<times> ending" where
  "Listen_command = client_command Listen"

definition Stop_command :: "Config \<Rightarrow> string option \<Rightarrow> wsClient option list \<Rightarrow> observation list \<Rightarrow> sent \<times> ending" where
  "Stop_command = client_command Stop"

definition RunTest_command :: "Config \<Rightarrow> string option \<Rightarrow> wsClient option list \<Rightarrow> observation list \<Rightarrow> sent \<times> ending" where
  "RunTest_command = client_command RunTest_send"

definition DeleteTests_command :: "Config \<Rightarrow> string option \<Rightarrow> wsClient option list \<Rightarrow> observation list \<Rightarrow> sent \<times> ending" where
  "DeleteTests_command = client_command DeleteTests_send"

text \<open>The table is printed only when the loop has ended without an error.\<close>

definition ListTests_command ::
  "((string \<Rightarrow> string \<Rightarrow> int) \<Rightarrow> string list \<Rightarrow> string list) \<Rightarrow> (time \<Rightarrow> int) \<Rightarrow> string list \<Rightarrow> (string \<rightharpoonup> TestInfo) \<Rightarrow>
   screen \<Rightarrow> Config \<Rightarrow> string option \<Rightarrow> wsClient option list \<Rightarrow> observation list \<Rightarrow> sent \<times> ending \<times> screen" where
  "ListTests_command srt zone keys m sc c init socks obs =
     (case client_command ListTests_send c init socks obs of
        (ms, Returned None) \<Rightarrow> (ms, Returned None, ListTests_print srt zone keys m sc)
      | (ms, r) \<Rightarrow> (ms, r, sc))"

text \<open>The error of the loop is thrown away, so that the file is written in any case.\<close>

definition DownloadTest_command ::
  "(Config \<Rightarrow> collected \<Rightarrow> fsys \<Rightarrow> collected \<times> fsys \<times> string option) \<Rightarrow> collected \<Rightarrow> fsys \<Rightarrow>
   Config \<Rightarrow> string option \<Rightarrow> wsClient option list \<Rightarrow> observation list \<Rightarrow> sent \<times> ending \<times> collected \<times> fsys" where
  "DownloadTest_command write k fs c init socks obs =
     (case init of
        Some e \<Rightarrow> ([], Returned (Some e), k, fs)
      | None \<Rightarrow>
          (case DownloadTest_send c socks of
             (ms, Some p) \<Rightarrow> (ms, Crashed p, k, fs)
           | (ms, None) \<Rightarrow>
               (case keepAliveLoop c obs of
                  None \<Rightarrow> (ms, Running, k, fs)
                | Some _ \<Rightarrow> (case write c k fs of (k1, fs1, er) \<Rightarrow> (ms, Returned er, k1, fs1)))))"

section \<open>What the commands promise\<close>

lemma sends_to_connected:
  "itterateWebsockets (\<lambda>ws. WriteTo ws (NewSignal s c)) (connected con hosts)
    = (map (\<lambda>i. (con i, NewSignal s c)) [0 ..< length hosts], None)"
  unfolding connected_def itterate_connected ..

text \<open>
  The other commands, once connected, send their one signal with their own configuration to every
  host, once each and in the order of the hosts, and end as the loop does; without a connection to
  every host they send nothing at all and return the error.
\<close>

theorem commands_reach_all_hosts:
  assumes "(cmd, s) \<in> set [(Listen_command, ListenTest), (Stop_command, StopAllTests), (DeleteTests_command, DeleteTests)]"
  shows "cmd c None (connected con (c_Hosts c)) obs =
      (map (\<lambda>i. (con i, NewSignal s c)) [0 ..< length (c_Hosts c)], ending_of (keepAliveLoop c obs))
    \<and> cmd c (Some e) socks obs = ([], Returned (Some e))"
  using assms
  by (auto simp: Listen_command_def Stop_command_def DeleteTests_command_def client_command_def
      Listen_def Stop_def DeleteTests_send_def sends_to_connected)

text \<open>
  C37: A download that takes longer than 20 seconds past its duration is cut off and reported as a
  success: whatever its hosts still have to send, the loop gives up with an error, the command drops
  it, writes what has been collected until then to the file, oldest first, and returns no error.
\<close>

theorem download_cut_off_silently:
  assumes "codec enc_dp enc_err uj D E" and "set (k_DPS k) \<subseteq> D" and "set (k_ERR k) \<subseteq> E"
    and "sort_func srt_dp" and "sort_func srt_err"
    and "fs_ok fs" and "walk (fs_dirs fs) [] (Split (CHR ''/'') (c_File c)) = Some q" and "q \<notin> set (fs_dirs fs)"
    and "0 \<le> c_Duration c" and "c_Duration c \<le> 999980" and "nat (c_Duration c) + 21 \<le> length obs"
    and "\<forall>i < length obs. (int i + 1) * 1000000000 \<le> ob_elapsed (obs ! i) \<and> ob_elapsed (obs ! i) < 2 ^ 63"
    and "list_all undisturbed obs"
  shows "\<exists>e fs'. keepAliveLoop c obs = Some (Some e)
    \<and> DownloadTest_command (DownloadTest srt_dp srt_err enc_dp enc_err now) k fs c None (connected con (c_Hosts c)) obs =
      (map (\<lambda>i. (con i, NewSignal GetTest c)) [0 ..< length (c_Hosts c)], Returned None,
       k\<lparr>k_DPS := srt_dp (cmp_Created dp_Created) (k_DPS k), k_ERR := srt_err (cmp_Created te_Created) (k_ERR k)\<rparr>, fs')
    \<and> content fs' q = Some (join_lines (download_lines enc_dp enc_err
        (srt_dp (cmp_Created dp_Created) (k_DPS k)) (srt_err (cmp_Created te_Created) (k_ERR k))))"
proof -
  note late = late_round [OF assms(9-12)]
  have loop: "keepAliveLoop c obs = Some (Some ''Total duration reached 20 seconds past the configured duration'')"
    using keepAliveLoop_ends(2) [OF in_set_takeD [OF late(1)] late(2) assms(13)] .
  obtain fs' where d: "DownloadTest srt_dp srt_err enc_dp enc_err now c k fs =
      (k\<lparr>k_DPS := srt_dp (cmp_Created dp_Created) (k_DPS k), k_ERR := srt_err (cmp_Created te_Created) (k_ERR k)\<rparr>, fs', None)"
    "content fs' q = Some (join_lines (download_lines enc_dp enc_err
        (srt_dp (cmp_Created dp_Created) (k_DPS k)) (srt_err (cmp_Created te_Created) (k_ERR k))))"
    using DownloadTest_file [OF assms(1-8), where now = now and p = q] by auto
  show ?thesis
    using loop d by (auto simp: DownloadTest_command_def DownloadTest_send_def sends_to_connected)
qed

section \<open>Witnesses\<close>

theorem commands_reach_all_hosts_witness:
  "Stop_command (zero_config\<lparr>c_Hosts := [''a'', ''b'']\<rparr>) None (connected id [''a'', ''b'']) [] =
      ([(0, NewSignal StopAllTests (zero_config\<lparr>c_Hosts := [''a'', ''b'']\<rparr>)),
        (1, NewSignal StopAllTests (zero_config\<lparr>c_Hosts := [''a'', ''b'']\<rparr>))], Running)"
  using commands_reach_all_hosts [of Stop_command StopAllTests "zero_config\<lparr>c_Hosts := [''a'', ''b'']\<rparr>" id "[]"]
  by (simp add: ending_of_def upt_rec)

text \<open>A host that never finishes.\<close>

theorem download_cut_off_silently_witness:
  "\<exists>k' fs'. DownloadTest_command (DownloadTest insertion_sort insertion_sort demo_enc_dp demo_enc_err 0) demo_collected demo_fs
      (zero_config\<lparr>c_File := ''/d/out'', c_Hosts := [''a'']\<rparr>) None (connected id [''a'']) (map busy_round [0 ..< 30]) =
      ([(0, NewSignal GetTest (zero_config\<lparr>c_File := ''/d/out'', c_Hosts := [''a'']\<rparr>))], Returned None, k', fs')
    \<and> content fs' [''d'', ''out''] \<noteq> None"
proof -
  let ?obs = "map busy_round [0 ..< 30]" and ?c = "zero_config\<lparr>c_File := ''/d/out'', c_Hosts := [''a'']\<rparr>"
  have "\<forall>i < length ?obs. (int i + 1) * 1000000000 \<le> ob_elapsed (?obs ! i) \<and> ob_elapsed (?obs ! i) < 2 ^ 63"
    by (auto simp: busy_round_def)
  moreover have "list_all undisturbed ?obs" by (auto simp: list_all_iff busy_round_def undisturbed_def)
  moreover have "c_Duration ?c = 0" by (simp add: zero_config_def)
  moreover have "walk (fs_dirs demo_fs) [] (Split (CHR ''/'') (c_File ?c)) = Some [''d'', ''out'']"
    using demo_target(2) by simp
  ultimately show ?thesis
    using download_cut_off_silently [OF demo_codec demo_data ins.sort_func_axioms ins.sort_func_axioms demo_target(1) _ demo_target(3),
        where c = ?c and obs = ?obs and now = 0 and con = id]
    by (auto simp: upt_conv_Cons [of 0 "Suc 0"] simp del: upt_Suc)
qed

end
