(* ===== verification/ClientServer.thy ===== *)
theory ClientServer
  imports ServerQuiet ServerStore ClientCommands
begin

text \<open>
  Commands of the client on the servers they reach: the signal that a command writes to a socket
  (\<open>client/client.go\<close>) is the one that the handler of the server gets (\<open>server/server.go\<close>), and what the
  server answers is what the goroutine of the connection hands to the handlers of the client.
\<close>

section \<open>What a command sends\<close>

text \<open>What \<open>RunTest\<close> sends: the configuration of the command with other hosts.\<close>

lemma itterate_sends:
  assumes "m \<in> set (fst (itterateWebsockets (\<lambda>ws. WriteTo ws (f ws)) socks))"
  obtains ws con where "m = (con, f ws)"
  using assms
proof (induction socks)
  case (Cons so socks)
  then show ?case by (cases so) (auto simp: WriteTo_def split: option.splits prod.splits)
qed simp

lemma RunTest_sends:
  assumes "(con, sig) \<in> set (fst (RunTest_send c socks))"
  obtains hosts where "sig = NewSignal RunTest (c\<lparr>c_Hosts := hosts\<rparr>)"
  using itterate_sends [OF assms [unfolded RunTest_send_def]] by blast

lemma ws_NewSignal [simp]: "ws_SType (NewSignal s c) = s" "ws_Config (NewSignal s c) = c"
  by (simp_all add: NewSignal_def)

lemma Stop_sends:
  assumes "(con, sig) \<in> set (fst (Stop c socks))"
  shows "sig = NewSignal StopAllTests c"
  using itterate_sends [OF assms [unfolded Stop_def]] by blast

lemma ListTests_sends:
  assumes "(con, sig) \<in> set (fst (ListTests_send c socks))"
  shows "sig = NewSignal ListTests c"
  using itterate_sends [OF assms [unfolded ListTests_send_def]] by blast

section \<open>Stopping tests\<close>

lemma stopped_tests:
  assumes "ws_SType sig = StopAllTests" and "i < length (s_tests s)"
  shows "s_tests (handle_signal e rm_err uid con sig s) ! i = (s_tests s ! i)\<lparr>g_test := stop_one sig (g_test (s_tests s ! i))\<rparr>"
    and "s_net (handle_signal e rm_err uid con sig s) = fst (SendDone con (s_net s))"
    and "length (s_tests (handle_signal e rm_err uid con sig s)) = length (s_tests s)"
  using assms by (simp_all add: handle_signal_def put_tests_def stopAllTests_def)

text \<open>
  C8: The command \<open>stop\<close> silences the servers it reaches. Each test that it names, or every test when it
  names none, is cancelled by the time the client is told \<open>Done\<close>. From then on, along every run of the
  process, it stays cancelled, starts no request and counts no byte; bytes counted before can only leave
  for a last data point. Tests of other identifiers are left alone.
\<close>

theorem stop_silences_tests:
  assumes "(k, sig) \<in> set (fst (Stop c socks))" and "i < length (s_tests s)"
    and "(step e js rm_err bad_req)\<^sup>*\<^sup>* (handle_signal e rm_err uid con sig s) s'"
  defines "t \<equiv> g_test (s_tests s ! i)"
  shows "sent_to con (s_net (handle_signal e rm_err uid con sig s)) = sent_to con (s_net s) @
      (if live (s_net s) con then [zero_signal\<lparr>ws_SType := Done, ws_Code := OK\<rparr>] else [])
    \<and> (if c_TestID c \<in> {[], t_ID t}
       then i < length (s_tests s') \<and> cancelled (g_test (s_tests s' ! i)) \<and> sending (s_tests s' ! i) \<le> sending (s_tests s ! i)
        \<and> map r_TXCount (t_Readers (g_test (s_tests s' ! i))) = map r_TXCount (t_Readers t)
        \<and> list_all2 (\<lambda>r r'. r_TX r' = r_TX r \<or> r_TX r' = 0) (t_Readers t) (t_Readers (g_test (s_tests s' ! i)))
       else s_tests (handle_signal e rm_err uid con sig s) ! i = s_tests s ! i)"
proof -
  have sig: "sig = NewSignal StopAllTests c" by (rule Stop_sends [OF assms(1)])
  then have stop: "ws_SType sig = StopAllTests" by simp
  let ?s = "handle_signal e rm_err uid con sig s" and ?g = "(s_tests s ! i)\<lparr>g_test := stop_one sig t\<rparr>"
  note st = stopped_tests [OF stop assms(2), where e = e and rm_err = rm_err and uid = uid and con = con, folded t_def]
  have told: "sent_to con (s_net ?s) = sent_to con (s_net s) @
      (if live (s_net s) con then [zero_signal\<lparr>ws_SType := Done, ws_Code := OK\<rparr>] else [])"
    unfolding st(2) by (simp add: SendDone_def sent_to_WriteJSON)
  have named: "stop_one sig t = (if c_TestID c \<in> {[], t_ID t} then cancel_test ''Client called StopAllTests'' t else t)"
    by (auto simp: stop_one_def sig)
  show ?thesis
  proof (cases "c_TestID c \<in> {[], t_ID t}")
    case True
    have i: "i < length (s_tests ?s)" using assms(2) st(3) by simp
    have c: "cancelled (g_test (s_tests ?s ! i))" unfolding st(1) using named True by simp
    from silent_steps [OF assms(3) i c] have q: "i < length (s_tests s')" "silent ?g (s_tests s' ! i)"
      unfolding st(1) by simp_all
    have r: "t_Readers (g_test ?g) = t_Readers t" "sending ?g = sending (s_tests s ! i)"
      by (simp_all add: named cancel_test_def sending_def split: option.split)
    have "map r_TXCount (t_Readers (g_test (s_tests s' ! i))) = map r_TXCount (t_Readers t)"
      "list_all2 (\<lambda>r r'. r_TX r' = r_TX r \<or> r_TX r' = 0) (t_Readers t) (t_Readers (g_test (s_tests s' ! i)))"
      using q(2) r(1) by (auto simp: silent_def quieter_def list_all2_conv_all_nth list_eq_iff_nth_eq)
    then show ?thesis using told True q r(2) by (simp add: silent_def)
  next
    case False
    then have "?g = s_tests s ! i" using named by (simp add: t_def)
    then show ?thesis using told False st(1) by simp
  qed
qed

section \<open>Listing tests\<close>

text \<open>What a server writes to a connection while it handles a signal.\<close>

definition answers ::
  "env \<Rightarrow> (path \<Rightarrow> string option) \<Rightarrow> string \<Rightarrow> nat \<Rightarrow> WebsocketSignal \<Rightarrow> server \<Rightarrow> WebsocketSignal list" where
  "answers e rm_err uid con sig s =
     drop (length (sent_to con (s_net s))) (sent_to con (s_net (handle_signal e rm_err uid con sig s)))"

lemma list_answer:
  assumes "ws_SType sig = ListTests" and "store_ready (e_basePath e) b (s_fs s)" and "live (s_net s) con"
  obtains l where "concat (map task_of (answers e rm_err uid con sig s)) = [ListTask l]"
    and "set (map ti_ID l) = {tid. b @ [tid @ ''.1''] \<in> set (paths (s_fs s))}"
proof -
  obtain l where l: "listTestsFromDisk (e_basePath e) (s_fs s) = Return l"
    "set (map ti_ID l) = {tid. b @ [tid @ ''.1''] \<in> set (paths (s_fs s))}"
    by (rule listTestsFromDisk_IDs [OF assms(2)])
  have "answers e rm_err uid con sig s =
      [sig\<lparr>ws_TestList := l, ws_Code := 200, ws_SType := ListTests\<rparr>, zero_signal\<lparr>ws_SType := Done, ws_Code := OK\<rparr>]"
    using assms(1,3) by (simp add: answers_def handle_signal_def listAllTests_def l(1) SendDone_def sent_to_def)
  then show ?thesis using that [OF _ l(2)] by (simp add: task_of_def)
qed

lemma dom_parseTestList: "dom (parseTestList l m) = dom m \<union> set (map ti_ID l)"
  by (induction l arbitrary: m) (auto split: option.split)

lemma run_list_tasks:
  assumes "\<forall>t \<in> set ts. \<exists>l. t = ListTask l"
  shows "dom (cl_tests (fold (run_task uj) ts s)) = dom (cl_tests s) \<union> {tid. \<exists>l. ListTask l \<in> set ts \<and> tid \<in> set (map ti_ID l)}"
  using assms
proof (induction ts arbitrary: s)
  case (Cons t ts)
  then obtain l where "t = ListTask l" by auto
  then show ?case using Cons by (auto simp: run_task_def dom_parseTestList)
qed simp

text \<open>
  C9: The command \<open>list\<close> shows the tests of all servers: when every server has answered and the handlers
  of the answers have run, in any order, the client knows exactly the identifiers of the result files of all
  servers, each once.
\<close>

theorem list_shows_all_tests:
  assumes "(k, sig) \<in> set (fst (ListTests_send c socks))"
    and "\<forall>(e, b, s, con) \<in> set servers. store_ready (e_basePath e) b (s_fs s) \<and> live (s_net s) con"
    and "mset ts = mset (concat (map (\<lambda>(e, b, s, con). concat (map task_of (answers e rm_err uid con sig s))) servers))"
  shows "dom (cl_tests (fold (run_task uj) ts cl)) = dom (cl_tests cl)
      \<union> {tid. \<exists>(e, b, s, con) \<in> set servers. b @ [tid @ ''.1''] \<in> set (paths (s_fs s))}"
proof -
  have sig: "ws_SType sig = ListTests" using ListTests_sends [OF assms(1)] by simp
  define F where "F = (\<lambda>(e, b :: path, s, con). concat (map task_of (answers e rm_err uid con sig s)))"
  define ids where "ids = (\<lambda>(e :: env, b, s :: server, con :: nat). {tid. b @ [tid @ ''.1''] \<in> set (paths (s_fs s))})"
  have "\<exists>l. F x = [ListTask l] \<and> set (map ti_ID l) = ids x" if "x \<in> set servers" for x
  proof -
    obtain e b s con where x: "x = (e, b, s, con)" by (rule prod_cases4)
    then have "store_ready (e_basePath e) b (s_fs s)" "live (s_net s) con" using assms(2) that by auto
    then show ?thesis unfolding x F_def ids_def prod.case by (rule list_answer [OF sig]) blast
  qed
  then obtain l where l: "\<And>x. x \<in> set servers \<Longrightarrow> F x = [ListTask (l x)]"
    "\<And>x. x \<in> set servers \<Longrightarrow> set (map ti_ID (l x)) = ids x" by metis
  have "concat (map F servers) = map (\<lambda>x. ListTask (l x)) servers"
    using l(1) by (induction servers) simp_all
  then have ts: "set ts = (\<lambda>x. ListTask (l x)) ` set servers" using mset_eq_setD [OF assms(3)] by (simp add: F_def)
  have "dom (cl_tests (fold (run_task uj) ts cl)) =
      dom (cl_tests cl) \<union> {tid. \<exists>l. ListTask l \<in> set ts \<and> tid \<in> set (map ti_ID l)}"
    by (rule run_list_tasks) (use ts in auto)
  also have "{tid. \<exists>l. ListTask l \<in> set ts \<and> tid \<in> set (map ti_ID l)} = (\<Union>x \<in> set servers. set (map ti_ID (l x)))"
    unfolding ts by blast
  also have "\<dots> = {tid. \<exists>(e, b, s, con) \<in> set servers. b @ [tid @ ''.1''] \<in> set (paths (s_fs s))}"
    using l(2) by (fastforce simp: ids_def)
  finally show ?thesis .
qed

section \<open>Witnesses\<close>

text \<open>Two sockets, and two servers of which one has a result more.\<close>

abbreviation demo_sockets :: "wsClient option list" where
  "demo_sockets \<equiv> connected (\<lambda>i. i) [''a'', ''b'']"

lemma demo_written:
  "(0, NewSignal StopAllTests c) \<in> set (fst (Stop c demo_sockets))"
  "(0, NewSignal ListTests c) \<in> set (fst (ListTests_send c demo_sockets))"
  unfolding Stop_def ListTests_send_def connected_def itterate_connected by simp_all

theorem stop_silences_tests_witness:
  "\<not> cancelled (g_test (s_tests demo_server ! 0))
    \<and> cancelled (g_test (s_tests (handle_signal demo_env (\<lambda>_. None) ''u'' 0 (NewSignal StopAllTests zero_config) demo_server) ! 0))"
proof -
  have "0 < length (s_tests demo_server)" by (simp add: demo_server_simps)
  from stop_silences_tests [OF demo_written(1) this rtranclp.rtrancl_refl,
      where rm_err = "\<lambda>_. None"]
  show ?thesis by (simp add: demo_server_simps demo_trun_simps zero_config_def)
qed

definition demo_servers :: "(env \<times> path \<times> server \<times> nat) list" where
  "demo_servers = [(demo_env, [''d''], init_server 0 demo_fs, 0), (demo_env, [''d''], init_server 0 dotted_fs, 0)]"

theorem list_shows_all_tests_witness:
  "(let ts = rev (concat (map (\<lambda>(e, b, s, con). concat (map task_of
        (answers e (\<lambda>_. None) ''u'' con (NewSignal ListTests zero_config) s))) demo_servers))
    in {''bw'', ''lat.2''} \<subseteq> dom (cl_tests (fold (run_task demo_unjson) ts (init_client zero_config)))
      \<and> ''x'' \<notin> dom (cl_tests (fold (run_task demo_unjson) ts (init_client zero_config))))"
proof -
  have "store_ready ''/d/'' [''d''] dotted_fs" "live (s_net (init_server 0 fs)) 0" for fs
    by code_simp (simp add: init_server_def live_def)
  then have ok: "\<forall>(e, b, s, con) \<in> set demo_servers. store_ready (e_basePath e) b (s_fs s) \<and> live (s_net s) con"
    using demo_ready by (simp add: demo_servers_def demo_env_def) (simp add: init_server_def)
  have p: "set (paths demo_fs) = {[''d'', ''lat.1''], [''d'', ''lat-2.1''], [''d'', ''bw.1'']}"
    "set (paths dotted_fs) = {[''d'', ''lat.1''], [''d'', ''lat-2.1''], [''d'', ''bw.1''], [''d'', ''lat.2.1'']}"
    by (auto simp: paths_def demo_fs_def dotted_fs_def)
  have none: "dom (cl_tests (init_client zero_config)) = {}" by (simp add: init_client_def Let_def)
  show ?thesis
    unfolding Let_def
    by (subst (1 2) list_shows_all_tests [OF demo_written(2) ok mset_rev])
      (simp add: none demo_servers_def, simp add: init_server_def p)
qed

end
