(* ===== verification/ServerHttp.thy ===== *)
theory ServerHttp
  imports ServerReader
begin

text \<open>
  The HTTP side of \<open>server/server.go\<close>: the transport and the dialer that the readers of a test use, with
  the socket options of \<open>server/helpers_linux.go\<close>, and the routes that \<open>startAPIandWS\<close> registers. The kernel
  and the router of fiber are outside of the repository: they are arguments, and the locales \<open>kernel\<close> and
  \<open>router\<close> say what they promise.
\<close>

section \<open>Socket options\<close>

text \<open>Levels and options with their numbers on Linux.\<close>

abbreviation SOL_SOCKET :: int where "SOL_SOCKET \<equiv> 1"
abbreviation IPPROTO_TCP :: int where "IPPROTO_TCP \<equiv> 6"
abbreviation SO_DEBUG :: int where "SO_DEBUG \<equiv> 1"
abbreviation SO_REUSEADDR :: int where "SO_REUSEADDR \<equiv> 2"
abbreviation SO_KEEPALIVE :: int where "SO_KEEPALIVE \<equiv> 9"
abbreviation SO_REUSEPORT :: int where "SO_REUSEPORT \<equiv> 15"
abbreviation TCP_NODELAY :: int where "TCP_NODELAY \<equiv> 1"
abbreviation TCP_KEEPIDLE :: int where "TCP_KEEPIDLE \<equiv> 4"
abbreviation TCP_KEEPINTVL :: int where "TCP_KEEPINTVL \<equiv> 5"
abbreviation TCP_KEEPCNT :: int where "TCP_KEEPCNT \<equiv> 6"
abbreviation TCP_QUICKACK :: int where "TCP_QUICKACK \<equiv> 12"
abbreviation TCP_FASTOPEN :: int where "TCP_FASTOPEN \<equiv> 23"
abbreviation TCP_FASTOPEN_CONNECT :: int where "TCP_FASTOPEN_CONNECT \<equiv> 30"

type_synonym sockopt = "int \<times> int"

definition tcp_parameters :: "(sockopt \<times> int) list" where
  "tcp_parameters =
     [((SOL_SOCKET, SO_REUSEADDR), 1),
      ((SOL_SOCKET, SO_REUSEPORT), 1),
      ((SOL_SOCKET, TCP_NODELAY), 1),
      ((IPPROTO_TCP, TCP_FASTOPEN), 32 * 1024),
      ((IPPROTO_TCP, TCP_FASTOPEN_CONNECT), 1),
      ((IPPROTO_TCP, TCP_QUICKACK), 1),
      ((SOL_SOCKET, SO_KEEPALIVE), 1),
      ((IPPROTO_TCP, TCP_KEEPIDLE), 15),
      ((IPPROTO_TCP, TCP_KEEPCNT), 5),
      ((IPPROTO_TCP, TCP_KEEPINTVL), 15)]"

text \<open>
  \<open>setTCPParametersFn\<close> on a socket: the error of every call is dropped, and so is that of \<open>c.Control\<close>,
  which calls nothing when the socket is not \<open>usable\<close>. Which of the two functions of that name is built
  depends on the system.
\<close>

definition setTCPParameters_linux ::
  "(sockopt \<Rightarrow> int \<Rightarrow> 'k \<Rightarrow> 'k \<times> string option) \<Rightarrow> bool \<Rightarrow> 'k \<Rightarrow> 'k \<times> string option" where
  "setTCPParameters_linux setsockopt usable k =
     (if usable then fold (\<lambda>(opt, v) k. fst (setsockopt opt v k)) tcp_parameters k else k, None)"

definition setTCPParameters_others :: "'k \<Rightarrow> 'k \<times> string option" where
  "setTCPParameters_others k = (k, None)"

definition setTCPParametersFn ::
  "(sockopt \<Rightarrow> int \<Rightarrow> 'k \<Rightarrow> 'k \<times> string option) \<Rightarrow> bool \<Rightarrow> bool \<Rightarrow> 'k \<Rightarrow> 'k \<times> string option" where
  "setTCPParametersFn setsockopt linux usable =
     (if linux then setTCPParameters_linux setsockopt usable else setTCPParameters_others)"

section \<open>The transport\<close>

text \<open>Durations in nanoseconds.\<close>

definition second :: int where "second = 1000000000"

record 'k dialer =
  dl_Timeout :: int
  dl_Control :: "'k \<Rightarrow> 'k \<times> string option"

definition newDialContext ::
  "(sockopt \<Rightarrow> int \<Rightarrow> 'k \<Rightarrow> 'k \<times> string option) \<Rightarrow> bool \<Rightarrow> bool \<Rightarrow> int \<Rightarrow> 'k dialer" where
  "newDialContext setsockopt linux usable dialTimeout =
     \<lparr>dl_Timeout = dialTimeout, dl_Control = setTCPParametersFn setsockopt linux usable\<rparr>"

record 'k transport =
  tr_DialContext :: "'k dialer"
  tr_MaxIdleConnsPerHost :: int
  tr_WriteBufferSize :: int
  tr_ReadBufferSize :: int
  tr_IdleConnTimeout :: int
  tr_ResponseHeaderTimeout :: int
  tr_TLSHandshakeTimeout :: int
  tr_DisableCompression :: bool

text \<open>The proxy of the environment is left to the HTTP client.\<close>

definition newTransport ::
  "(sockopt \<Rightarrow> int \<Rightarrow> 'k \<Rightarrow> 'k \<times> string option) \<Rightarrow> bool \<Rightarrow> bool \<Rightarrow> Config \<Rightarrow> 'k transport" where
  "newTransport setsockopt linux usable c =
     \<lparr>tr_DialContext = newDialContext setsockopt linux usable (10 * second), tr_MaxIdleConnsPerHost = 1024,
      tr_WriteBufferSize = c_BufferSize c, tr_ReadBufferSize = c_BufferSize c,
      tr_IdleConnTimeout = 15 * second, tr_ResponseHeaderTimeout = 15 * 60 * second,
      tr_TLSHandshakeTimeout = 10 * second, tr_DisableCompression = True\<rparr>"

section \<open>Routes\<close>

datatype verb = GET | PUT

text \<open>A route is registered for one method, or as a middleware for all.\<close>

datatype registration = For verb | Use

datatype handler = Hello | WsUpgrade | WsConnection | DiscardBody | DiscardStream

type_synonym route = "registration \<times> string \<times> handler"

definition routes :: "route list" where
  "routes =
     [(For GET, ''/'', Hello), (Use, ''/ws'', WsUpgrade), (For GET, ''/ws/:id'', WsConnection),
      (For PUT, ''/requests'', DiscardBody), (For PUT, ''/stream'', DiscardStream)]"

text \<open>What a request is answered with: a status and a body, or a websocket.\<close>

datatype answer = Answer int string | Websocket | Unrouted

text \<open>
  The handlers in the order of their registration; \<open>c.Next()\<close> goes on with the next that matches.
  \<open>matches\<close> is the router's, \<open>upgrade\<close> whether the request asks for a websocket. The bodies of test traffic
  are read and thrown away, and errors of that are ignored.
\<close>

fun serve :: "(registration \<Rightarrow> string \<Rightarrow> verb \<Rightarrow> string \<Rightarrow> bool) \<Rightarrow> bool \<Rightarrow> verb \<Rightarrow> string \<Rightarrow> route list \<Rightarrow> answer" where
  "serve matches upgrade m path [] = Unrouted"
| "serve matches upgrade m path ((reg, pat, h) # rs) =
     (if \<not> matches reg pat m path then serve matches upgrade m path rs
      else case h of
             Hello \<Rightarrow> Answer 200 ''Hello, World!''
           | WsUpgrade \<Rightarrow> if upgrade then serve matches upgrade m path rs else Answer 426 ''Upgrade Required''
           | WsConnection \<Rightarrow> Websocket
           | DiscardBody \<Rightarrow> Answer 200 ''OK''
           | DiscardStream \<Rightarrow> Answer 200 ''OK'')"

text \<open>What the HTTP client of a reader makes of an answer; \<open>unrouted\<close> is the router's status for no route.\<close>

fun response_of :: "int \<Rightarrow> answer \<Rightarrow> response" where
  "response_of unrouted (Answer code body) = Status code"
| "response_of unrouted Websocket = Status 101"
| "response_of unrouted Unrouted = Status unrouted"

section \<open>The contract of the kernel\<close>

text \<open>A call that succeeds sets its option, one that fails sets nothing.\<close>

locale kernel =
  fixes setsockopt :: "sockopt \<Rightarrow> int \<Rightarrow> 'k \<Rightarrow> 'k \<times> string option" and getopt :: "'k \<Rightarrow> sockopt \<Rightarrow> int option"
  assumes set_ok: "setsockopt opt v k = (k', None) \<Longrightarrow> getopt k' = (getopt k)(opt \<mapsto> v)"
    and set_fails: "setsockopt opt v k = (k', Some er) \<Longrightarrow> getopt k' = getopt k"
begin

abbreviation set_all :: "(sockopt \<times> int) list \<Rightarrow> 'k \<Rightarrow> 'k" where
  "set_all ps k \<equiv> fold (\<lambda>(opt, v) k. fst (setsockopt opt v k)) ps k"

lemma set_one: "getopt (fst (setsockopt opt v k)) = (if snd (setsockopt opt v k) = None then (getopt k)(opt \<mapsto> v) else getopt k)"
  using set_ok [of opt v k] set_fails [of opt v k] by (cases "setsockopt opt v k") auto

lemma set_all_only: "getopt (set_all ps k) opt \<noteq> getopt k opt \<Longrightarrow> \<exists>v. (opt, v) \<in> set ps \<and> getopt (set_all ps k) opt = Some v"
proof (induction ps arbitrary: k)
  case (Cons p ps)
  obtain o1 v1 where p: "p = (o1, v1)" by (cases p)
  show ?case
  proof (cases "getopt (set_all ps (fst (setsockopt o1 v1 k))) opt = getopt (fst (setsockopt o1 v1 k)) opt")
    case True
    then show ?thesis using Cons.prems set_one [of o1 v1 k] by (auto simp: p split: if_splits)
  next
    case False
    then show ?thesis using Cons.IH [OF False] by (auto simp: p)
  qed
qed simp

lemma set_all_sets:
  assumes "distinct (map fst ps)" and "\<forall>(opt, v) \<in> set ps. \<forall>k. snd (setsockopt opt v k) = None"
  shows "\<forall>(opt, v) \<in> set ps. getopt (set_all ps k) opt = Some v"
  using assms
proof (induction ps arbitrary: k)
  case (Cons p ps)
  obtain o1 v1 where p: "p = (o1, v1)" by (cases p)
  have "getopt (fst (setsockopt o1 v1 k)) o1 = Some v1" using Cons.prems(2) set_one [of o1 v1 k] by (simp add: p)
  moreover have "getopt (set_all ps k') o1 = getopt k' o1" for k'
    using set_all_only [of ps k' o1] Cons.prems(1) by (force simp: p)
  ultimately show ?case using Cons.IH [of "fst (setsockopt o1 v1 k)"] Cons.prems by (auto simp: p)
qed simp

end

text \<open>A kernel that refuses some options.\<close>

definition demo_setsockopt ::
  "sockopt set \<Rightarrow> sockopt \<Rightarrow> int \<Rightarrow> (sockopt \<rightharpoonup> int) \<Rightarrow> (sockopt \<rightharpoonup> int) \<times> string option" where
  "demo_setsockopt refused opt v k =
     (if opt \<in> refused then (k, Some ''operation not permitted'') else (k(opt \<mapsto> v), None))"

interpretation demo: kernel "demo_setsockopt refused" "\<lambda>k. k" for refused
  by unfold_locales (auto simp: demo_setsockopt_def split: if_splits)

section \<open>The contract of the router\<close>

text \<open>
  The router of fiber with its default configuration: paths are compared without regard to case and to
  one slash at their end. A route without parameters matches its own path and method only, a middleware
  every path that begins with its pattern, and a parameter one segment of a path.
\<close>

definition lower :: "char \<Rightarrow> char" where
  "lower ch = (if of_char ch \<in> {65 .. 90 :: nat} then char_of (of_char ch + 32 :: nat) else ch)"

definition canon :: "string \<Rightarrow> string" where
  "canon path = map lower (if 1 < length path \<and> last path = CHR ''/'' then butlast path else path)"

definition plain_pattern :: "string \<Rightarrow> bool" where
  "plain_pattern pat \<longleftrightarrow> CHR '':'' \<notin> set pat \<and> canon pat = pat"

locale router =
  fixes matches :: "registration \<Rightarrow> string \<Rightarrow> verb \<Rightarrow> string \<Rightarrow> bool"
  assumes exact: "plain_pattern pat \<Longrightarrow> matches (For m) pat m' path \<longleftrightarrow> m' = m \<and> canon path = pat"
    and middleware: "plain_pattern pat \<Longrightarrow> matches Use pat m' path \<longleftrightarrow> HasPrefix (canon path) pat"
    and parameter: "plain_pattern pre \<Longrightarrow> CHR ''/'' \<notin> set name \<Longrightarrow>
      matches (For m) (pre @ ''/:'' @ name) m' path \<longleftrightarrow>
      m' = m \<and> (\<exists>seg. canon path = pre @ ''/'' @ seg \<and> seg \<noteq> [] \<and> CHR ''/'' \<notin> set seg)"
begin

text \<open>The whole table: what the server answers to every request.\<close>

lemma serve_routes:
  "serve matches upgrade m path routes =
     (if m = GET \<and> canon path = ''/'' then Answer 200 ''Hello, World!''
      else if HasPrefix (canon path) ''/ws'' \<and> \<not> upgrade then Answer 426 ''Upgrade Required''
      else if m = GET \<and> (\<exists>seg. canon path = ''/ws/'' @ seg \<and> seg \<noteq> [] \<and> CHR ''/'' \<notin> set seg) then Websocket
      else if m = PUT \<and> canon path \<in> {''/requests'', ''/stream''} then Answer 200 ''OK''
      else Unrouted)"
proof -
  have plain: "plain_pattern ''/''" "plain_pattern ''/requests''" "plain_pattern ''/stream''" "plain_pattern ''/ws''"
    by code_simp+
  note E = exact [OF plain(1)] exact [OF plain(2)] exact [OF plain(3)] middleware [OF plain(4)]
    parameter [OF plain(4), of "''id''", simplified]
  show ?thesis by (cases m) (auto simp: routes_def E HasPrefix_iff)
qed

end

text \<open>A router that splits a pattern at its parameter.\<close>

definition fiber_matches :: "registration \<Rightarrow> string \<Rightarrow> verb \<Rightarrow> string \<Rightarrow> bool" where
  "fiber_matches reg pat m path =
     (case reg of
        Use \<Rightarrow> HasPrefix (canon path) pat
      | For m' \<Rightarrow> m = m' \<and>
          (if CHR '':'' \<in> set pat
           then (let pre = takeWhile (\<lambda>ch. ch \<noteq> CHR '':'') pat; seg = drop (length pre) (canon path)
                 in HasPrefix (canon path) pre \<and> seg \<noteq> [] \<and> CHR ''/'' \<notin> set seg)
           else canon path = pat))"

lemma takeWhile_pattern: "CHR '':'' \<notin> set pre \<Longrightarrow> takeWhile (\<lambda>ch. ch \<noteq> CHR '':'') (pre @ CHR ''/'' # CHR '':'' # name) = pre @ ''/''"
  by (induction pre) auto

interpretation fiber: router fiber_matches
proof
  fix pat m m' path assume "plain_pattern pat"
  then show "fiber_matches (For m) pat m' path \<longleftrightarrow> m' = m \<and> canon path = pat"
    "fiber_matches Use pat m' path \<longleftrightarrow> HasPrefix (canon path) pat"
    by (auto simp: fiber_matches_def plain_pattern_def)
next
  fix pre name m m' path assume "plain_pattern pre"
  then have "CHR '':'' \<notin> set pre" by (simp add: plain_pattern_def)
  then show "fiber_matches (For m) (pre @ ''/:'' @ name) m' path \<longleftrightarrow>
      m' = m \<and> (\<exists>seg. canon path = pre @ ''/'' @ seg \<and> seg \<noteq> [] \<and> CHR ''/'' \<notin> set seg)"
    by (auto simp: fiber_matches_def takeWhile_pattern Let_def HasPrefix_iff)
qed

section \<open>Properties\<close>

lemma distinct_parameters: "distinct (map fst tcp_parameters)"
  by (simp add: tcp_parameters_def)

lemma dialed_control:
  "dl_Control (tr_DialContext (newTransport setsockopt linux usable c)) = setTCPParametersFn setsockopt linux usable"
  by (simp add: newTransport_def newDialContext_def)

text \<open>
  C38: The connections of the readers: dialing never fails because of a socket option. Only the options of
  the list are touched, and a kernel that takes them all has them all set. But \<open>TCP_NODELAY\<close> is asked for
  on the level of the socket, where its number is that of \<open>SO_DEBUG\<close>: the option of that name is never
  set, and debugging of the socket is turned on when the kernel lets it.
\<close>

theorem dialed_socket_options:
  assumes "kernel setsockopt getopt"
    and "dl_Control (tr_DialContext (newTransport setsockopt linux usable c)) k = (k', er)"
  shows "er = None \<and> getopt k' (IPPROTO_TCP, TCP_NODELAY) = getopt k (IPPROTO_TCP, TCP_NODELAY)
    \<and> (\<forall>opt. getopt k' opt \<noteq> getopt k opt \<longrightarrow>
        linux \<and> usable \<and> (\<exists>v. (opt, v) \<in> set tcp_parameters \<and> getopt k' opt = Some v))
    \<and> (linux \<and> usable \<and> (\<forall>(opt, v) \<in> set tcp_parameters. \<forall>k. snd (setsockopt opt v k) = None) \<longrightarrow>
        (\<forall>(opt, v) \<in> set tcp_parameters. getopt k' opt = Some v) \<and> getopt k' (SOL_SOCKET, SO_DEBUG) = Some 1)"
proof -
  let ?set = "fold (\<lambda>(opt, v) k. fst (setsockopt opt v k)) tcp_parameters"
  note only = kernel.set_all_only [OF assms(1), of tcp_parameters k]
    and sets = kernel.set_all_sets [OF assms(1) distinct_parameters, of k]
  have k': "k' = (if linux \<and> usable then ?set k else k)" and er: "er = None"
    using assms(2) by (auto simp: dialed_control setTCPParametersFn_def setTCPParameters_linux_def setTCPParameters_others_def split: if_splits)
  have "\<nexists>v. ((IPPROTO_TCP, TCP_NODELAY), v) \<in> set tcp_parameters" by (simp add: tcp_parameters_def)
  then have "getopt k' (IPPROTO_TCP, TCP_NODELAY) = getopt k (IPPROTO_TCP, TCP_NODELAY)"
    using only [of "(IPPROTO_TCP, TCP_NODELAY)"] by (auto simp: k')
  moreover have "linux \<and> usable \<and> (\<exists>v. (opt, v) \<in> set tcp_parameters \<and> getopt k' opt = Some v)"
    if "getopt k' opt \<noteq> getopt k opt" for opt
    using that only [of opt] by (simp add: k' split: if_splits)
  moreover have "(\<forall>(opt, v) \<in> set tcp_parameters. getopt k' opt = Some v) \<and> getopt k' (SOL_SOCKET, SO_DEBUG) = Some 1"
    if "linux \<and> usable \<and> (\<forall>(opt, v) \<in> set tcp_parameters. \<forall>k. snd (setsockopt opt v k) = None)"
  proof -
    have all: "\<forall>(opt, v) \<in> set tcp_parameters. getopt k' opt = Some v" using that sets by (simp add: k')
    moreover have "((SOL_SOCKET, SO_DEBUG), 1) \<in> set tcp_parameters" by (simp add: tcp_parameters_def)
    ultimately show ?thesis by fastforce
  qed
  ultimately show ?thesis using er by blast
qed

text \<open>
  C10: Readers and servers agree on the routes: what a reader of a test of a known type asks for is
  answered with status 200 by a server, so that the request is measured and adds no error. For every other type
  the request goes to a path without a route and reports two errors, the unknown type and the status.
\<close>

theorem reader_request_answered:
  assumes "router matches" and "request_begin bad_req now t r = (t1, r1, Some ph)"
    and "request_end sent now' (response_of unrouted
        (serve matches False PUT (request_route (c_TestType (t_Config t))) routes)) t1 r1 = (t2, r2)"
    and "unrouted \<noteq> 200"
  shows "r_TXCount r2 = r_TXCount r + 1
    \<and> (if c_TestType (t_Config t) \<in> {StreamTest, RequestTest} then t2 = t \<and> r_hasStats r2
       else r_hasStats r2 = r_hasStats r
        \<and> ({''unknown-signal'', ''invalid-status-code''} \<inter> t_errMap t = {} \<longrightarrow>
            map te_Error (t_errors t2) = map te_Error (t_errors t) @
              [''Unknown test type: '' @ Itoa (test_num (c_TestType (t_Config t))),
               ''Status code was '' @ Itoa unrouted @ '', expected 200 from host '' @ r_addr r]))"
proof -
  let ?ty = "c_TestType (t_Config t)"
  have canon: "canon ''/stream'' = ''/stream''" "canon ''/requests'' = ''/requests''" "canon ''/404'' = ''/404''"
    by code_simp+
  have answer: "response_of unrouted (serve matches False PUT (request_route ?ty) routes) =
      Status (if ?ty \<in> {StreamTest, RequestTest} then 200 else unrouted)"
    by (simp add: router.serve_routes [OF assms(1)] request_route_def canon)
  show ?thesis
  proof (cases "?ty \<in> {StreamTest, RequestTest}")
    case True
    then show ?thesis
      using assms(2,3) unfolding answer
      by (auto simp: request_begin_def request_end_def Let_def split: option.splits if_splits)
  next
    case False
    then show ?thesis
      using assms(2-4) unfolding answer
      by (auto simp: request_begin_def request_end_def AddError_def Let_def split: option.splits if_splits)
  qed
qed

section \<open>Witnesses\<close>

text \<open>A socket with Nagle's algorithm on, and a kernel that takes every option.\<close>

definition demo_socket :: "sockopt \<rightharpoonup> int" where
  "demo_socket = [(IPPROTO_TCP, TCP_NODELAY) \<mapsto> 0]"

theorem dialed_socket_options_witness:
  "(let k' = fst (dl_Control (tr_DialContext (newTransport (demo_setsockopt {}) True True zero_config)) demo_socket)
    in k' (IPPROTO_TCP, TCP_NODELAY) = Some 0 \<and> k' (SOL_SOCKET, SO_DEBUG) = Some 1 \<and> k' (IPPROTO_TCP, TCP_KEEPIDLE) = Some 15)"
proof -
  let ?d = "dl_Control (tr_DialContext (newTransport (demo_setsockopt {}) True True zero_config)) demo_socket"
  have all: "\<forall>(opt, v) \<in> set tcp_parameters. \<forall>k. snd (demo_setsockopt {} opt v k) = None" by (simp add: demo_setsockopt_def)
  have d: "?d = (fst ?d, snd ?d)" by simp
  have idle: "((IPPROTO_TCP, TCP_KEEPIDLE), 15) \<in> set tcp_parameters" by (simp add: tcp_parameters_def)
  from dialed_socket_options [OF demo.kernel_axioms d] all
  have "fst ?d (IPPROTO_TCP, TCP_NODELAY) = demo_socket (IPPROTO_TCP, TCP_NODELAY)"
    and "\<forall>(opt, v) \<in> set tcp_parameters. fst ?d opt = Some v" and "fst ?d (SOL_SOCKET, SO_DEBUG) = Some 1"
    by simp_all
  then show ?thesis using idle by (auto simp: Let_def demo_socket_def)
qed

text \<open>A request of a known type, and one of an unknown type.\<close>

definition asking :: "TestType \<Rightarrow> test" where
  "asking typ = (demo_test ''lat'')\<lparr>t_Config := zero_config\<lparr>c_TestType := typ\<rparr>\<rparr>"

lemma asking_begins:
  "\<exists>t1 r1 ph. request_begin (\<lambda>_. None) 0 (asking typ) (fresh_reader 0 demo_config ''h'') = (t1, r1, Some ph)"
  by (simp add: request_begin_def asking_def cancelled_def demo_test_def empty_test_def Let_def)

theorem reader_request_answered_witness:
  "\<exists>t2 r2. r_hasStats r2 \<and> r_TXCount r2 = 1 \<and> t2 = asking RequestTest
    \<and> (\<exists>t1 r1. request_end 0 5 (response_of 404 (serve fiber_matches False PUT (request_route RequestTest) routes)) t1 r1 = (t2, r2))"
proof -
  let ?r = "fresh_reader 0 demo_config ''h''"
  obtain t1 r1 ph where b: "request_begin (\<lambda>_. None) 0 (asking RequestTest) ?r = (t1, r1, Some ph)"
    using asking_begins by blast
  obtain t2 r2 where e: "request_end 0 5 (response_of 404 (serve fiber_matches False PUT (request_route RequestTest) routes)) t1 r1 = (t2, r2)"
    by fastforce
  have c: "c_TestType (t_Config (asking RequestTest)) = RequestTest" by (simp add: asking_def)
  have "r_TXCount ?r = 0" by (simp add: fresh_reader_def)
  then show ?thesis
    using reader_request_answered [OF fiber.router_axioms b, of 0 5 404 t2 r2] e unfolding c by auto
qed

end
