(* ===== verification/ServerMain.thy ===== *)
theory ServerMain
  imports Server
begin

text \<open>
  The goroutines of the server process that belong to no client, in \<open>startAPIandWS\<close> of \<open>server/server.go\<close>:
  the one that listens, the main loop, which restarts \<open>getServerStats\<close> through the channel
  \<open>routineMonitor\<close> and ends the process when its context is cancelled, and \<open>getServerStats\<close> itself. The
  operating system's answers are the choice of the steps.
\<close>

section \<open>State\<close>

text \<open>The main loop is before its \<open>select\<close>, or between that and the sleep of a second.\<close>

datatype loop_pc = Selecting | Checking

text \<open>A run of \<open>getServerStats\<close> with its id: it collects, or its deferred function waits to send the id back.\<close>

datatype stats_pc = Collecting int | Deferred int

text \<open>
  \<open>m_chan\<close> is the content of \<open>routineMonitor\<close>, whose capacity is 100, \<open>m_err\<close> the named result \<open>err\<close> of
  \<open>startAPIandWS\<close>, which the listening goroutine assigns, and \<open>m_ret\<close> what the function has returned.
\<close>

record monitor =
  m_chan :: "int list"
  m_loop :: loop_pc
  m_stats :: "stats_pc list"
  m_host :: host_stats
  m_listening :: bool
  m_err :: "string option"
  m_cancelled :: bool
  m_ret :: "string option option"

definition monitor_capacity :: nat where "monitor_capacity = 100"

text \<open>After \<open>routineMonitor <- 1\<close>, with the listener started.\<close>

definition init_monitor :: "host_stats \<Rightarrow> monitor" where
  "init_monitor h =
     \<lparr>m_chan = [1], m_loop = Selecting, m_stats = [], m_host = h, m_listening = True, m_err = None,
      m_cancelled = False, m_ret = None\<rparr>"

section \<open>The operations\<close>

text \<open>The \<open>select\<close> with a default: an id that is received is dropped unless it is 1.\<close>

definition loop_select :: "monitor \<Rightarrow> monitor" where
  "loop_select m =
     (case m_chan m of
        [] \<Rightarrow> m\<lparr>m_loop := Checking\<rparr>
      | i # q \<Rightarrow> m\<lparr>m_chan := q, m_loop := Checking,
                 m_stats := (if i = 1 then Collecting i # m_stats m else m_stats m)\<rparr>)"

text \<open>The check of the context: shut down and return, or sleep for a second and go on.\<close>

definition loop_check :: "monitor \<Rightarrow> monitor" where
  "loop_check m = (if m_cancelled m then m\<lparr>m_ret := Some (m_err m)\<rparr> else m\<lparr>m_loop := Selecting\<rparr>)"

definition stats_collect ::
  "nat \<Rightarrow> bool \<Rightarrow> float64 option \<Rightarrow> bytes option \<Rightarrow> float64 list \<Rightarrow> int \<Rightarrow> monitor \<Rightarrow> monitor" where
  "stats_collect k linux mem netdev percent i m =
     m\<lparr>m_host := getServerStats linux mem netdev percent (m_host m), m_stats := (m_stats m)[k := Deferred i]\<rparr>"

definition stats_resend :: "nat \<Rightarrow> int \<Rightarrow> monitor \<Rightarrow> monitor" where
  "stats_resend k i m =
     m\<lparr>m_stats := take k (m_stats m) @ drop (Suc k) (m_stats m), m_chan := m_chan m @ [i]\<rparr>"

definition listen_returns :: "string option \<Rightarrow> monitor \<Rightarrow> monitor" where
  "listen_returns er m = m\<lparr>m_listening := False, m_err := er\<rparr>"

text \<open>Nothing happens any more once \<open>startAPIandWS\<close> has returned: the process ends.\<close>

inductive mstep :: "monitor \<Rightarrow> monitor \<Rightarrow> bool" where
  select: "m_ret m = None \<Longrightarrow> m_loop m = Selecting \<Longrightarrow> mstep m (loop_select m)"
| check: "m_ret m = None \<Longrightarrow> m_loop m = Checking \<Longrightarrow> mstep m (loop_check m)"
| collect: "m_ret m = None \<Longrightarrow> k < length (m_stats m) \<Longrightarrow> m_stats m ! k = Collecting i \<Longrightarrow>
    mstep m (stats_collect k linux mem netdev percent i m)"
| resend: "m_ret m = None \<Longrightarrow> k < length (m_stats m) \<Longrightarrow> m_stats m ! k = Deferred i \<Longrightarrow>
    length (m_chan m) < monitor_capacity \<Longrightarrow> mstep m (stats_resend k i m)"
| listen_ends: "m_ret m = None \<Longrightarrow> m_listening m \<Longrightarrow> mstep m (listen_returns er m)"
| cancel: "m_ret m = None \<Longrightarrow> mstep m (m\<lparr>m_cancelled := True\<rparr>)"


section \<open>The invariant\<close>

fun stats_id :: "stats_pc \<Rightarrow> int" where
  "stats_id (Collecting i) = i"
| "stats_id (Deferred i) = i"

text \<open>One token goes round: it is in the channel or with the only run of \<open>getServerStats\<close>.\<close>

definition monitor_ok :: "monitor \<Rightarrow> bool" where
  "monitor_ok m \<longleftrightarrow> m_chan m @ map stats_id (m_stats m) = [1]
     \<and> (m_err m \<noteq> None \<longrightarrow> \<not> m_listening m) \<and> (m_ret m \<noteq> None \<longrightarrow> m_cancelled m \<and> m_ret m = Some (m_err m))"

lemma monitor_ok_init: "monitor_ok (init_monitor h)"
  by (simp add: monitor_ok_def init_monitor_def)

lemma one_token: "q @ map stats_id ps = [1] \<longleftrightarrow> (q = [1] \<and> ps = []) \<or> (q = [] \<and> (ps = [Collecting 1] \<or> ps = [Deferred 1]))"
proof -
  have "stats_id p = 1 \<longleftrightarrow> p = Collecting 1 \<or> p = Deferred 1" for p by (cases p) auto
  then show ?thesis by (cases q) (auto simp: append_eq_Cons_conv Cons_eq_map_conv)
qed

lemma monitor_ok_step:
  assumes "mstep m m'" and "monitor_ok m"
  shows "monitor_ok m'"
  using assms(1)
proof cases
  case (collect k i linux mem netdev percent)
  then show ?thesis using assms(2) by (auto simp: monitor_ok_def one_token stats_collect_def)
next
  case (resend k i)
  then show ?thesis using assms(2) by (auto simp: monitor_ok_def one_token stats_resend_def)
qed (use assms(2) in \<open>auto simp: monitor_ok_def one_token loop_select_def loop_check_def listen_returns_def split: list.split\<close>)

lemma monitor_ok_reachable: "mstep\<^sup>*\<^sup>* (init_monitor h) m \<Longrightarrow> monitor_ok m"
  by (induction rule: rtranclp_induct) (auto intro: monitor_ok_init monitor_ok_step)

text \<open>What the main loop can do next.\<close>

lemma loop_ends:
  assumes "m_ret m = None" and "m_cancelled m"
  shows "\<exists>m'. mstep\<^sup>*\<^sup>* m m' \<and> m_ret m' = Some (m_err m)"
proof (cases "m_loop m")
  case Checking
  then have "mstep m (loop_check m)" using assms(1) by (simp add: mstep.check)
  then show ?thesis using assms(2) by (auto simp: loop_check_def)
next
  case Selecting
  let ?m = "loop_select m"
  have "mstep m ?m" using assms(1) Selecting by (simp add: mstep.select)
  moreover have m: "m_ret ?m = None" "m_loop ?m = Checking" "m_cancelled ?m" "m_err ?m = m_err m"
    using assms by (simp_all add: loop_select_def split: list.split)
  then have "mstep ?m (loop_check ?m)" by (simp add: mstep.check)
  ultimately show ?thesis using m
    by (intro exI [of _ "loop_check ?m"]) (simp add: loop_check_def rtranclp.rtrancl_into_rtrancl)
qed

lemma loop_collects:
  assumes "m_ret m = None" and "\<not> m_cancelled m" and "m_chan m = [1]" and "m_stats m = []"
  shows "\<exists>m'. mstep\<^sup>*\<^sup>* m m' \<and> m_stats m' = [Collecting 1]"
proof -
  have select: "mstep x (loop_select x) \<and> m_stats (loop_select x) = [Collecting 1]"
    if "m_ret x = None" "m_loop x = Selecting" "m_chan x = [1]" "m_stats x = []" for x
    using mstep.select [OF that(1,2)] that by (simp add: loop_select_def)
  show ?thesis
  proof (cases "m_loop m")
    case Selecting
    then show ?thesis using select [of m] assms by blast
  next
    case Checking
    have "loop_check m = m\<lparr>m_loop := Selecting\<rparr>" using assms(2) by (simp add: loop_check_def)
    then have "mstep m (m\<lparr>m_loop := Selecting\<rparr>)" using mstep.check [OF assms(1) Checking] by simp
    then show ?thesis using select [of "m\<lparr>m_loop := Selecting\<rparr>"] assms
      by (auto intro: rtranclp.rtrancl_into_rtrancl)
  qed
qed

lemma token_returns:
  assumes "m_ret m = None" and "monitor_ok m" and "m_stats m \<noteq> [Collecting 1]"
  shows "\<exists>m'. mstep\<^sup>*\<^sup>* m m' \<and> m_chan m' = [1] \<and> m_stats m' = [] \<and> m_ret m' = None \<and> m_cancelled m' = m_cancelled m"
proof -
  have "(m_chan m = [1] \<and> m_stats m = []) \<or> (m_chan m = [] \<and> m_stats m = [Deferred 1])"
    using assms(2,3) by (auto simp: monitor_ok_def one_token)
  then show ?thesis
  proof
    assume d: "m_chan m = [] \<and> m_stats m = [Deferred 1]"
    then have "mstep m (stats_resend 0 1 m)" using assms(1) by (intro mstep.resend) (simp_all add: monitor_capacity_def)
    then show ?thesis using d assms(1) by (intro exI [of _ "stats_resend 0 1 m"]) (simp add: stats_resend_def)
  qed (use assms(1) in blast)
qed

section \<open>Properties\<close>

text \<open>
  C17: The main goroutine of a server. At most one \<open>getServerStats\<close> runs at a time, no send to
  \<open>routineMonitor\<close> ever finds it full, and until the context is cancelled the statistics can always be
  taken again. The process returns only when its context is cancelled, then with the error of the
  listener: a server that cannot listen on its address goes on without clients and does not end.
\<close>

theorem main_loop_monitors:
  assumes "mstep\<^sup>*\<^sup>* (init_monitor h) m"
  shows "length (m_stats m) + length (m_chan m) = 1
    \<and> (\<forall>r. m_ret m = Some r \<longrightarrow> m_cancelled m \<and> r = m_err m \<and> (r \<noteq> None \<longrightarrow> \<not> m_listening m))
    \<and> (m_ret m = None \<and> \<not> m_cancelled m \<longrightarrow> (\<exists>m'. mstep\<^sup>*\<^sup>* m m' \<and> m_stats m' = [Collecting 1]))
    \<and> (m_ret m = None \<and> m_cancelled m \<longrightarrow> (\<exists>m'. mstep\<^sup>*\<^sup>* m m' \<and> m_ret m' = Some (m_err m)))"
proof -
  have ok: "monitor_ok m" using monitor_ok_reachable [OF assms] .
  then have "length (m_stats m) + length (m_chan m) = 1" by (auto simp: monitor_ok_def one_token)
  moreover have "\<exists>m'. mstep\<^sup>*\<^sup>* m m' \<and> m_stats m' = [Collecting 1]" if r: "m_ret m = None" and c: "\<not> m_cancelled m"
  proof (cases "m_stats m = [Collecting 1]")
    case False
    from token_returns [OF r ok this] obtain m1 where m1: "mstep\<^sup>*\<^sup>* m m1" "m_chan m1 = [1]" "m_stats m1 = []"
      "m_ret m1 = None" "\<not> m_cancelled m1" using c by blast
    from loop_collects [OF m1(4,5,2,3)] m1(1) show ?thesis by (meson rtranclp_trans)
  qed blast
  ultimately show ?thesis using ok loop_ends by (auto simp: monitor_ok_def)
qed

section \<open>Witnesses\<close>

text \<open>The address cannot be bound; later the process is told to end.\<close>

definition unbound :: monitor where
  "unbound = (listen_returns (Some ''bind: address already in use'')
      (init_monitor \<lparr>memPercent = None, droppedPackets = 0, cpuPercent = Fin 0\<rparr>))\<lparr>m_cancelled := True\<rparr>"

theorem main_loop_monitors_witness:
  "m_err unbound = Some ''bind: address already in use''
    \<and> (\<exists>m. mstep\<^sup>*\<^sup>* unbound m \<and> m_ret m = Some (Some ''bind: address already in use''))"
proof -
  let ?h = "\<lparr>memPercent = None, droppedPackets = 0, cpuPercent = Fin 0\<rparr>"
  let ?m = "listen_returns (Some ''bind: address already in use'') (init_monitor ?h)"
  have "mstep (init_monitor ?h) ?m" by (rule mstep.listen_ends) (simp_all add: init_monitor_def)
  moreover have "mstep ?m (?m\<lparr>m_cancelled := True\<rparr>)"
    by (rule mstep.cancel) (simp add: init_monitor_def listen_returns_def)
  ultimately have "mstep\<^sup>*\<^sup>* (init_monitor ?h) unbound" by (simp add: unbound_def rtranclp.rtrancl_into_rtrancl)
  moreover have "m_ret unbound = None" "m_cancelled unbound" "m_err unbound = Some ''bind: address already in use''"
    by (simp_all add: unbound_def listen_returns_def init_monitor_def)
  ultimately show ?thesis using main_loop_monitors [of ?h unbound] by auto
qed

end
