(* ===== verification/Cli.thy ===== *)
theory Cli
  imports ClientCommands SharedHosts
begin

text \<open>
  The command line, \<open>cmd/hperf/*.go\<close>: the flags of the commands, the configuration they parse to and
  the calls of the client that a command makes with it. The \<open>minio/cli\<close> package is the record
  \<open>cli_ctx\<close> of the values that it looks up. A command is a \<open>program\<close>, the tree of the calls
  that it makes on the client and of what it does with their results; the help texts, the debug output
  of \<open>prettyprint\<close> and the context that an OS signal cancels are left out.
\<close>

section \<open>Flags and globals\<close>

text \<open>What the methods \<open>Bool\<close>, \<open>BoolT\<close>, \<open>Int\<close> and \<open>String\<close> of a context return for a flag.\<close>

record cli_ctx =
  cx_Command :: string
  cx_Bool :: "string \<Rightarrow> bool"
  cx_BoolT :: "string \<Rightarrow> bool"
  cx_Int :: "string \<Rightarrow> int"
  cx_String :: "string \<Rightarrow> string"

text \<open>
  The outside of \<open>ParseHosts\<close>, the time in seconds, the number of processors the runtime uses and the
  working directory.
\<close>

record cli_env =
  ce_read :: "string \<Rightarrow> bytes option"
  ce_has_ell :: "string \<Rightarrow> bool"
  ce_find_ell :: "string \<Rightarrow> string + ArgPattern"
  ce_is_ip :: "string \<Rightarrow> bool"
  ce_lookup :: "string \<Rightarrow> string + string list"
  ce_Unix :: int
  ce_GOMAXPROCS :: int
  ce_Getwd :: string

record globals =
  g_debug :: bool
  g_insecure :: bool

definition before :: "cli_ctx \<Rightarrow> globals" where
  "before ctx = \<lparr>g_debug = cx_Bool ctx ''debug'', g_insecure = cx_Bool ctx ''insecure''\<rparr>"

section \<open>Configuration\<close>

definition base_config :: "globals \<Rightarrow> cli_ctx \<Rightarrow> string list \<Rightarrow> Config" where
  "base_config g ctx hosts =
     \<lparr>c_Debug = g_debug g,
      c_Port = cx_String ctx ''port'',
      c_Concurrency = cx_Int ctx ''concurrency'',
      c_PayloadSize = cx_Int ctx ''payload-size'',
      c_BufferSize = cx_Int ctx ''buffer-size'',
      c_Duration = cx_Int ctx ''duration'',
      c_RequestDelay = cx_Int ctx ''request-delay'',
      c_Hosts = hosts,
      c_RestartOnError = cx_BoolT ctx ''restart-on-error'',
      c_DialTimeout = 0,
      c_TestID = cx_String ctx ''id'',
      c_Save = cx_BoolT ctx ''save'',
      c_Insecure = g_insecure g,
      c_TestType = RequestTest,
      c_File = cx_String ctx ''file'',
      c_ResolveHosts = [],
      c_PrintStats = cx_Bool ctx ''print-stats'',
      c_PrintAll = cx_Bool ctx ''print-all'',
      c_PrintErrors = cx_Bool ctx ''print-errors'',
      c_Sort = cx_String ctx ''sort'',
      c_Micro = cx_Bool ctx ''micro'',
      c_HostFilter = cx_String ctx ''host-filter''\<rparr>"

text \<open>The \<open>switch\<close> on the name of the command: the configuration and the error it ends with.\<close>

definition command_checks :: "cli_env \<Rightarrow> cli_ctx \<Rightarrow> Config \<Rightarrow> Config \<times> string option" where
  "command_checks env ctx c =
     (if cx_Command ctx \<in> {''latency'', ''bandwidth'', ''http'', ''get''} then
        (if cx_String ctx ''id'' = [] then c\<lparr>c_TestID := Itoa (ce_Unix env)\<rparr> else c, None)
      else if cx_Command ctx = ''download'' then
        (let err = (if cx_String ctx ''id'' = [] then Some ''--id is required'' else None)
         in (c, if cx_String ctx ''file'' = [] then Some ''--file is required'' else err))
      else if cx_Command ctx = ''analyze'' then
        (c, if cx_String ctx ''file'' = [] then Some ''--file is required'' else None)
      else (c, None))"

text \<open>
  \<open>Error m\<close> is the exit error with the text \<open>m\<close> and the status 1. The source also computes a value
  from the number of processors when the flag \<open>concurrency\<close> is 0, which it does not use.
\<close>

definition parseConfig :: "cli_env \<Rightarrow> globals \<Rightarrow> cli_ctx \<Rightarrow> Config outcome" where
  "parseConfig env g ctx =
     (case ParseHosts (ce_read env) (ce_has_ell env) (ce_find_ell env) (ce_is_ip env) (ce_lookup env)
             (cx_String ctx ''hosts'') (cx_String ctx ''dns-server'') of
        Error e \<Rightarrow> Error e
      | Panic p \<Rightarrow> Panic p
      | Return hosts \<Rightarrow>
          (case command_checks env ctx (base_config g ctx hosts) of
             (c, Some e) \<Rightarrow> Error e
           | (c, None) \<Rightarrow> Return c))"

section \<open>Commands\<close>

text \<open>An error with an exit status of its own, made by \<open>cli.NewExitError\<close>, or any other error.\<close>

datatype cli_error = ExitError string int | PlainError string

datatype client_op =
    CallRunTest Config | CallAnalyzeBandwidthTest Config | CallAnalyzeLatencyTest Config
  | CallAnalyzeTest Config | CallMakeCSV Config | CallListen Config | CallStop Config
  | CallListTests Config | CallDeleteTests Config | CallDownloadTest Config
  | CallRunServer string string string

text \<open>
  What a command does: print a line, call the client and go on with the error that it returns, panic,
  or return.
\<close>

datatype program =
    Ret "cli_error option"
  | Crash string
  | Say string program
  | Call client_op "string option \<Rightarrow> program"

text \<open>The first lines of every command: the configuration, or an exit error with its text.\<close>

definition with_config :: "cli_env \<Rightarrow> globals \<Rightarrow> cli_ctx \<Rightarrow> (Config \<Rightarrow> program) \<Rightarrow> program" where
  "with_config env g ctx body =
     (case parseConfig env g ctx of
        Return c \<Rightarrow> body c
      | Error e \<Rightarrow> Ret (Some (ExitError e 1))
      | Panic p \<Rightarrow> Crash p)"

text \<open>The two ways to return the error of a call: as it is, or as an exit error.\<close>

definition plain :: "string option \<Rightarrow> program" where
  "plain e = Ret (map_option PlainError e)"

definition or_exit :: "program \<Rightarrow> string option \<Rightarrow> program" where
  "or_exit p e = (case e of Some m \<Rightarrow> Ret (Some (ExitError m 1)) | None \<Rightarrow> p)"

definition runBandwidth :: "cli_env \<Rightarrow> globals \<Rightarrow> cli_ctx \<Rightarrow> program" where
  "runBandwidth env g ctx = with_config env g ctx (\<lambda>c0.
     let c = c0\<lparr>c_TestType := StreamTest, c_BufferSize := 32000, c_PayloadSize := 32000,
                c_RequestDelay := 0, c_RestartOnError := True\<rparr>
     in Say [] (Say ('' Test ID: '' @ c_TestID c) (Say []
          (Call (CallRunTest c)
             (or_exit (Say [] (Say '' Testing finished..'' (Call (CallAnalyzeBandwidthTest c) plain))))))))"

definition runLatency :: "cli_env \<Rightarrow> globals \<Rightarrow> cli_ctx \<Rightarrow> program" where
  "runLatency env g ctx = with_config env g ctx (\<lambda>c0.
     let c = c0\<lparr>c_TestType := RequestTest, c_BufferSize := 1000, c_PayloadSize := 1000,
                c_Concurrency := 1, c_RequestDelay := 200, c_RestartOnError := True\<rparr>
     in Say [] (Say ('' Test ID: '' @ c_TestID c) (Say []
          (Call (CallRunTest c)
             (or_exit (Say [] (Say '' Testing finished ..'' (Call (CallAnalyzeLatencyTest c) plain))))))))"

text \<open>\<open>runRequests\<close> and \<open>runStream\<close> belong to no command.\<close>

definition runRequests :: "cli_env \<Rightarrow> globals \<Rightarrow> cli_ctx \<Rightarrow> program" where
  "runRequests env g ctx = with_config env g ctx (\<lambda>c.
     Call (CallRunTest (c\<lparr>c_TestType := RequestTest\<rparr>)) (or_exit (Ret None)))"

definition runStream :: "cli_env \<Rightarrow> globals \<Rightarrow> cli_ctx \<Rightarrow> program" where
  "runStream env g ctx = with_config env g ctx (\<lambda>c. Call (CallRunTest (c\<lparr>c_TestType := StreamTest\<rparr>)) plain)"

definition runListen :: "cli_env \<Rightarrow> globals \<Rightarrow> cli_ctx \<Rightarrow> program" where
  "runListen env g ctx = with_config env g ctx (\<lambda>c. Call (CallListen (c\<lparr>c_Duration := 0\<rparr>)) plain)"

definition runStop :: "cli_env \<Rightarrow> globals \<Rightarrow> cli_ctx \<Rightarrow> program" where
  "runStop env g ctx = with_config env g ctx (\<lambda>c. Call (CallStop c) plain)"

definition runList :: "cli_env \<Rightarrow> globals \<Rightarrow> cli_ctx \<Rightarrow> program" where
  "runList env g ctx = with_config env g ctx (\<lambda>c. Call (CallListTests c) plain)"

definition runDelete :: "cli_env \<Rightarrow> globals \<Rightarrow> cli_ctx \<Rightarrow> program" where
  "runDelete env g ctx = with_config env g ctx (\<lambda>c. Call (CallDeleteTests c) plain)"

definition runDownload :: "cli_env \<Rightarrow> globals \<Rightarrow> cli_ctx \<Rightarrow> program" where
  "runDownload env g ctx = with_config env g ctx (\<lambda>c. Call (CallDownloadTest c) (or_exit (Ret None)))"

definition runAnalyze :: "cli_env \<Rightarrow> globals \<Rightarrow> cli_ctx \<Rightarrow> program" where
  "runAnalyze env g ctx = with_config env g ctx (\<lambda>c. Call (CallAnalyzeTest c) plain)"

definition runCSV :: "cli_env \<Rightarrow> globals \<Rightarrow> cli_ctx \<Rightarrow> program" where
  "runCSV env g ctx = with_config env g ctx (\<lambda>c. Call (CallMakeCSV c) plain)"

text \<open>\<open>runServer\<close> parses no configuration.\<close>

definition runServer :: "cli_env \<Rightarrow> globals \<Rightarrow> cli_ctx \<Rightarrow> program" where
  "runServer env g ctx =
     Call (CallRunServer (cx_String ctx ''address'') (cx_String ctx ''real-ip'') (cx_String ctx ''storage-path''))
       (or_exit (Ret None))"

section \<open>Flags\<close>

text \<open>A flag with its name, the environment variable that sets it and its value without either.\<close>

datatype flag =
    StringFlag (f_Name: string) (f_EnvVar: string) string
  | IntFlag (f_Name: string) (f_EnvVar: string) int
  | BoolFlag (f_Name: string) (f_EnvVar: string)
  | BoolTFlag (f_Name: string) (f_EnvVar: string)

definition hostsFlag :: "flag" where "hostsFlag = StringFlag ''hosts'' ''HPERF_HOSTS'' []"
definition portFlag :: "flag" where "portFlag = StringFlag ''port'' ''HPERF_PORT'' ''9010''"
definition insecureFlag :: "flag" where "insecureFlag = BoolTFlag ''insecure'' ''HPERF_INSECURE''"
definition debugFlag :: "flag" where "debugFlag = BoolFlag ''debug'' ''HPERF_DEBUG''"
definition concurrencyFlag :: "cli_env \<Rightarrow> flag" where
  "concurrencyFlag env = IntFlag ''concurrency'' ''HPERF_CONCURRENCY'' (ce_GOMAXPROCS env * 2)"
definition delayFlag :: "flag" where "delayFlag = IntFlag ''request-delay'' ''HPERF_REQUEST_DELAY'' 0"
definition durationFlag :: "flag" where "durationFlag = IntFlag ''duration'' ''HPERF_DURATION'' 30"
definition bufferSizeFlag :: "flag" where "bufferSizeFlag = IntFlag ''buffer-size'' ''HPERF_BUFFER_SIZE'' 32000"
definition payloadSizeFlag :: "flag" where "payloadSizeFlag = IntFlag ''payload-size'' ''HPERF_PAYLOAD_SIZE'' 1000000"
definition restartOnErrorFlag :: "flag" where "restartOnErrorFlag = BoolTFlag ''restart-on-error'' ''HPERF_RESTART_ON_ERROR''"
definition testIDFlag :: "flag" where "testIDFlag = StringFlag ''id'' [] []"
definition fileFlag :: "flag" where "fileFlag = StringFlag ''file'' [] []"
definition saveTestFlag :: "flag" where "saveTestFlag = BoolTFlag ''save'' ''HPERF_SAVE''"
definition dnsServerFlag :: "flag" where "dnsServerFlag = StringFlag ''dns-server'' ''HPERF_DNS_SERVER'' []"
definition printStatsFlag :: "flag" where "printStatsFlag = BoolFlag ''print-stats'' []"
definition printAllFlag :: "flag" where "printAllFlag = BoolFlag ''print-all'' []"
definition microSecondsFlag :: "flag" where "microSecondsFlag = BoolFlag ''micro'' []"
definition sortFlag :: "flag" where "sortFlag = StringFlag ''sort'' [] []"
definition printErrFlag :: "flag" where "printErrFlag = BoolFlag ''print-errors'' []"
definition hostFilterFlag :: "flag" where "hostFilterFlag = StringFlag ''host-filter'' [] []"
definition addressFlag :: "flag" where "addressFlag = StringFlag ''address'' ''HPERF_ADDRESS'' ''0.0.0.0:9010''"
definition realIPFlag :: "flag" where "realIPFlag = StringFlag ''real-ip'' ''HPERF_REAL_IP'' []"
definition storagePathFlag :: "cli_env \<Rightarrow> flag" where
  "storagePathFlag env = StringFlag ''storage-path'' ''HPERF_STORAGE_PATH'' (ce_Getwd env)"

lemmas flag_defs =
  hostsFlag_def portFlag_def insecureFlag_def debugFlag_def concurrencyFlag_def delayFlag_def
  durationFlag_def bufferSizeFlag_def payloadSizeFlag_def restartOnErrorFlag_def testIDFlag_def
  fileFlag_def saveTestFlag_def dnsServerFlag_def printStatsFlag_def printAllFlag_def
  microSecondsFlag_def sortFlag_def printErrFlag_def hostFilterFlag_def addressFlag_def
  realIPFlag_def storagePathFlag_def

text \<open>The flags before the command.\<close>

definition baseFlags :: "flag list" where "baseFlags = [debugFlag, insecureFlag]"

section \<open>The table of commands\<close>

record Command =
  cmd_Name :: string
  cmd_Action :: "cli_env \<Rightarrow> globals \<Rightarrow> cli_ctx \<Rightarrow> program"
  cmd_Flags :: "cli_env \<Rightarrow> flag list"

definition analyzeCMD :: Command where
  "analyzeCMD = \<lparr>cmd_Name = ''analyze'', cmd_Action = runAnalyze,
     cmd_Flags = (\<lambda>env. [dnsServerFlag, hostsFlag, portFlag, fileFlag, printStatsFlag,
       printErrFlag, sortFlag, microSecondsFlag, hostFilterFlag])\<rparr>"

definition bandwidthCMD :: Command where
  "bandwidthCMD = \<lparr>cmd_Name = ''bandwidth'', cmd_Action = runBandwidth,
     cmd_Flags = (\<lambda>env. [hostsFlag, portFlag, durationFlag, saveTestFlag, testIDFlag,
       concurrencyFlag env, dnsServerFlag, microSecondsFlag, printAllFlag])\<rparr>"

definition csvCMD :: Command where
  "csvCMD = \<lparr>cmd_Name = ''csv'', cmd_Action = runCSV,
     cmd_Flags = (\<lambda>env. [fileFlag])\<rparr>"

definition deleteCMD :: Command where
  "deleteCMD = \<lparr>cmd_Name = ''delete'', cmd_Action = runDelete,
     cmd_Flags = (\<lambda>env. [dnsServerFlag, hostsFlag, portFlag, testIDFlag])\<rparr>"

definition latency :: Command where
  "latency = \<lparr>cmd_Name = ''latency'', cmd_Action = runLatency,
     cmd_Flags = (\<lambda>env. [hostsFlag, portFlag, durationFlag, testIDFlag, saveTestFlag,
       dnsServerFlag, microSecondsFlag, printAllFlag])\<rparr>"

definition listenCMD :: Command where
  "listenCMD = \<lparr>cmd_Name = ''listen'', cmd_Action = runListen,
     cmd_Flags = (\<lambda>env. [dnsServerFlag, hostsFlag, portFlag, testIDFlag])\<rparr>"

definition listTestsCMD :: Command where
  "listTestsCMD = \<lparr>cmd_Name = ''list'', cmd_Action = runList,
     cmd_Flags = (\<lambda>env. [dnsServerFlag, hostsFlag, portFlag, testIDFlag])\<rparr>"

definition requestsCMD :: Command where
  "requestsCMD = \<lparr>cmd_Name = ''requests'', cmd_Action = runLatency,
     cmd_Flags = (\<lambda>env. [hostsFlag, portFlag, concurrencyFlag env, delayFlag, durationFlag,
       bufferSizeFlag, payloadSizeFlag, restartOnErrorFlag, testIDFlag, saveTestFlag, dnsServerFlag,
       microSecondsFlag])\<rparr>"

definition serverCMD :: Command where
  "serverCMD = \<lparr>cmd_Name = ''server'', cmd_Action = runServer,
     cmd_Flags = (\<lambda>env. [addressFlag, realIPFlag, storagePathFlag env, debugFlag])\<rparr>"

definition statDownloadCMD :: Command where
  "statDownloadCMD = \<lparr>cmd_Name = ''download'', cmd_Action = runDownload,
     cmd_Flags = (\<lambda>env. [dnsServerFlag, hostsFlag, portFlag, testIDFlag, fileFlag])\<rparr>"

text \<open>\<open>streamCMD\<close> is not among the commands.\<close>

definition streamCMD :: Command where
  "streamCMD = \<lparr>cmd_Name = ''stream'', cmd_Action = runStream,
     cmd_Flags = (\<lambda>env. [hostsFlag, portFlag, concurrencyFlag env, durationFlag, testIDFlag, bufferSizeFlag,
       payloadSizeFlag, restartOnErrorFlag, dnsServerFlag, saveTestFlag])\<rparr>"

definition stopCMD :: Command where
  "stopCMD = \<lparr>cmd_Name = ''stop'', cmd_Action = runStop,
     cmd_Flags = (\<lambda>env. [dnsServerFlag, hostsFlag, portFlag, testIDFlag])\<rparr>"

definition Commands :: "Command list" where
  "Commands = [analyzeCMD, bandwidthCMD, csvCMD, deleteCMD, latency, listenCMD, listTestsCMD, requestsCMD,
     serverCMD, statDownloadCMD, stopCMD]"

text \<open>The registered command of a name, with its context.\<close>

definition invoke :: "cli_env \<Rightarrow> globals \<Rightarrow> cli_ctx \<Rightarrow> program option" where
  "invoke env g ctx = map_option (\<lambda>cmd. cmd_Action cmd env g ctx) (find (\<lambda>cmd. cmd_Name cmd = cx_Command ctx) Commands)"

section \<open>Running a program\<close>

text \<open>\<open>ans\<close> is the error that each call returns.\<close>

primrec calls :: "(client_op \<Rightarrow> string option) \<Rightarrow> program \<Rightarrow> client_op list" where
  "calls ans (Ret e) = []"
| "calls ans (Crash m) = []"
| "calls ans (Say l p) = calls ans p"
| "calls ans (Call op k) = op # calls ans (k (ans op))"

primrec result :: "(client_op \<Rightarrow> string option) \<Rightarrow> program \<Rightarrow> string + cli_error option" where
  "result ans (Ret e) = Inr e"
| "result ans (Crash m) = Inl m"
| "result ans (Say l p) = result ans p"
| "result ans (Call op k) = result ans (k (ans op))"

text \<open>
  How the process ends. Without a registered command the action of the application shows the help and
  exits with 1, and so does an exit error with its status; \<open>main\<close> drops the error that \<open>Run\<close> returns.
\<close>

definition exit_status :: "(client_op \<Rightarrow> string option) \<Rightarrow> program option \<Rightarrow> int" where
  "exit_status ans p =
     (case p of
        None \<Rightarrow> 1
      | Some p \<Rightarrow>
          (case result ans p of
             Inl panic \<Rightarrow> 2
           | Inr (Some (ExitError m status)) \<Rightarrow> status
           | Inr _ \<Rightarrow> 0))"

lemma exec_or_exit [simp]:
  "calls ans (or_exit p e) = (if e = None then calls ans p else [])"
  "result ans (or_exit p e) = (case e of None \<Rightarrow> result ans p | Some m \<Rightarrow> Inr (Some (ExitError m 1)))"
  by (auto simp: or_exit_def split: option.split)

lemma exec_plain [simp]: "calls ans (plain e) = []" "result ans (plain e) = Inr (map_option PlainError e)"
  by (simp_all add: plain_def)

lemmas run_defs =
  runBandwidth_def runLatency_def runListen_def runStop_def runList_def runDelete_def runDownload_def
  runAnalyze_def runCSV_def runServer_def

lemmas command_defs =
  analyzeCMD_def bandwidthCMD_def csvCMD_def deleteCMD_def latency_def listenCMD_def listTestsCMD_def
  requestsCMD_def serverCMD_def statDownloadCMD_def stopCMD_def

lemma invoke_simps:
  "invoke env g ctx =
    (if cx_Command ctx = ''analyze'' then Some (runAnalyze env g ctx)
     else if cx_Command ctx = ''bandwidth'' then Some (runBandwidth env g ctx)
     else if cx_Command ctx = ''csv'' then Some (runCSV env g ctx)
     else if cx_Command ctx = ''delete'' then Some (runDelete env g ctx)
     else if cx_Command ctx \<in> {''latency'', ''requests''} then Some (runLatency env g ctx)
     else if cx_Command ctx = ''listen'' then Some (runListen env g ctx)
     else if cx_Command ctx = ''list'' then Some (runList env g ctx)
     else if cx_Command ctx = ''server'' then Some (runServer env g ctx)
     else if cx_Command ctx = ''download'' then Some (runDownload env g ctx)
     else if cx_Command ctx = ''stop'' then Some (runStop env g ctx)
     else None)"
  by (auto simp: invoke_def Commands_def command_defs)

text \<open>The hosts of a command, and how the configuration depends on the flags.\<close>

definition hosts_of :: "cli_env \<Rightarrow> cli_ctx \<Rightarrow> string list outcome" where
  "hosts_of env ctx =
     ParseHosts (ce_read env) (ce_has_ell env) (ce_find_ell env) (ce_is_ip env) (ce_lookup env)
       (cx_String ctx ''hosts'') (cx_String ctx ''dns-server'')"

lemma parseConfig_hosts:
  "parseConfig env g ctx =
    bind_outcome (hosts_of env ctx) (\<lambda>hosts.
      case command_checks env ctx (base_config g ctx hosts) of (c, Some e) \<Rightarrow> Error e | (c, None) \<Rightarrow> Return c)"
  by (cases "hosts_of env ctx") (simp_all add: parseConfig_def hosts_of_def)

lemma parsed_fields:
  assumes "parseConfig env g ctx = Return c"
  shows "hosts_of env ctx = Return (c_Hosts c)" "c_Save c = cx_BoolT ctx ''save''" "c_Port c = cx_String ctx ''port''"
    "c_Concurrency c = cx_Int ctx ''concurrency''"
    "cx_Command ctx \<notin> {''latency'', ''bandwidth'', ''http'', ''get''} \<Longrightarrow> c_TestID c = cx_String ctx ''id''"
    "c_Duration c = cx_Int ctx ''duration''" "c_RestartOnError c = cx_BoolT ctx ''restart-on-error''"
  using assms by (cases "hosts_of env ctx";
      force simp: parseConfig_hosts command_checks_def base_config_def Let_def split: if_splits)+

text \<open>The configurations that \<open>RunTest\<close> is called with.\<close>

definition bandwidth_config :: "Config \<Rightarrow> Config" where
  "bandwidth_config c = c\<lparr>c_TestType := StreamTest, c_BufferSize := 32000, c_PayloadSize := 32000,
     c_RequestDelay := 0, c_RestartOnError := True\<rparr>"

definition latency_config :: "Config \<Rightarrow> Config" where
  "latency_config c = c\<lparr>c_TestType := RequestTest, c_BufferSize := 1000, c_PayloadSize := 1000,
     c_Concurrency := 1, c_RequestDelay := 200, c_RestartOnError := True\<rparr>"

lemma called_config:
  assumes "invoke env g ctx = Some p" and "CallRunTest c \<in> set (calls ans p)"
  obtains c0 where "parseConfig env g ctx = Return c0"
    and "c = (if cx_Command ctx = ''bandwidth'' then bandwidth_config c0 else latency_config c0)"
    and "cx_Command ctx \<in> {''bandwidth'', ''latency'', ''requests''}"
proof (cases "parseConfig env g ctx")
  case (Return c0)
  consider "cx_Command ctx = ''bandwidth''" | "cx_Command ctx \<in> {''latency'', ''requests''}"
    using assms Return by (auto simp: invoke_simps run_defs with_config_def Let_def split: if_splits)
  then show ?thesis
  proof cases
    case 1
    then have "p = runBandwidth env g ctx" using assms(1) by (simp add: invoke_simps)
    then have "c = bandwidth_config c0"
      using assms(2) by (simp add: runBandwidth_def with_config_def Return Let_def bandwidth_config_def split: if_splits)
    with 1 show ?thesis by (intro that [OF Return]) auto
  next
    case 2
    then have "p = runLatency env g ctx" using assms(1) by (auto simp: invoke_simps)
    then have "c = latency_config c0"
      using assms(2) by (simp add: runLatency_def with_config_def Return Let_def latency_config_def split: if_splits)
    with 2 show ?thesis by (intro that [OF Return]) auto
  qed
qed (use assms in \<open>auto simp: invoke_simps run_defs with_config_def split: if_splits\<close>)

section \<open>Looking up flags\<close>

text \<open>
  What the package promises of a context: a flag that is not given, on the command line or in the
  environment, has its default, and a flag that the command does not declare has the zero value of
  its type, \<open>false\<close> also for \<open>BoolT\<close>.
\<close>

locale cli_lookup =
  fixes flags :: "flag list" and given :: "string set" and ctx :: cli_ctx
  assumes default_String: "StringFlag n e v \<in> set flags \<Longrightarrow> n \<notin> given \<Longrightarrow> cx_String ctx n = v"
    and default_Int: "IntFlag n e i \<in> set flags \<Longrightarrow> n \<notin> given \<Longrightarrow> cx_Int ctx n = i"
    and default_Bool: "BoolFlag n e \<in> set flags \<Longrightarrow> n \<notin> given \<Longrightarrow> \<not> cx_Bool ctx n"
    and default_BoolT: "BoolTFlag n e \<in> set flags \<Longrightarrow> n \<notin> given \<Longrightarrow> cx_BoolT ctx n"
    and undeclared: "n \<notin> f_Name ` set flags \<Longrightarrow>
      cx_String ctx n = [] \<and> cx_Int ctx n = 0 \<and> \<not> cx_Bool ctx n \<and> \<not> cx_BoolT ctx n"
begin

lemma undeclared_config:
  assumes "parseConfig env g ctx = Return c"
  shows "''duration'' \<notin> f_Name ` set flags \<Longrightarrow> c_Duration c = 0"
    and "''save'' \<notin> f_Name ` set flags \<Longrightarrow> \<not> c_Save c"
    and "''concurrency'' \<notin> f_Name ` set flags \<Longrightarrow> c_Concurrency c = 0"
    and "''restart-on-error'' \<notin> f_Name ` set flags \<Longrightarrow> \<not> c_RestartOnError c"
  using parsed_fields [OF assms] undeclared by simp_all

lemma default_config:
  assumes "parseConfig env g ctx = Return c" and "n \<notin> given"
  shows "IntFlag n e i \<in> set flags \<Longrightarrow> n = ''duration'' \<Longrightarrow> c_Duration c = i"
    and "IntFlag n e i \<in> set flags \<Longrightarrow> n = ''concurrency'' \<Longrightarrow> c_Concurrency c = i"
    and "BoolTFlag n e \<in> set flags \<Longrightarrow> n = ''save'' \<Longrightarrow> c_Save c"
    and "StringFlag n e v \<in> set flags \<Longrightarrow> n = ''port'' \<Longrightarrow> c_Port c = v"
  using parsed_fields [OF assms(1)] default_Int default_BoolT default_String assms(2) by auto

end

text \<open>The lookup of a command line that gives values to some string flags.\<close>

definition declared :: "flag list \<Rightarrow> string \<Rightarrow> flag option" where
  "declared flags n = find (\<lambda>f. f_Name f = n) flags"

definition command_line :: "cli_env \<Rightarrow> Command \<Rightarrow> (string \<rightharpoonup> string) \<Rightarrow> cli_ctx" where
  "command_line env cmd args =
     \<lparr>cx_Command = cmd_Name cmd, cx_Bool = (\<lambda>n. False),
      cx_BoolT = (\<lambda>n. case declared (cmd_Flags cmd env) n of Some (BoolTFlag _ _) \<Rightarrow> True | _ \<Rightarrow> False),
      cx_Int = (\<lambda>n. case declared (cmd_Flags cmd env) n of Some (IntFlag _ _ i) \<Rightarrow> i | _ \<Rightarrow> 0),
      cx_String = (\<lambda>n. case declared (cmd_Flags cmd env) n of
          Some (StringFlag _ _ v) \<Rightarrow> (case args n of Some w \<Rightarrow> w | None \<Rightarrow> v)
        | _ \<Rightarrow> [])\<rparr>"

lemma declared_flag: "distinct (map f_Name flags) \<Longrightarrow> f \<in> set flags \<Longrightarrow> declared flags (f_Name f) = Some f"
  by (induction flags) (auto simp: declared_def)

lemma declared_None: "n \<notin> f_Name ` set flags \<Longrightarrow> declared flags n = None"
  by (induction flags) (auto simp: declared_def)

lemma command_line_lookup:
  assumes "distinct (map f_Name (cmd_Flags cmd env))"
  shows "cli_lookup (cmd_Flags cmd env) (dom args) (command_line env cmd args)"
proof
  note d = declared_flag [OF assms]
  show "cx_String (command_line env cmd args) n = v" if "StringFlag n e v \<in> set (cmd_Flags cmd env)" "n \<notin> dom args" for n e v
    using d [OF that(1)] that(2) by (simp add: command_line_def domIff)
  show "cx_Int (command_line env cmd args) n = i" if "IntFlag n e i \<in> set (cmd_Flags cmd env)" for n e i
    using d [OF that(1)] by (simp add: command_line_def)
  show "cx_BoolT (command_line env cmd args) n" if "BoolTFlag n e \<in> set (cmd_Flags cmd env)" for n e
    using d [OF that(1)] by (simp add: command_line_def)
qed (simp_all add: command_line_def declared_None)

text \<open>A command that declares no duration, and one that starts a test.\<close>

interpretation download: cli_lookup "cmd_Flags statDownloadCMD env" "dom args" "command_line env statDownloadCMD args"
  for env args
  by (rule command_line_lookup) (simp add: statDownloadCMD_def flag_defs)

interpretation bandwidth: cli_lookup "cmd_Flags bandwidthCMD env" "dom args" "command_line env bandwidthCMD args"
  for env args
  by (rule command_line_lookup) (simp add: bandwidthCMD_def flag_defs)

section \<open>Properties\<close>

text \<open>
  C33: The command \<open>requests\<close> is the command \<open>latency\<close>: with an identifier it runs the same program. Its
  flags \<open>concurrency\<close>, \<open>request-delay\<close>, \<open>buffer-size\<close>, \<open>payload-size\<close> and \<open>restart-on-error\<close>, whose use
  its own examples show, change nothing at all in what it does.
\<close>

theorem requests_is_latency:
  assumes "cx_Command ctx = ''requests''"
  shows "invoke env g ctx = invoke env g (ctx\<lparr>
      cx_Int := (cx_Int ctx)(''concurrency'' := n1, ''request-delay'' := n2, ''buffer-size'' := n3, ''payload-size'' := n4),
      cx_BoolT := (cx_BoolT ctx)(''restart-on-error'' := b)\<rparr>)
    \<and> (cx_String ctx ''id'' \<noteq> [] \<longrightarrow> invoke env g ctx = invoke env g (ctx\<lparr>cx_Command := ''latency''\<rparr>))"
proof (intro conjI impI)
  show "invoke env g ctx = invoke env g (ctx\<lparr>
      cx_Int := (cx_Int ctx)(''concurrency'' := n1, ''request-delay'' := n2, ''buffer-size'' := n3, ''payload-size'' := n4),
      cx_BoolT := (cx_BoolT ctx)(''restart-on-error'' := b)\<rparr>)"
    by (cases "hosts_of env ctx"; simp add: assms invoke_simps runLatency_def with_config_def parseConfig_hosts hosts_of_def command_checks_def base_config_def)
  show "invoke env g ctx = invoke env g (ctx\<lparr>cx_Command := ''latency''\<rparr>)" if "cx_String ctx ''id'' \<noteq> []"
    using that by (cases "hosts_of env ctx"; simp add: assms invoke_simps runLatency_def with_config_def parseConfig_hosts hosts_of_def command_checks_def base_config_def)
qed

text \<open>
  Which commands are refused: the configuration is returned exactly if the hosts parse and, for
  \<open>download\<close>, there are an identifier and a file, for \<open>analyze\<close> a file; when both are missing only the
  file is reported. A test that is started by \<open>latency\<close> or \<open>bandwidth\<close> always has an
  identifier. A configuration keeps the hosts of the command line and never has
  a dial timeout.
\<close>

lemma parseConfig_checks:
  "(case parseConfig env g ctx of
      Return c \<Rightarrow> hosts_of env ctx = Return (c_Hosts c) \<and> c_DialTimeout c = 0
        \<and> (cx_Command ctx = ''download'' \<longrightarrow> c_TestID c \<noteq> [] \<and> c_File c \<noteq> [])
        \<and> (cx_Command ctx = ''analyze'' \<longrightarrow> c_File c \<noteq> [])
        \<and> (cx_Command ctx \<in> {''latency'', ''bandwidth''} \<longrightarrow>
             c_TestID c = (if cx_String ctx ''id'' = [] then Itoa (ce_Unix env) else cx_String ctx ''id''))
        \<and> (cx_Command ctx \<notin> {''latency'', ''bandwidth'', ''http'', ''get''} \<longrightarrow> c_TestID c = cx_String ctx ''id'')
    | Error e \<Rightarrow> hosts_of env ctx = Error e
        \<or> cx_Command ctx \<in> {''download'', ''analyze''} \<and> cx_String ctx ''file'' = [] \<and> e = ''--file is required''
        \<or> cx_Command ctx = ''download'' \<and> cx_String ctx ''file'' \<noteq> [] \<and> cx_String ctx ''id'' = [] \<and> e = ''--id is required''
    | Panic p \<Rightarrow> hosts_of env ctx = Panic p)"
  by (cases "hosts_of env ctx") (auto simp: parseConfig_hosts command_checks_def base_config_def Let_def)

text \<open>
  C35: How a failure ends a command whose configuration is good and whose every call of the client fails
  with \<open>e\<close>: \<open>bandwidth\<close>, \<open>latency\<close>, \<open>requests\<close>, \<open>download\<close> and \<open>server\<close> end with the exit status 1 after
  one call; the other six return the plain error, which \<open>main\<close> drops, and the process ends with status 0 as
  if it had succeeded.
\<close>

theorem failed_command:
  assumes "invoke env g ctx = Some p" and "parseConfig env g ctx = Return c"
  shows "length (calls (\<lambda>_. Some e) p) = 1
    \<and> result (\<lambda>_. Some e) p =
      Inr (Some (if cx_Command ctx \<in> {''bandwidth'', ''latency'', ''requests'', ''download'', ''server''}
                 then ExitError e 1 else PlainError e))
    \<and> exit_status (\<lambda>_. Some e) (invoke env g ctx) =
      (if cx_Command ctx \<in> {''bandwidth'', ''latency'', ''requests'', ''download'', ''server''} then 1 else 0)"
  using assms by (auto simp: exit_status_def invoke_simps run_defs with_config_def Let_def split: if_splits)

text \<open>The two shapes of tests.\<close>

definition latency_test :: "Config \<Rightarrow> bool" where
  "latency_test c \<longleftrightarrow> c_TestType c = RequestTest \<and> c_PayloadSize c = 1000 \<and> c_BufferSize c = 1000
     \<and> c_Concurrency c = 1 \<and> c_RequestDelay c = 200 \<and> c_RestartOnError c"

definition bandwidth_test :: "cli_ctx \<Rightarrow> Config \<Rightarrow> bool" where
  "bandwidth_test ctx c \<longleftrightarrow> c_TestType c = StreamTest \<and> c_PayloadSize c = 32000 \<and> c_BufferSize c = 32000
     \<and> c_Concurrency c = cx_Int ctx ''concurrency'' \<and> c_RequestDelay c = 0 \<and> c_RestartOnError c"


text \<open>
  C36: \<open>list\<close>, \<open>stop\<close>, \<open>delete\<close>, \<open>listen\<close> and \<open>download\<close> declare no flag \<open>duration\<close>, so their configuration has the
  duration 0 and is never to be saved, and the loop that waits for the hosts gives up exactly when more
  than 20 seconds have passed, which no flag changes.
\<close>

theorem waiting_commands_have_20_seconds:
  assumes "cli_lookup (cmd_Flags cmd env) given ctx" and "cx_Command ctx = cmd_Name cmd"
    and "cmd \<in> {listTestsCMD, stopCMD, deleteCMD, listenCMD, statDownloadCMD}"
    and "invoke env g ctx = Some p" and "op \<in> set (calls ans p)" and "0 \<le> ns" and "ns < 2 ^ 63"
  shows "\<exists>c. op \<in> {CallListTests c, CallStop c, CallDeleteTests c, CallListen c, CallDownloadTest c}
    \<and> c_Duration c = 0 \<and> \<not> c_Save c \<and> \<not> c_RestartOnError c \<and> (too_long c ns \<longleftrightarrow> 20 * 1000000000 < ns)"
proof -
  have names: "cx_Command ctx \<in> {''list'', ''stop'', ''delete'', ''listen'', ''download''}"
    using assms(2,3) by (auto simp: command_defs)
  obtain c where c: "parseConfig env g ctx = Return c"
    and "op \<in> {CallListTests c, CallStop c, CallDeleteTests c, CallListen (c\<lparr>c_Duration := 0\<rparr>), CallDownloadTest c}"
    using assms(4,5) names by (auto simp: invoke_simps run_defs with_config_def split: outcome.splits if_splits)
  moreover have "''duration'' \<notin> f_Name ` set (cmd_Flags cmd env)" "''save'' \<notin> f_Name ` set (cmd_Flags cmd env)"
    "''restart-on-error'' \<notin> f_Name ` set (cmd_Flags cmd env)"
    using assms(3) by (auto simp: command_defs flag_defs)
  then have d: "c_Duration c = 0" "\<not> c_Save c" "\<not> c_RestartOnError c"
    using cli_lookup.undeclared_config [OF assms(1) c] by simp_all
  moreover have "too_long c' ns \<longleftrightarrow> 20 * 1000000000 < ns" if "c_Duration c' = 0" for c'
    using too_long_exact [of c' ns] assms(6,7) that by simp
  ultimately show ?thesis by (auto intro: exI [of _ c] exI [of _ "c\<lparr>c_Duration := 0\<rparr>"])
qed

section \<open>Witnesses\<close>

definition demo_cli :: cli_env where
  "demo_cli = \<lparr>ce_read = \<lambda>_. None, ce_has_ell = \<lambda>_. False, ce_find_ell = \<lambda>_. Inl ''no pattern'',
     ce_is_ip = \<lambda>_. True, ce_lookup = \<lambda>_. Inl ''no such host'', ce_Unix = 1700000000,
     ce_GOMAXPROCS = 4, ce_Getwd = ''/srv''\<rparr>"

definition demo_globals :: globals where
  "demo_globals = \<lparr>g_debug = False, g_insecure = True\<rparr>"

text \<open>A command on two hosts, with an identifier and a concurrency.\<close>

definition demo_ctx :: "string \<Rightarrow> string \<Rightarrow> int \<Rightarrow> cli_ctx" where
  "demo_ctx cmd tid n =
     \<lparr>cx_Command = cmd, cx_Bool = \<lambda>_. False, cx_BoolT = \<lambda>_. True, cx_Int = (\<lambda>_. 30)(''concurrency'' := n),
      cx_String = (\<lambda>_. [])(''hosts'' := ''a,b'', ''port'' := ''9010'', ''id'' := tid)\<rparr>"

lemma demo_ctx_simps [simp]:
  "cx_Command (demo_ctx cmd tid n) = cmd" "cx_String (demo_ctx cmd tid n) ''id'' = tid" "cx_BoolT (demo_ctx cmd tid n) f"
  "cx_String (demo_ctx cmd tid n) ''file'' = []" "cx_Int (demo_ctx cmd tid n) ''concurrency'' = n"
  by (simp_all add: demo_ctx_def)

lemma demo_hosts [simp]: "hosts_of demo_cli (demo_ctx cmd tid n) = Return [''a'', ''b'']"
  by (simp add: hosts_of_def demo_cli_def demo_ctx_def ParseHosts_def expand_patterns_def)

lemma demo_parses:
  assumes "cmd \<notin> {''download'', ''analyze''}"
  shows "\<exists>c. parseConfig demo_cli demo_globals (demo_ctx cmd tid n) = Return c"
  using assms by (simp add: parseConfig_hosts command_checks_def)

theorem requests_is_latency_witness:
  "invoke demo_cli demo_globals (demo_ctx ''requests'' ''t'' 1)
    = invoke demo_cli demo_globals ((demo_ctx ''requests'' ''t'' 1)\<lparr>cx_Command := ''latency''\<rparr>)"
proof -
  have "cx_Command (demo_ctx ''requests'' ''t'' 1) = ''requests''" "cx_String (demo_ctx ''requests'' ''t'' 1) ''id'' \<noteq> []"
    by (simp_all add: demo_ctx_def)
  then show ?thesis using requests_is_latency by blast
qed

theorem failed_command_witness:
  "result (\<lambda>_. Some ''timeout'') (the (invoke demo_cli demo_globals (demo_ctx ''list'' [] 1))) = Inr (Some (PlainError ''timeout''))
    \<and> result (\<lambda>_. Some ''timeout'') (the (invoke demo_cli demo_globals (demo_ctx ''latency'' [] 1)))
      = Inr (Some (ExitError ''timeout'' 1))
    \<and> exit_status (\<lambda>_. Some ''timeout'') (invoke demo_cli demo_globals (demo_ctx ''list'' [] 1)) = 0"
proof -
  have i: "invoke demo_cli demo_globals (demo_ctx cmd [] 1) = Some (the (invoke demo_cli demo_globals (demo_ctx cmd [] 1)))"
    if "cmd \<in> {''list'', ''latency''}" for cmd
    using that by (auto simp: invoke_simps)
  obtain c d where c: "parseConfig demo_cli demo_globals (demo_ctx ''list'' [] 1) = Return c"
      "parseConfig demo_cli demo_globals (demo_ctx ''latency'' [] 1) = Return d"
    using demo_parses [of "''list''" "[]" 1] demo_parses [of "''latency''" "[]" 1] by auto
  show ?thesis
    using failed_command [OF i c(1), of "''timeout''"] failed_command [OF i c(2), of "''timeout''"] by simp
qed

text \<open>The test that \<open>bandwidth\<close> starts on the two hosts.\<close>

definition demo_bandwidth :: "int \<Rightarrow> Config" where
  "demo_bandwidth n =
     bandwidth_config (base_config demo_globals (demo_ctx ''bandwidth'' ''t'' n) [''a'', ''b''])"

lemma demo_bandwidth_called:
  "CallRunTest (demo_bandwidth n) \<in>
     set (calls (\<lambda>_. None) (the (invoke demo_cli demo_globals (demo_ctx ''bandwidth'' ''t'' n))))"
  "invoke demo_cli demo_globals (demo_ctx ''bandwidth'' ''t'' n)
    = Some (the (invoke demo_cli demo_globals (demo_ctx ''bandwidth'' ''t'' n)))"
proof -
  have i: "invoke demo_cli demo_globals (demo_ctx ''bandwidth'' ''t'' n)
      = Some (runBandwidth demo_cli demo_globals (demo_ctx ''bandwidth'' ''t'' n))"
    by (simp add: invoke_simps)
  have "parseConfig demo_cli demo_globals (demo_ctx ''bandwidth'' ''t'' n)
      = Return (base_config demo_globals (demo_ctx ''bandwidth'' ''t'' n) [''a'', ''b''])"
    by (simp add: parseConfig_hosts command_checks_def)
  then show "CallRunTest (demo_bandwidth n) \<in>
      set (calls (\<lambda>_. None) (the (invoke demo_cli demo_globals (demo_ctx ''bandwidth'' ''t'' n))))"
    by (simp add: i runBandwidth_def with_config_def demo_bandwidth_def bandwidth_config_def Let_def)
qed (simp add: invoke_simps)


theorem waiting_commands_have_20_seconds_witness:
  "\<exists>c. CallDownloadTest c \<in> set (calls (\<lambda>_. None) (the (invoke demo_cli demo_globals
        (command_line demo_cli statDownloadCMD [''hosts'' \<mapsto> ''a'', ''id'' \<mapsto> ''t'', ''file'' \<mapsto> ''out'']))))
    \<and> c_Duration c = 0 \<and> too_long c 20000000001 \<and> \<not> too_long c 20000000000"
proof -
  let ?ctx = "command_line demo_cli statDownloadCMD [''hosts'' \<mapsto> ''a'', ''id'' \<mapsto> ''t'', ''file'' \<mapsto> ''out'']"
  have cmd: "cx_Command ?ctx = cmd_Name statDownloadCMD" by (simp add: command_line_def)
  have nm: "cmd_Name statDownloadCMD = ''download''" by (simp add: statDownloadCMD_def)
  have i: "invoke demo_cli demo_globals ?ctx = Some (runDownload demo_cli demo_globals ?ctx)"
    by (simp add: invoke_simps cmd nm)
  have str: "cx_String ?ctx ''hosts'' = ''a''" "cx_String ?ctx ''dns-server'' = []" "cx_String ?ctx ''id'' = ''t''"
    "cx_String ?ctx ''file'' = ''out''"
    by (simp_all add: command_line_def declared_def statDownloadCMD_def flag_defs)
  have "hosts_of demo_cli ?ctx = Return [''a'']"
    by (simp add: hosts_of_def str) (simp add: demo_cli_def ParseHosts_def expand_patterns_def)
  then have "\<exists>c. parseConfig demo_cli demo_globals ?ctx = Return c"
    by (simp add: parseConfig_hosts command_checks_def str cmd nm)
  then obtain c where c: "CallDownloadTest c \<in> set (calls (\<lambda>_. None) (runDownload demo_cli demo_globals ?ctx))"
    by (auto simp: runDownload_def with_config_def)
  have "\<exists>c'. CallDownloadTest c = CallDownloadTest c' \<and> c_Duration c' = 0 \<and> (too_long c' ns \<longleftrightarrow> 20 * 1000000000 < ns)"
    if "0 \<le> ns" "ns < 2 ^ 63" for ns
    using waiting_commands_have_20_seconds [OF download.cli_lookup_axioms cmd _ i c that] by auto
  from this [of 20000000001] this [of 20000000000] show ?thesis using c i by (intro exI [of _ c]) auto
qed

end
