(* ===== verification/Spec2Isabelle.thy ===== *)
theory Spec2Isabelle
  imports ClientServer ServerHttp ServerMain Cli
begin

text \<open>
  A model of \<open>hperf\<close>, the distributed network and latency benchmark of this repository, and the
  theorems that make it correct.

  \<^bold>\<open>The program.\<close> A command of \<open>src/cmd/hperf\<close> turns its flags into a configuration and calls a
  function of \<open>src/client\<close>. The client connects to all hosts by websocket and sends each the signal of the
  command with the list of the other hosts. A server of \<open>src/server\<close> that is told to run a test creates
  one reader per host; goroutines send requests with a body of zero bytes to that host, as many at a time as there
  are tokens in a channel, and count what is read. Once a second the loop of the test turns the counters
  into data points, sends them to the clients that listen and appends them to a file. Clients list,
  download and delete the files by the identifier of the test, and analyze what they downloaded.
  \<open>src/shared\<close> has the messages, host lists, sorting, statistics and number formats.

  \<^bold>\<open>The language and its library.\<close> \<open>Prelude\<close> has the machine integers, the \<open>outcome\<close> of a call
  (it returns, it fails with an error, it panics) and functions of \<open>strings\<close> and \<open>strconv\<close>; \<open>GoFloat\<close>
  has \<open>float64\<close> with its rounding, \<open>GoTime\<close> the time layouts, \<open>GoCsv\<close> the CSV writer and a reader of its
  output, \<open>FileStore\<close> files with names, handles and contents, globbing and the line scanner.

  \<^bold>\<open>src/shared.\<close> \<open>SharedTypes\<close>: the records and enumerations of \<open>shared.go\<close>. \<open>SharedSorting\<close>:
  \<open>sorting.go\<close>; the locale \<open>sort_func\<close> is what \<open>slices.SortFunc\<close> promises, interpreted on its insertion
  sort. \<open>SharedStats\<close>: the five counters of \<open>stats.go\<close> at 64 bits. \<open>SharedFormat\<close>: \<open>BToString\<close> and
  \<open>BWToString\<close> with floating point. \<open>SharedHosts\<close>: \<open>ParseHosts\<close>.

  \<^bold>\<open>src/server.\<close> \<open>ServerTypes\<close>: tests, readers and the connections, with every message that was
  sent. \<open>ServerStats\<close>: the host statistics. \<open>ServerFiles\<close>: \<open>file.go\<close>, each operation with the lemmas that
  say which files it changes and what it sends. \<open>ServerTest\<close>: a test from \<open>newTest\<close> to
  \<open>generateDataPoints\<close>, \<open>sendAndSaveData\<close>, \<open>stopAllTests\<close> and \<open>listenToLiveTests\<close>. \<open>ServerReader\<close>: the
  request body (\<open>asyncReader\<close>) and the goroutines of a test as the step relation \<open>traffic\<close>; the locale
  \<open>token_chan\<close> is the contract of the token channel, interpreted on the channel of a reader. \<open>Server\<close>: the
  process as the step relation \<open>step\<close> over all tests, their loops, clients and the clock. \<open>ServerSafety\<close>:
  the invariant \<open>server_ok\<close>, which every step keeps, and what it gives for all reachable states.
  \<open>ServerQuiet\<close>: what becomes of a cancelled test in every later state. \<open>ServerHttp\<close>: the socket options of
  \<open>helpers_linux.go\<close>, the transport and the table of routes; the locales \<open>kernel\<close> and \<open>router\<close> are the
  contracts of \<open>setsockopt\<close> and of fiber, each interpreted on a concrete one. \<open>ServerMain\<close>: the main loop of
  the process, its listener and \<open>getServerStats\<close> as the step relation \<open>mstep\<close>, which shares no state with
  \<open>step\<close> but the statistics and the context.
  \<open>ServerStore\<close>: the abstract store, a map from identifiers to saved lines; the locale
  \<open>store_refinement\<close> carries a simulation of single operations over to histories, interpreted on the
  operations of the server.

  \<^bold>\<open>src/client.\<close> \<open>ClientTable\<close>: the tables of \<open>table.go\<close>, a screen being the list of its lines.
  \<open>ClientCollect\<close>: what the handlers of signals collect, and the file of a download. \<open>ClientAnalyze\<close>: the
  percentiles, the analysis and the CSV output. \<open>ClientRun\<close>: sockets, the signals of the commands, the
  loop \<open>keepAliveLoop\<close> and the running totals. \<open>ClientConn\<close>: \<open>initializeClient\<close> and
  \<open>handleWSConnection\<close>, one goroutine per host and one per signal, as the step relation \<open>cstep\<close>.
  \<open>ClientCommands\<close>: the commands as their callers see them, by how the client ended.

  \<^bold>\<open>src/cmd/hperf.\<close> \<open>Cli\<close>: flags and commands as data, \<open>before\<close>, \<open>parseConfig\<close>, and each action as
  the tree of the client calls it makes. The locale \<open>cli_lookup\<close> is what \<open>minio/cli\<close> promises of a context,
  interpreted on the command lines of two commands.

  \<^bold>\<open>Across the network.\<close> \<open>ClientServer\<close>: what the commands \<open>stop\<close> and \<open>list\<close> do to and get from the
  servers.

  \<^bold>\<open>This theory\<close> puts the parts together: which command line ends a server, what \<open>requests\<close> does
  without an identifier, and that the data points and errors a test flushed are the ones a client that
  downloads the test collects, each once and in order.

  \<^bold>\<open>What is shown.\<close> Server: concurrency never exceeds the tokens and none is lost or made up;
  a cancelled test sends no new request and its goroutines end; the counted bytes and latencies reach the
  data points unchanged; a flush sends and saves exactly what is pending; a test ends at its duration;
  every reachable state of the process keeps its invariant and only sends well-formed messages; a stopped
  test stays silent; routes answer what readers ask for; the main loop never has two readers of the
  statistics; the result files refine the abstract store. Client: hosts doing work are counted exactly, every signal read is
  collected once, no signal of a command is sent before all messages of the connections have come; totals,
  percentiles and CSV are those of a reference definition; downloads can be read back. Command line: which
  call with which configuration each command makes. Several theorems state where the program does not do
  what it is meant to: identifiers that are prefixes of others or have a dot, a panic that a flag causes,
  a download that is cut off without an error, a reconnecting host that is counted twice.

  \<^bold>\<open>Bounds and loops.\<close> Counters, latencies and statistics are words of their width; times are
  nanoseconds, and the clock of a server stays below \<open>2 ^ 63\<close>, as \<open>UnixNano\<close> does. Configurations have
  unbounded integers, as no arithmetic of the code on them comes near their width; payload sizes and
  concurrency are checked where \<open>make\<close> panics. \<open>keepAliveLoop\<close> runs over a list of what it observes in each
  round, and it is proved to return for every list of more than its duration plus 20 seconds. A scanner
  stops at the token size of \<open>bufio\<close>. All other loops are structural or have a termination proof.

  \<^bold>\<open>Parameters.\<close> JSON encoding and decoding, sorting, DNS, the ellipses package, \<open>gopsutil\<close>, the kernel, the router, the
  errors of the operating system, the values of flags and the choices of the network are arguments of the
  definitions that use them; what a theorem needs of them is a hypothesis of it, and its witness has
  concrete functions for them.

  \<^bold>\<open>Not modelled.\<close> The HTTP client and server themselves, the TCP listener, TLS and the shutdown, which are
  calls of \<open>net/http\<close> and \<open>fiber\<close>; the handler of signals of the operating system, whose only effect, a
  cancelled context, is a step of the models; the colours of \<open>lipgloss\<close>; \<open>DEBUG\<close>, \<open>INFO\<close>, \<open>prettyprint\<close> and the help
  texts, which only print. Writes to one websocket are atomic. Data races are outside the
  model: a step is one action of one goroutine.
\<close>

section \<open>From the command line to the servers\<close>

lemma make_readers_negative:
  assumes "0 \<le> c_PayloadSize c" and "c_Concurrency c < 0"
  shows "make_readers e now c hs =
    (if filter (\<lambda>h. \<not> skip_host e (JoinHostPort h (c_Port c))) hs = [] then Return []
     else Panic ''makechan: size out of range'')"
  using assms by (induction hs) (auto simp: newPerformanceReaderForASingleHost_def)

lemma newTest_negative:
  assumes "0 \<le> c_PayloadSize c" and "c_Concurrency c < 0"
  shows "snd (newTest e rm_err now c fs) =
    (if kept_hosts e c = [] then Error err_no_readers else Panic ''makechan: size out of range'')"
  by (simp add: newTest_def make_readers_negative [OF assms] kept_hosts_def split_beta Let_def)


text \<open>
  C32: \<open>requests\<close> without an identifier destroys everything: unlike \<open>latency\<close> it makes up no identifier,
  and on every server that gets its signal the results of all tests are gone, with one empty result file
  without a name in their place.
\<close>

theorem requests_without_id_wipes:
  assumes "invoke env g ctx = Some p" and "CallRunTest c \<in> set (calls ans p)"
    and "cx_Command ctx = ''requests''" and "cx_String ctx ''id'' = []" and "cx_BoolT ctx ''save''"
    and "(con, sig) \<in> set (fst (RunTest_send c socks))"
    and "store_ready (e_basePath e) b (s_fs s)" and "\<forall>p. rm_err p = None"
  shows "content (s_fs (handle_signal e rm_err uid con' sig s)) (b @ [n]) = (if n = ''.1'' then Some [] else None)"
proof -
  obtain c0 where c0: "parseConfig env g ctx = Return c0"
    and c: "c = (if cx_Command ctx = ''bandwidth'' then bandwidth_config c0 else latency_config c0)"
    by (rule called_config [OF assms(1,2)])
  obtain hosts where sig: "sig = NewSignal RunTest (c\<lparr>c_Hosts := hosts\<rparr>)" by (rule RunTest_sends [OF assms(6)])
  let ?c = "c\<lparr>c_Hosts := hosts\<rparr>"
  have id: "c_TestID ?c = []" "c_Save ?c"
    using parsed_fields(2,5) [OF c0] assms(3-5) by (simp_all add: c latency_config_def)
  have "plain_id (c_TestID ?c)" unfolding id by code_simp
  then obtain fs' where "fst (newTest e rm_err (s_now s) ?c (s_fs s)) = fs'"
    "\<And>q. content fs' q = (if q = b @ [c_TestID ?c @ ''.1''] then Some []
       else if \<exists>n. q = b @ [c_TestID ?c @ n] then None else content (s_fs s) q)"
    by (rule newTest_saved [OF assms(7) _ assms(8) id(2), of "s_now s"]) blast
  moreover have "s_fs (handle_signal e rm_err uid con' sig s) = fst (newTest e rm_err (s_now s) ?c (s_fs s))"
    by (simp add: handle_signal_def createAndRunTest_def sig split: prod.split outcome.split)
  ultimately show ?thesis by (simp add: id(1))
qed

section \<open>From the readers to the client\<close>

text \<open>A history of flushes of one test: each at its time, with what is pending then.\<close>

type_synonym batch = "time \<times> DP list \<times> TError list"

fun flushes :: "env \<Rightarrow> json \<Rightarrow> batch list \<Rightarrow> test \<Rightarrow> fsys \<Rightarrow> net \<Rightarrow> test \<times> fsys \<times> net" where
  "flushes e js [] t fs n = (t, fs, n)"
| "flushes e js ((now, ds, es) # bs) t fs n =
     (case sendAndSaveData e js now (t\<lparr>t_DPS := ds, t_errors := es\<rparr>) fs n of
        (t1, fs1, n1) \<Rightarrow> flushes e js bs t1 fs1 n1)"

definition batch_lines :: "json \<Rightarrow> batch list \<Rightarrow> bytes list" where
  "batch_lines js bs = concat (map (\<lambda>(_, ds, es). download_lines (js_dp js) (js_err js) ds es) bs)"

definition batches_in :: "DP set \<Rightarrow> TError set \<Rightarrow> batch list \<Rightarrow> bool" where
  "batches_in D E bs \<longleftrightarrow> list_all (\<lambda>(_, ds, es). set ds \<subseteq> D \<and> set es \<subseteq> E) bs"

lemma line_of_prefix:
  "line_of enc DataPoint = (\<lambda>x. CHR ''0'' # (case enc x of Inr b \<Rightarrow> b | Inl _ \<Rightarrow> []))"
  "line_of enc ErrorPoint = (\<lambda>x. CHR ''1'' # (case enc x of Inr b \<Rightarrow> b | Inl _ \<Rightarrow> []))"
  by (simp_all add: line_of_def fun_eq_iff)

lemma batch_lines_Cons:
  "batch_lines js ((now, ds, es) # bs) =
    map (line_of (js_dp js) DataPoint) ds @ map (line_of (js_err js) ErrorPoint) es @ batch_lines js bs"
  by (simp add: batch_lines_def download_lines_def)

lemma flushes_file:
  assumes "codec (js_dp js) (js_err js) uj D E" and "batches_in D E bs"
    and "c_Save (t_Config t)" and "t_DataFile t = Some (Open i)" and "map_of (fs_names fs) p = Some i"
    and "store_ready base b fs" and "flushes e js bs t fs n = (t', fs', n')"
  shows "store_ready base b fs' \<and> fs_names fs' = fs_names fs
    \<and> content fs' p = Some (fs_data fs i @ join_lines (batch_lines js bs))"
  using assms(2-7)
proof (induction bs arbitrary: t fs n)
  case Nil
  then show ?case by (simp add: batch_lines_def content_def)
next
  case (Cons x bs)
  obtain now ds es where x: "x = (now, ds, es)" by (cases x)
  let ?t = "t\<lparr>t_DPS := ds, t_errors := es\<rparr>"
  let ?d = "\<lambda>d. case js_dp js d of Inr b \<Rightarrow> b | Inl _ \<Rightarrow> []" and ?x = "\<lambda>x. case js_err js x of Inr b \<Rightarrow> b | Inl _ \<Rightarrow> []"
  have sub: "set ds \<subseteq> D" "set es \<subseteq> E" and bs: "batches_in D E bs" using Cons.prems(1) by (simp_all add: batches_in_def x)
  have enc: "\<forall>d \<in> set (t_DPS ?t). js_dp js d = Inr (?d d)" "\<forall>x \<in> set (t_errors ?t). js_err js x = Inr (?x x)"
    using sub codec_encodes(1,2) [OF assms(1)] by (fastforce split: sum.split)+
  obtain t1 fs1 n1 where s1: "sendAndSaveData e js now ?t fs n = (t1, fs1, n1)" by (cases "sendAndSaveData e js now ?t fs n")
  have "c_Save (t_Config ?t)" "t_DataFile ?t = Some (Open i)" using Cons.prems(2,3) by simp_all
  note fl = flush_saved [OF this enc, of e now fs n, unfolded s1]
  let ?ls = "download_lines (js_dp js) (js_err js) ds es"
  have fs1: "fs1 = write_lines now (Some (Open i)) ?ls fs"
    using fl by (simp add: download_lines_def line_of_prefix)
  have t1: "c_Save (t_Config t1)" "t_DataFile t1 = Some (Open i)" using fl Cons.prems(2,3) by simp_all
  note ready = Cons.prems(5)
  note W = write_lines_spec [OF store_readyD(2) [OF ready] Cons.prems(4), where now = now and ls = ?ls, folded fs1]
  have names: "fs_names fs1 = fs_names fs" and "content fs1 p = Some (fs_data fs i @ join_lines ?ls)"
    using W [of p] by simp_all
  then have data: "fs_data fs1 i = fs_data fs i @ join_lines ?ls" using Cons.prems(4) by (simp add: content_def)
  have ready1: "store_ready base b fs1"
    using W [of p] by (intro store_ready_frame [OF ready]) (auto simp: fs1 paths_def)
  have names1: "map_of (fs_names fs1) p = Some i" using Cons.prems(4) names by simp
  have "flushes e js bs t1 fs1 n1 = (t', fs', n')" using Cons.prems(6) by (simp add: x s1)
  from Cons.IH [OF bs t1 names1 ready1 this]
  show ?case unfolding x batch_lines_Cons names data by (simp add: download_lines_def)
qed

text \<open>What the client makes of the lines of a download.\<close>

lemma batch_lines_plain:
  assumes "codec (js_dp js) (js_err js) uj D E" and "batches_in D E bs"
  shows "\<forall>l \<in> set (batch_lines js bs). plain_line l"
  using assms(2) codec_encodes(3,4) [OF assms(1)]
  by (fastforce simp: batch_lines_def batches_in_def list_all_iff download_lines_def)

lemma task_of_data: "concat (map task_of (map data_signal ls)) = map DataTask ls"
  by (induction ls) (auto simp: task_of_def data_signal_def)

lemma task_DPS_lines:
  assumes "codec enc_dp enc_err uj D E"
  shows "set ds \<subseteq> D \<Longrightarrow> concat (map (task_DPS uj) (map DataTask (map (line_of enc_dp DataPoint) ds))) = ds"
    and "set ds \<subseteq> D \<Longrightarrow> concat (map (task_ERR uj) (map DataTask (map (line_of enc_dp DataPoint) ds))) = []"
    and "set es \<subseteq> E \<Longrightarrow> concat (map (task_ERR uj) (map DataTask (map (line_of enc_err ErrorPoint) es))) = es"
    and "set es \<subseteq> E \<Longrightarrow> concat (map (task_DPS uj) (map DataTask (map (line_of enc_err ErrorPoint) es))) = []"
proof -
  have d: "\<exists>b. enc_dp d = Inr (CHR ''{'' # b) \<and> uj_dp uj (CHR ''{'' # b) = Inr (Some d)" if "d \<in> D" for d
    using assms that by (force simp: codec_def)
  have x: "\<exists>b. enc_err x = Inr (CHR ''{'' # b) \<and> uj_err uj (CHR ''{'' # b) = Inr (Some x)" if "x \<in> E" for x
    using assms that by (force simp: codec_def)
  show "set ds \<subseteq> D \<Longrightarrow> concat (map (task_DPS uj) (map DataTask (map (line_of enc_dp DataPoint) ds))) = ds"
    "set ds \<subseteq> D \<Longrightarrow> concat (map (task_ERR uj) (map DataTask (map (line_of enc_dp DataPoint) ds))) = []"
    using d by (induction ds) (fastforce simp: line_of_prefix)+
  show "set es \<subseteq> E \<Longrightarrow> concat (map (task_ERR uj) (map DataTask (map (line_of enc_err ErrorPoint) es))) = es"
    "set es \<subseteq> E \<Longrightarrow> concat (map (task_DPS uj) (map DataTask (map (line_of enc_err ErrorPoint) es))) = []"
    using x by (induction es) (fastforce simp: line_of_prefix)+
qed

lemma batch_lines_received:
  assumes "codec (js_dp js) (js_err js) uj D E" and "batches_in D E bs"
  shows "concat (map (task_DPS uj) (map DataTask (batch_lines js bs))) = concat (map (\<lambda>(_, ds, es). ds) bs)"
    and "concat (map (task_ERR uj) (map DataTask (batch_lines js bs))) = concat (map (\<lambda>(_, ds, es). es) bs)"
proof -
  have "concat (map (task_DPS uj) (map DataTask (batch_lines js bs))) = concat (map (\<lambda>(_, ds, es). ds) bs)
    \<and> concat (map (task_ERR uj) (map DataTask (batch_lines js bs))) = concat (map (\<lambda>(_, ds, es). es) bs)"
    using assms(2)
  proof (induction bs)
    case Nil
    show ?case by (simp add: batch_lines_def)
  next
    case (Cons x bs)
    obtain now ds es where x: "x = (now, ds, es)" by (cases x)
    have "set ds \<subseteq> D" "set es \<subseteq> E" "batches_in D E bs" using Cons.prems by (simp_all add: batches_in_def x)
    then show ?case
      using Cons.IH unfolding x batch_lines_Cons map_append concat_append by (simp add: task_DPS_lines [OF assms(1)] del: map_map)
  qed
  then show "concat (map (task_DPS uj) (map DataTask (batch_lines js bs))) = concat (map (\<lambda>(_, ds, es). ds) bs)"
    "concat (map (task_ERR uj) (map DataTask (batch_lines js bs))) = concat (map (\<lambda>(_, ds, es). es) bs)" by blast+
qed


section \<open>Witnesses\<close>

lemma demo_sent:
  assumes "c_Hosts c = [''a'', ''b'']"
  shows "(0, NewSignal RunTest (c\<lparr>c_Hosts := [''b'']\<rparr>)) \<in> set (fst (RunTest_send c demo_sockets))"
  unfolding RunTest_send_def connected_def itterate_connected using assms by simp

lemma demo_up: "up (init_server 0 demo_fs)" "s_fs (init_server 0 demo_fs) = demo_fs"
  by (simp_all add: up_def init_server_def)


text \<open>The test that \<open>requests\<close> starts without an identifier.\<close>

definition demo_requests :: Config where
  "demo_requests = latency_config (base_config demo_globals (demo_ctx ''requests'' [] 1) [''a'', ''b''])"

theorem requests_without_id_wipes_witness:
  "content demo_fs [''d'', ''bw.1''] = Some []
    \<and> content (s_fs (handle_signal demo_env (\<lambda>_. None) ''u'' 0 (NewSignal RunTest (demo_requests\<lparr>c_Hosts := [''b'']\<rparr>))
        (init_server 0 demo_fs))) [''d'', ''bw.1''] = None"
proof -
  have i: "invoke demo_cli demo_globals (demo_ctx ''requests'' [] 1)
      = Some (runLatency demo_cli demo_globals (demo_ctx ''requests'' [] 1))" by (simp add: invoke_simps)
  have "parseConfig demo_cli demo_globals (demo_ctx ''requests'' [] 1)
      = Return (base_config demo_globals (demo_ctx ''requests'' [] 1) [''a'', ''b''])"
    by (simp add: parseConfig_hosts command_checks_def)
  then have c: "CallRunTest demo_requests \<in> set (calls (\<lambda>_. None) (runLatency demo_cli demo_globals (demo_ctx ''requests'' [] 1)))"
    by (simp add: runLatency_def with_config_def demo_requests_def latency_config_def Let_def)
  have "c_Hosts demo_requests = [''a'', ''b'']" by (simp add: demo_requests_def latency_config_def base_config_def)
  note sent = demo_sent [OF this]
  have "store_ready (e_basePath demo_env) [''d''] (s_fs (init_server 0 demo_fs))"
    using demo_ready demo_up(2) by (simp add: demo_env_def)
  from requests_without_id_wipes [OF i c _ _ _ sent this, where n = "''bw.1''"]
  have "content (s_fs (handle_signal demo_env (\<lambda>_. None) ''u'' 0 (NewSignal RunTest (demo_requests\<lparr>c_Hosts := [''b'']\<rparr>))
        (init_server 0 demo_fs))) [''d'', ''bw.1''] = None" by simp
  moreover have "content demo_fs [''d'', ''bw.1''] = Some []" by code_simp
  ultimately show ?thesis by blast
qed

text \<open>A test on the demonstration server that is flushed twice.\<close>

definition history_json :: json where
  "history_json = \<lparr>js_dp = demo_enc_dp, js_err = demo_enc_err\<rparr>"

definition demo_history :: "test \<times> fsys \<times> net" where
  "demo_history =
     (case newTest demo_env (\<lambda>_. None) 5 demo_config demo_fs of
        (fs, Return t) \<Rightarrow> flushes demo_env history_json [(6, [new_dp], [demo_terror]), (7, [old_dp], [])] t fs demo_net
      | (fs, _) \<Rightarrow> (demo_test [], fs, demo_net))"


end
